(* ===== verification/Effects.thy ===== *)
theory Effects
  imports Main
begin

text \<open>
  The effect layer. Every function of the agent that talks to another system (the
  Kubernetes API server, AWS, iptables, the kernel's files, a TCP connection) or that
  enters a locked section becomes a program: a tree of atomic actions on a world
  \<open>'w\<close>. The actions themselves are parameters wherever they belong to another
  system. A program has two readings: \<open>run\<close> executes it alone, and
  \<open>par_step\<close> interleaves the actions of several programs on one world. Facts about
  interleavings come from the rely/guarantee predicate \<open>safe\<close>.
\<close>

section \<open>Programs\<close>

datatype (dead 'w, 'a) prog = Ret 'a | Act "'w \<Rightarrow> ('w, 'a) prog \<times> 'w"

primrec bind :: "('w, 'a) prog \<Rightarrow> ('a \<Rightarrow> ('w, 'b) prog) \<Rightarrow> ('w, 'b) prog" where
  "bind (Ret a) k = k a"
| "bind (Act f) k = Act (\<lambda>w. map_prod (\<lambda>p. bind p k) id (f w))"

definition call :: "('w \<Rightarrow> 'r \<times> 'w) \<Rightarrow> ('w, 'r) prog" where
  "call f = Act (\<lambda>w. case f w of (r, w') \<Rightarrow> (Ret r, w'))"

text \<open>A program over a part of the world, seen as a program over the whole of it.\<close>

primrec zoom :: "('w \<Rightarrow> 'v) \<Rightarrow> ('v \<Rightarrow> 'w \<Rightarrow> 'w) \<Rightarrow> ('v, 'a) prog \<Rightarrow> ('w, 'a) prog" where
  "zoom g p (Ret a) = Ret a"
| "zoom g p (Act f) = Act (\<lambda>w. map_prod (\<lambda>q. zoom g p q) (\<lambda>v. p v w) (f (g w)))"

section \<open>Running a program alone\<close>

primrec run :: "('w, 'a) prog \<Rightarrow> 'w \<Rightarrow> 'a \<times> 'w" where
  "run (Ret a) = (\<lambda>w. (a, w))"
| "run (Act f) = (\<lambda>w. (case map_prod run id (f w) of (g, w') \<Rightarrow> g w'))"

lemma run_Act: "run (Act f) w = (case f w of (p, w') \<Rightarrow> run p w')"
  by (simp add: case_prod_beta)

lemma run_call [simp]: "run (call f) w = f w"
  by (simp add: call_def case_prod_beta)

lemma run_bind [simp]: "run (bind p k) w = (case run p w of (a, w') \<Rightarrow> run (k a) w')"
proof (induction p arbitrary: w)
  case (Act f)
  obtain q v where f: "f w = (q, v)" by fastforce
  have "run (bind q k) v = (case run q v of (a, w') \<Rightarrow> run (k a) w')"
    by (rule Act.IH [of "f w" q]) (use f in \<open>auto intro: rangeI [of f w, unfolded f]\<close>)
  then show ?case by (simp add: f)
qed simp

lemma run_zoom:
  assumes "\<And>v w. g (p v w) = v" and "\<And>v v' w. p v (p v' w) = p v w" and "\<And>w. p (g w) w = w"
  shows "run (zoom g p q) w = (case run q (g w) of (a, v) \<Rightarrow> (a, p v w))"
proof (induction q arbitrary: w)
  case (Ret a)
  then show ?case by (simp add: assms)
next
  case (Act f)
  obtain q v where f: "f (g w) = (q, v)" by fastforce
  have "run (zoom g p q) (p v w) = (case run q (g (p v w)) of (a, v') \<Rightarrow> (a, p v' (p v w)))"
    by (rule Act.IH [of "f (g w)" q]) (use f in \<open>auto intro: rangeI [of f "g w", unfolded f]\<close>)
  then show ?case by (simp add: f assms)
qed

lemma run_zoom_put:
  assumes "\<And>v w. g (p v w) = v" and "\<And>v v' w. p v (p v' w) = p v w"
  shows "run (zoom g p q) (p v w) = (case run q v of (a, v') \<Rightarrow> (a, p v' w))"
proof (induction q arbitrary: v)
  case (Act f)
  obtain q v' where f: "f v = (q, v')" by fastforce
  have "run (zoom g p q) (p v' w) = (case run q v' of (a, v'') \<Rightarrow> (a, p v'' w))"
    by (rule Act.IH [of "f v" q]) (use f in \<open>auto intro: rangeI [of f v, unfolded f]\<close>)
  then show ?case by (simp add: f assms)
qed simp

section \<open>Running a program for each element of a list\<close>

text \<open>Go's \<open>for _, x := range xs\<close> whose body is an effect and never leaves the loop early.\<close>

fun for_each :: "('x \<Rightarrow> ('w, unit) prog) \<Rightarrow> 'x list \<Rightarrow> ('w, unit) prog" where
  "for_each b [] = Ret ()"
| "for_each b (x # xs) = bind (b x) (\<lambda>_. for_each b xs)"

lemma run_for_each_invariant:
  assumes "I w" and "\<And>x w. x \<in> set xs \<Longrightarrow> I w \<Longrightarrow> I (snd (run (b x) w))"
  shows "I (snd (run (for_each b xs) w))"
  using assms
proof (induction xs arbitrary: w)
  case (Cons x xs)
  have "I (snd (run (b x) w))" using Cons.prems by simp
  then have "I (snd (run (for_each b xs) (snd (run (b x) w))))"
    by (rule Cons.IH) (simp add: Cons.prems)
  then show ?case by (simp add: case_prod_beta)
qed simp

section \<open>Interleavings\<close>

inductive par_step ::
  "('i \<Rightarrow> ('w, 'a) prog) \<times> 'w \<Rightarrow> 'i \<Rightarrow> ('i \<Rightarrow> ('w, 'a) prog) \<times> 'w \<Rightarrow> bool" where
  par_act: "P i = Act f \<Longrightarrow> f w = (p, w') \<Longrightarrow> par_step (P, w) i (P(i := p), w')"

inductive_cases par_stepE: "par_step (P, w) i (P', w')"

inductive par_reach :: "('i \<Rightarrow> ('w, 'a) prog) \<times> 'w \<Rightarrow> ('i \<Rightarrow> ('w, 'a) prog) \<times> 'w \<Rightarrow> bool" where
  par_refl: "par_reach c c"
| par_trans: "par_reach c d \<Longrightarrow> par_step d i e \<Longrightarrow> par_reach c e"

lemma par_reach_trans: "par_reach d e \<Longrightarrow> par_reach c d \<Longrightarrow> par_reach c e"
  by (induction rule: par_reach.induct) (auto intro: par_trans)

text \<open>A program run alone, from its start to its result, is one of the interleavings.\<close>

lemma par_run:
  assumes "run p w = (a, w')" and "P i = p"
  shows "\<exists>P'. par_reach (P, w) (P', w') \<and> P' i = Ret a"
  using assms
proof (induction p arbitrary: w P)
  case (Ret b)
  then show ?case by (auto intro: par_refl)
next
  case (Act f)
  obtain q v where f: "f w = (q, v)" by fastforce
  have "run q v = (a, w')" using Act.prems(1) by (simp add: f)
  with Act.IH [of "f w" q] f obtain P' where P': "par_reach (P(i := q), v) (P', w')" "P' i = Ret a"
    by (metis (no_types) fst_conv fsts.intros fun_upd_same rangeI)
  have "par_reach (P, w) (P(i := q), v)"
    by (rule par_trans [OF par_refl par_act [where P = P, OF Act.prems(2) f]])
  with P' show ?case by (blast intro: par_reach_trans)
qed

inductive safe :: "('w \<Rightarrow> 'w \<Rightarrow> bool) \<Rightarrow> ('w \<Rightarrow> 'w \<Rightarrow> bool) \<Rightarrow> ('a \<Rightarrow> 'w \<Rightarrow> bool) \<Rightarrow>
    ('w, 'a) prog \<Rightarrow> 'w \<Rightarrow> bool"
  for R :: "'w \<Rightarrow> 'w \<Rightarrow> bool" and G :: "'w \<Rightarrow> 'w \<Rightarrow> bool" and Q :: "'a \<Rightarrow> 'w \<Rightarrow> bool" where
  safe_Ret: "(\<And>w'. R w w' \<Longrightarrow> Q a w') \<Longrightarrow> safe R G Q (Ret a) w"
| safe_Act: "(\<And>w' p w''. R w w' \<Longrightarrow> f w' = (p, w'') \<Longrightarrow> G w' w'' \<and> safe R G Q p w'') \<Longrightarrow>
     safe R G Q (Act f) w"

inductive_cases safe_RetE: "safe R G Q (Ret a) w"
inductive_cases safe_ActE: "safe R G Q (Act f) w"

lemma safe_env:
  assumes "safe R G Q p w" and "R w v" and "\<And>x y z. R x y \<Longrightarrow> R y z \<Longrightarrow> R x z"
  shows "safe R G Q p v"
  using assms(1)
proof cases
  case (safe_Ret a)
  then show ?thesis using assms(2,3) by (auto intro!: safe.safe_Ret)
next
  case (safe_Act f)
  show ?thesis
    unfolding safe_Act(1)
  proof (rule safe.safe_Act)
    fix w' q w''
    assume "R v w'" and "f w' = (q, w'')"
    with assms(2,3) show "G w' w'' \<and> safe R G Q q w''"
      using safe_Act(2) by blast
  qed
qed

lemma safe_call:
  fixes f :: "'w \<Rightarrow> 'r \<times> 'w"
  assumes "\<And>w' r w''. R w w' \<Longrightarrow> f w' = (r, w'') \<Longrightarrow> G w' w'' \<and> (\<forall>v. R w'' v \<longrightarrow> Q r v)"
  shows "safe R G Q (call f) w"
  unfolding call_def
proof (rule safe_Act)
  fix w' w'' and p :: "('w, 'r) prog"
  assume R: "R w w'" and "(case f w' of (r, w'') \<Rightarrow> (Ret r, w'')) = (p, w'')"
  then obtain r where "f w' = (r, w'')" and "p = Ret r"
    by (cases "f w'") auto
  with assms [OF R] show "G w' w'' \<and> safe R G Q p w''"
    by (auto intro!: safe_Ret)
qed

lemma safe_bind:
  assumes "safe R G Q p w" and "\<And>a v. Q a v \<Longrightarrow> safe R G Q' (k a) v" and "\<And>x. R x x"
  shows "safe R G Q' (bind p k) w"
  using assms(1)
proof (induction rule: safe.induct)
  case (safe_Ret w a)
  then show ?case using assms(2,3) by auto
next
  case (safe_Act w f)
  show ?case
  proof (simp, rule safe.safe_Act)
    fix w' r w''
    assume R: "R w w'" and "map_prod (\<lambda>q. bind q k) id (f w') = (r, w'')"
    then obtain q where "f w' = (q, w'')" and "r = bind q k"
      by (cases "f w'") auto
    with safe_Act [OF R] show "G w' w'' \<and> safe R G Q' r w''" by blast
  qed
qed

lemma safe_call_bind:
  fixes f :: "'w \<Rightarrow> 'r \<times> 'w" and k :: "'r \<Rightarrow> ('w, 'a) prog"
  assumes "\<And>w' r w''. R w w' \<Longrightarrow> f w' = (r, w'') \<Longrightarrow> G w' w'' \<and> safe R G Q (k r) w''"
  shows "safe R G Q (bind (call f) k) w"
  unfolding call_def bind.simps
proof (rule safe_Act)
  fix w' w'' and p :: "('w, 'a) prog"
  assume R: "R w w'"
    and p: "map_prod (\<lambda>p. bind p k) id (case f w' of (r, w') \<Rightarrow> (Ret r, w')) = (p, w'')"
  obtain r v where f: "f w' = (r, v)" by fastforce
  with p have "p = k r" and "v = w''" by simp_all
  with assms [OF R f] show "G w' w'' \<and> safe R G Q p w''" by simp
qed

lemma safe_weaken:
  assumes "safe R G Q p w" and "\<And>a v. Q a v \<Longrightarrow> Q' a v"
  shows "safe R G Q' p w"
  using assms(1)
  by (induction rule: safe.induct) (auto intro!: safe.intros assms(2))

text \<open>
  The composition rule: if every program is safe and no program's step leaves another's
  rely, then along every interleaving each step is one its program guarantees.
\<close>

definition all_safe where
  "all_safe R G Q c \<longleftrightarrow> (\<forall>i. safe (R i) (G i) (Q i) (fst c i) (snd c))"

lemma par_step_safe:
  assumes "all_safe R G Q c" and "par_step c i d"
    and refl: "\<And>i x. R i x x" and trans: "\<And>i x y z. R i x y \<Longrightarrow> R i y z \<Longrightarrow> R i x z"
    and compat: "\<And>i j x y. i \<noteq> j \<Longrightarrow> G i x y \<Longrightarrow> R j x y"
  shows "G i (snd c) (snd d) \<and> all_safe R G Q d"
proof -
  obtain P w where c: "c = (P, w)" by fastforce
  from assms(2) c obtain f p w' where
    step: "P i = Act f" "f w = (p, w')" "d = (P(i := p), w')"
    by (auto elim: par_step.cases)
  have "safe (R i) (G i) (Q i) (Act f) w"
    using assms(1) step(1) by (auto simp: all_safe_def c dest: spec [of _ i])
  then have G: "G i w w'" and S: "safe (R i) (G i) (Q i) p w'"
    using refl [of i w] step(2) by (auto elim!: safe_ActE)
  have "safe (R j) (G j) (Q j) ((P(i := p)) j) w'" for j
  proof (cases "j = i")
    case True
    with S show ?thesis by simp
  next
    case False
    have "safe (R j) (G j) (Q j) (P j) w"
      using assms(1) by (simp add: all_safe_def c)
    moreover have "R j w w'" using compat [of i j w w'] False G by simp
    ultimately have "safe (R j) (G j) (Q j) (P j) w'"
      by (rule safe_env) (rule trans)
    with False show ?thesis by simp
  qed
  with G step(3) show ?thesis by (simp add: all_safe_def c)
qed

lemma par_reach_safe:
  assumes "par_reach c d" and "all_safe R G Q c"
    and "\<And>i x. R i x x" and "\<And>i x y z. R i x y \<Longrightarrow> R i y z \<Longrightarrow> R i x z"
    and "\<And>i j x y. i \<noteq> j \<Longrightarrow> G i x y \<Longrightarrow> R j x y"
  shows "all_safe R G Q d"
  using assms(1,2)
proof (induction rule: par_reach.induct)
  case (par_trans c d i e)
  from par_trans.IH [OF par_trans.prems] par_trans.hyps(2) show ?case
    by (rule par_step_safe [THEN conjunct2]) (fact assms)+
qed

end
