(* ===== verification/Go_Base.thy ===== *)
theory Go_Base
  imports Effects
begin

text \<open>
  What the sources use of Go and its standard library: error values, the \<open>strings\<close>
  and \<open>strconv\<close> functions, slices cut to a capacity, and map iteration. Strings are
  byte lists; \<open>Fields\<close>, \<open>TrimSpace\<close> and \<open>ToLower\<close> are given for ASCII, which is
  what the program feeds them. Also the collections of facts the components share.
\<close>

named_theorems run_simps \<open>equations that run a program's calls\<close>
named_theorems go_string_simps \<open>evaluation of the string functions\<close>

section \<open>Errors\<close>

text \<open>
  The reasons the Kubernetes client distinguishes, and an error value: one of those, an
  AWS API error with its code, any other message, or \<open>fmt.Errorf\<close> wrapping with \<open>%w\<close>.
\<close>

datatype kube_reason = NotFound | AlreadyExists | Conflict | OtherReason string

datatype goerr = Kube kube_reason | Aws string | Msg string | Wrap string goerr

fun kube_reason_of :: "goerr \<Rightarrow> kube_reason option" where
  "kube_reason_of (Kube r) = Some r"
| "kube_reason_of (Wrap _ e) = kube_reason_of e"
| "kube_reason_of _ = None"

definition IsNotFound :: "goerr \<Rightarrow> bool" where
  "IsNotFound e \<longleftrightarrow> kube_reason_of e = Some NotFound"

definition IsAlreadyExists :: "goerr \<Rightarrow> bool" where
  "IsAlreadyExists e \<longleftrightarrow> kube_reason_of e = Some AlreadyExists"

definition IsConflict :: "goerr \<Rightarrow> bool" where
  "IsConflict e \<longleftrightarrow> kube_reason_of e = Some Conflict"

lemmas kube_reason_defs = IsNotFound_def IsAlreadyExists_def IsConflict_def

text \<open>\<open>fmt.Errorf\<close> with a string and a wrapped error.\<close>

definition Errorf :: "string \<Rightarrow> string \<Rightarrow> goerr \<Rightarrow> goerr" where
  "Errorf msg arg e = Wrap (msg @ arg) e"

text \<open>A call that returns only an error, and one that returns a value or an error.\<close>

type_synonym status = "goerr option"
type_synonym 'a result = "goerr + 'a"

fun is_ok :: "'a result \<Rightarrow> bool" where
  "is_ok (Inl _) = False"
| "is_ok (Inr _) = True"

section \<open>Strings\<close>

definition HasPrefix :: "string \<Rightarrow> string \<Rightarrow> bool" where
  "HasPrefix s p \<longleftrightarrow> take (length p) s = p"

definition TrimPrefix :: "string \<Rightarrow> string \<Rightarrow> string" where
  "TrimPrefix s p = (if HasPrefix s p then drop (length p) s else s)"

fun Contains :: "string \<Rightarrow> string \<Rightarrow> bool" where
  "Contains [] p \<longleftrightarrow> p = []"
| "Contains (c # s) p \<longleftrightarrow> HasPrefix (c # s) p \<or> Contains s p"

definition is_space :: "char \<Rightarrow> bool" where
  "is_space c \<longleftrightarrow> c = CHR '' '' \<or> (9 \<le> (of_char c :: nat) \<and> (of_char c :: nat) \<le> 13)"

definition TrimSpace :: "string \<Rightarrow> string" where
  "TrimSpace s = rev (dropWhile is_space (rev (dropWhile is_space s)))"

text \<open>\<open>strings.Fields\<close>: the maximal runs of non-space bytes.\<close>

fun fields_acc :: "string \<Rightarrow> string \<Rightarrow> string list" where
  "fields_acc acc [] = (if acc = [] then [] else [rev acc])"
| "fields_acc acc (c # s) =
     (if is_space c then (if acc = [] then fields_acc [] s else rev acc # fields_acc [] s)
      else fields_acc (c # acc) s)"

definition Fields :: "string \<Rightarrow> string list" where
  "Fields s = fields_acc [] s"

text \<open>\<open>strings.Split\<close> for a separator of one byte, as the program uses it.\<close>

fun split_acc :: "char \<Rightarrow> string \<Rightarrow> string \<Rightarrow> string list" where
  "split_acc sep acc [] = [rev acc]"
| "split_acc sep acc (c # s) =
     (if c = sep then rev acc # split_acc sep [] s else split_acc sep (c # acc) s)"

definition Split :: "string \<Rightarrow> char \<Rightarrow> string list" where
  "Split s sep = split_acc sep [] s"

fun Join :: "string list \<Rightarrow> string \<Rightarrow> string" where
  "Join [] sep = []"
| "Join [s] sep = s"
| "Join (s # t # ss) sep = s @ sep @ Join (t # ss) sep"

definition to_lower_char :: "char \<Rightarrow> char" where
  "to_lower_char c =
     (if 65 \<le> (of_char c :: nat) \<and> (of_char c :: nat) \<le> 90 then char_of (of_char c + 32 :: nat) else c)"

definition ToLower :: "string \<Rightarrow> string" where
  "ToLower s = map to_lower_char s"

lemma HasPrefix_append [simp]: "HasPrefix (p @ s) p"
  by (simp add: HasPrefix_def)

lemma HasPrefix_iff: "HasPrefix s p \<longleftrightarrow> (\<exists>t. s = p @ t)"
  by (auto simp: HasPrefix_def) (metis append_take_drop_id)

lemma TrimPrefix_append [simp]: "TrimPrefix (p @ s) p = s"
  by (simp add: TrimPrefix_def)

lemma Contains_iff: "Contains s p \<longleftrightarrow> (\<exists>a b. s = a @ p @ b)"
proof (induction s)
  case (Cons c s)
  have "(\<exists>a b. c # s = a @ p @ b) \<longleftrightarrow> HasPrefix (c # s) p \<or> (\<exists>a b. s = a @ p @ b)"
    (is "?L \<longleftrightarrow> ?R")
  proof
    assume ?L
    then obtain a b where "c # s = a @ p @ b" by blast
    then show ?R by (cases a) (auto simp: HasPrefix_iff)
  next
    assume ?R
    then show ?L
      by (auto simp: HasPrefix_iff) (metis append_Nil, metis append_Cons)
  qed
  then show ?case by (simp add: Cons.IH)
qed auto

section \<open>Decimal numbers\<close>

definition is_digit :: "char \<Rightarrow> bool" where
  "is_digit c \<longleftrightarrow> 48 \<le> (of_char c :: nat) \<and> (of_char c :: nat) \<le> 57"

definition digit_val :: "char \<Rightarrow> nat" where
  "digit_val c = of_char c - 48"

definition digit_char :: "nat \<Rightarrow> char" where
  "digit_char d = char_of (d + 48)"

fun dec_val :: "nat \<Rightarrow> string \<Rightarrow> nat" where
  "dec_val acc [] = acc"
| "dec_val acc (c # s) = dec_val (10 * acc + digit_val c) s"

text \<open>\<open>fmt.Sprintf("%d", n)\<close> for a natural number.\<close>

fun itoa :: "nat \<Rightarrow> string" where
  "itoa n = (if n < 10 then [digit_char n] else itoa (n div 10) @ [digit_char (n mod 10)])"

declare itoa.simps [simp del]

text \<open>\<open>strconv.ParseUint(s, 10, 64)\<close>: digits only, refused above the 64-bit range.\<close>

definition ParseUint64 :: "string \<Rightarrow> nat result" where
  "ParseUint64 s =
     (if s = [] \<or> \<not> list_all is_digit s then Inl (Msg ''invalid syntax'')
      else if dec_val 0 s < 2 ^ 64 then Inr (dec_val 0 s) else Inl (Msg ''value out of range''))"

text \<open>\<open>strconv.Atoi\<close>: an optional sign, then digits, within the 64-bit signed range.\<close>

definition signed_dec :: "bool \<Rightarrow> string \<Rightarrow> int result" where
  "signed_dec neg s =
     (if s = [] \<or> \<not> list_all is_digit s then Inl (Msg ''invalid syntax'')
      else let v = int (dec_val 0 s) in
        if neg then (if v \<le> 2 ^ 63 then Inr (- v) else Inl (Msg ''value out of range''))
        else (if v < 2 ^ 63 then Inr v else Inl (Msg ''value out of range'')))"

fun Atoi :: "string \<Rightarrow> int result" where
  "Atoi (c # s) =
     (if c = CHR ''-'' then signed_dec True s
      else if c = CHR ''+'' then signed_dec False s
      else signed_dec False (c # s))"
| "Atoi [] = Inl (Msg ''invalid syntax'')"

text \<open>\<open>fmt.Sprintf("%d", n)\<close> for a signed number.\<close>

definition Itoa :: "int \<Rightarrow> string" where
  "Itoa n = (if n < 0 then CHR ''-'' # itoa (nat (- n)) else itoa (nat n))"

lemma of_char_digit_char: "d < 10 \<Longrightarrow> (of_char (digit_char d) :: nat) = d + 48"
  by (simp add: digit_char_def)

lemma digit_val_char [simp]: "d < 10 \<Longrightarrow> digit_val (digit_char d) = d"
  by (simp add: digit_val_def of_char_digit_char)

lemma is_digit_char [simp]: "d < 10 \<Longrightarrow> is_digit (digit_char d)"
  by (simp add: is_digit_def of_char_digit_char)

lemma dec_val_append: "dec_val a (s @ t) = dec_val (dec_val a s) t"
  by (induction s arbitrary: a) auto

lemma itoa_nonempty [simp]: "itoa n \<noteq> []"
  by (subst itoa.simps) simp

lemma itoa_digits: "list_all is_digit (itoa n)"
proof (induction n rule: itoa.induct)
  case (1 n)
  then show ?case by (subst itoa.simps) auto
qed

lemma dec_val_itoa: "dec_val 0 (itoa n) = n"
proof (induction n rule: itoa.induct)
  case (1 n)
  then show ?case by (subst itoa.simps) (auto simp: dec_val_append)
qed

lemma ParseUint64_itoa: "n < 2 ^ 64 \<Longrightarrow> ParseUint64 (itoa n) = Inr n"
  by (simp add: ParseUint64_def itoa_digits dec_val_itoa)

lemma signed_dec_itoa_pos: "int n < 2 ^ 63 \<Longrightarrow> signed_dec False (itoa n) = Inr (int n)"
  by (simp add: signed_dec_def itoa_digits dec_val_itoa)

lemma signed_dec_itoa_neg: "int n \<le> 2 ^ 63 \<Longrightarrow> signed_dec True (itoa n) = Inr (- int n)"
  by (simp add: signed_dec_def itoa_digits dec_val_itoa)

lemma hd_itoa_digit: "itoa n = c # s \<Longrightarrow> is_digit c"
  using itoa_digits [of n] by simp

lemma Atoi_itoa:
  assumes "int n < 2 ^ 63"
  shows "Atoi (itoa n) = Inr (int n)"
proof (cases "itoa n")
  case (Cons c s)
  have "is_digit c" by (rule hd_itoa_digit [OF Cons])
  then have "c \<noteq> CHR ''-''" and "c \<noteq> CHR ''+''" by (auto simp: is_digit_def)
  with Cons show ?thesis using signed_dec_itoa_pos [OF assms] by simp
qed simp

lemma Atoi_Itoa: "- (2 ^ 63) \<le> n \<Longrightarrow> n < 2 ^ 63 \<Longrightarrow> Atoi (Itoa n) = Inr n"
  using Atoi_itoa [of "nat n"] signed_dec_itoa_neg [of "nat (- n)"] by (simp add: Itoa_def)

section \<open>Pods\<close>

text \<open>What several components read of a listed pod: its labels, IP and node.\<close>

record pod =
  pod_labels :: "string \<rightharpoonup> string"
  PodIP :: string
  pod_NodeName :: string

section \<open>Slices cut to their last entries\<close>

text \<open>\<open>xs = append(xs, x); if len(xs) > n \{ xs = xs[len(xs)-n:] \}\<close>.\<close>

definition push_capped :: "nat \<Rightarrow> 'a list \<Rightarrow> 'a \<Rightarrow> 'a list" where
  "push_capped n xs x =
     (let ys = xs @ [x] in if length ys > n then drop (length ys - n) ys else ys)"

lemma push_capped_drop: "push_capped n xs x = drop (length xs + 1 - n) (xs @ [x])"
  by (auto simp: push_capped_def Let_def)

lemma length_push_capped: "length (push_capped n xs x) = min n (length xs + 1)"
  by (auto simp: push_capped_drop)

lemma last_push_capped: "0 < n \<Longrightarrow> last (push_capped n xs x) = x"
  by (auto simp: push_capped_drop)

section \<open>Maps\<close>

text \<open>
  Go iterates over a map in an unspecified order, so a function that does takes the order
  as an argument: a list of the keys, each once.
\<close>

definition key_order :: "('k \<rightharpoonup> 'v) \<Rightarrow> 'k list \<Rightarrow> bool" where
  "key_order m ks \<longleftrightarrow> distinct ks \<and> set ks = dom m"

text \<open>\<open>m[k]\<close> for a map of strings: the zero value when the key is absent.\<close>

definition lookup_str :: "('k \<rightharpoonup> string) \<Rightarrow> 'k \<Rightarrow> string" where
  "lookup_str m k = (case m k of None \<Rightarrow> [] | Some v \<Rightarrow> v)"

lemma lookup_str_upd [simp]: "lookup_str (m(k \<mapsto> v)) j = (if j = k then v else lookup_str m j)"
  by (simp add: lookup_str_def)

lemma lookup_str_None [simp]: "m k = None \<Longrightarrow> lookup_str m k = []"
  by (simp add: lookup_str_def)

lemma lookup_str_Some [simp]: "m k = Some v \<Longrightarrow> lookup_str m k = v"
  by (simp add: lookup_str_def)

text \<open>A function that lists the elements of a finite set once each, in some order.\<close>

definition lists_keys :: "('k set \<Rightarrow> 'k list) \<Rightarrow> bool" where
  "lists_keys ko \<longleftrightarrow> (\<forall>S. finite S \<longrightarrow> set (ko S) = S \<and> distinct (ko S))"

lemma lists_keysD: "lists_keys ko \<Longrightarrow> finite S \<Longrightarrow> set (ko S) = S"
  by (simp add: lists_keys_def)

lemma sorted_list_lists_keys: "lists_keys sorted_list_of_set"
  by (simp add: lists_keys_def)

lemmas go_string_evals [go_string_simps] =
  HasPrefix_def TrimPrefix_def TrimSpace_def Fields_def Split_def ToLower_def
  is_space_def to_lower_char_def is_digit_def digit_val_def

end
