(* ===== verification/Lease.thy ===== *)
theory Lease
  imports Go_Base
begin

text \<open>
  \<open>internal/lease/lease.go\<close>: the per-AZ Lease that decides which agent serves an AZ. The
  Kubernetes API server is not part of the repository: its operations are the fields of
  \<open>'e lease_api\<close>, functions of an abstract outside world \<open>'e\<close>, and what the code relies
  on (compare-and-set on \<open>resourceVersion\<close>) is the predicate \<open>lease_api_ok\<close>. Times are
  nanoseconds since the epoch, as \<open>int\<close>.
\<close>

section \<open>Lease objects\<close>

record lease =
  lease_name :: string
  resourceVersion :: string
  labels :: "(string \<rightharpoonup> string) option"
  holderIdentity :: "string option"
  leaseDurationSeconds :: "int option"
  renewTime :: "int option"

definition homeAZLabel :: string where
  "homeAZLabel = ''kube-nat/home-az''"

record manager =
  namespace :: string
  leaseDuration :: int
  homeAZ :: string

record 'e lease_api =
  lease_get :: "string \<Rightarrow> string \<Rightarrow> 'e \<Rightarrow> lease result \<times> 'e"
  lease_create :: "string \<Rightarrow> lease \<Rightarrow> 'e \<Rightarrow> lease result \<times> 'e"
  lease_update :: "string \<Rightarrow> lease \<Rightarrow> 'e \<Rightarrow> lease result \<times> 'e"
  lease_delete :: "string \<Rightarrow> string \<Rightarrow> string \<Rightarrow> 'e \<Rightarrow> status \<times> 'e"
  lease_list :: "string \<Rightarrow> 'e \<Rightarrow> lease list result \<times> 'e"
  time_now :: "'e \<Rightarrow> int \<times> 'e"

definition leaseName :: "string \<Rightarrow> string" where
  "leaseName az = ''kube-nat-'' @ az"

definition azFromLeaseName :: "string \<Rightarrow> string" where
  "azFromLeaseName name =
     (let prefix = ''kube-nat-'' in
      if length name > length prefix then drop (length prefix) name else '''')"

text \<open>
  \<open>int32(m.leaseDuration.Seconds())\<close>: whole seconds, rounded towards zero. The detour over
  \<open>float64\<close> is exact for every duration below \<open>2^23\<close> seconds (97 days).
\<close>

definition durSecs :: "manager \<Rightarrow> int" where
  "durSecs m = sgn (leaseDuration m) * (\<bar>leaseDuration m\<bar> div 1000000000)"

definition setHomeAZ :: "lease \<Rightarrow> string \<Rightarrow> lease" where
  "setHomeAZ l az =
     (if az = '''' then l
      else let ls = (case labels l of None \<Rightarrow> Map.empty | Some m \<Rightarrow> m) in
        l\<lparr>labels := Some (ls(homeAZLabel \<mapsto> az))\<rparr>)"

definition holderHomeAZ :: "lease \<Rightarrow> string" where
  "holderHomeAZ l = (case labels l of None \<Rightarrow> '''' | Some m \<Rightarrow> lookup_str m homeAZLabel)"

definition IsExpired :: "lease \<Rightarrow> int \<Rightarrow> bool" where
  "IsExpired l now =
     (case (renewTime l, leaseDurationSeconds l) of
        (Some r, Some d) \<Rightarrow> r + d * 1000000000 < now
      | _ \<Rightarrow> True)"

section \<open>Operations of the manager\<close>

definition new_lease :: "manager \<Rightarrow> string \<Rightarrow> string \<Rightarrow> int \<Rightarrow> int \<Rightarrow> lease" where
  "new_lease m name holderID now secs =
     \<lparr>lease_name = name, resourceVersion = '''',
      labels = Some (if homeAZ m = '''' then [''app'' \<mapsto> ''kube-nat'']
                     else [''app'' \<mapsto> ''kube-nat'', homeAZLabel \<mapsto> homeAZ m]),
      holderIdentity = Some holderID, leaseDurationSeconds = Some secs, renewTime = Some now\<rparr>"

definition create ::
  "'e lease_api \<Rightarrow> manager \<Rightarrow> string \<Rightarrow> string \<Rightarrow> int \<Rightarrow> int \<Rightarrow> ('e, lease result) prog" where
  "create K m name holderID now secs =
     call (lease_create K (namespace m) (new_lease m name holderID now secs))"

definition create_result :: "lease result \<Rightarrow> bool \<times> status" where
  "create_result r =
     (case r of
        Inl e \<Rightarrow> if IsAlreadyExists e then (False, None) else (False, Some e)
      | Inr _ \<Rightarrow> (True, None))"

definition owned_lease :: "manager \<Rightarrow> lease \<Rightarrow> string \<Rightarrow> int \<Rightarrow> int \<Rightarrow> lease" where
  "owned_lease m l holderID now secs =
     setHomeAZ (l\<lparr>holderIdentity := Some holderID, renewTime := Some now,
                 leaseDurationSeconds := Some secs\<rparr>) (homeAZ m)"

definition lease_write ::
  "'e lease_api \<Rightarrow> manager \<Rightarrow> lease \<Rightarrow> string \<Rightarrow> int \<Rightarrow> int \<Rightarrow> ('e, bool \<times> status) prog" where
  "lease_write K m l holderID now secs =
     bind (call (lease_update K (namespace m) (owned_lease m l holderID now secs))) (\<lambda>r.
       case r of
         Inl e \<Rightarrow> Ret (if IsConflict e then (False, None) else (False, Some e))
       | Inr _ \<Rightarrow> Ret (True, None))"

definition refreshed_lease :: "manager \<Rightarrow> lease \<Rightarrow> int \<Rightarrow> int \<Rightarrow> lease" where
  "refreshed_lease m l now secs =
     setHomeAZ (l\<lparr>renewTime := Some now, leaseDurationSeconds := Some secs\<rparr>) (homeAZ m)"

text \<open>The retry loop of \<open>Renew\<close>; the first argument is the number of attempts left.\<close>

fun renew_loop ::
  "nat \<Rightarrow> 'e lease_api \<Rightarrow> manager \<Rightarrow> string \<Rightarrow> string \<Rightarrow> int \<Rightarrow> int \<Rightarrow> lease \<Rightarrow>
   ('e, bool \<times> status) prog" where
  "renew_loop 0 K m name holderID now secs existing = Ret (False, None)"
| "renew_loop (Suc n) K m name holderID now secs existing =
     bind (call (lease_update K (namespace m) (refreshed_lease m existing now secs))) (\<lambda>u.
       case u of
         Inr _ \<Rightarrow> Ret (True, None)
       | Inl uerr \<Rightarrow>
           if \<not> IsConflict uerr then Ret (False, Some uerr)
           else bind (call (lease_get K (namespace m) name)) (\<lambda>g.
             case g of
               Inl gerr \<Rightarrow>
                 if IsNotFound gerr then Ret (False, None)
                 else Ret (False, Some (Wrap (''get lease '' @ name) gerr))
             | Inr latest \<Rightarrow>
                 if holderIdentity latest \<noteq> Some holderID then Ret (False, None)
                 else renew_loop n K m name holderID now secs latest))"

definition Renew ::
  "'e lease_api \<Rightarrow> manager \<Rightarrow> string \<Rightarrow> string \<Rightarrow> ('e, bool \<times> status) prog" where
  "Renew K m az holderID =
     (let name = leaseName az in
      bind (call (time_now K)) (\<lambda>now.
      bind (call (lease_get K (namespace m) name)) (\<lambda>r.
        case r of
          Inl e \<Rightarrow>
            if IsNotFound e then
              bind (create K m name holderID now (durSecs m)) (\<lambda>c. Ret (create_result c))
            else Ret (False, Some (Wrap (''get lease '' @ name) e))
        | Inr existing \<Rightarrow>
            if holderIdentity existing \<noteq> Some holderID then Ret (False, None)
            else renew_loop 3 K m name holderID now (durSecs m) existing)))"

definition heldByForeignFailover :: "manager \<Rightarrow> string \<Rightarrow> lease \<Rightarrow> bool" where
  "heldByForeignFailover m az l \<longleftrightarrow>
     homeAZ m = az \<and> holderHomeAZ l \<noteq> '''' \<and> holderHomeAZ l \<noteq> az"

definition Acquire ::
  "'e lease_api \<Rightarrow> manager \<Rightarrow> string \<Rightarrow> string \<Rightarrow> ('e, bool \<times> status) prog" where
  "Acquire K m az holderID =
     (let name = leaseName az in
      bind (call (time_now K)) (\<lambda>now.
      bind (call (lease_get K (namespace m) name)) (\<lambda>r.
        case r of
          Inl e \<Rightarrow>
            if IsNotFound e then
              bind (create K m name holderID now (durSecs m)) (\<lambda>c. Ret (create_result c))
            else Ret (False, Some e)
        | Inr existing \<Rightarrow>
            if holderIdentity existing = Some holderID then
              lease_write K m existing holderID now (durSecs m)
            else bind (call (time_now K)) (\<lambda>now'.
              if \<not> IsExpired existing now' \<and> \<not> heldByForeignFailover m az existing
              then Ret (False, None)
              else lease_write K m existing holderID now (durSecs m)))))"

definition Release ::
  "'e lease_api \<Rightarrow> manager \<Rightarrow> string \<Rightarrow> string \<Rightarrow> ('e, status) prog" where
  "Release K m az holderID =
     (let name = leaseName az in
      bind (call (lease_get K (namespace m) name)) (\<lambda>r.
        case r of
          Inl e \<Rightarrow> Ret (if IsNotFound e then None else Some e)
        | Inr existing \<Rightarrow>
            if holderIdentity existing \<noteq> Some holderID then Ret None
            else bind (call (lease_delete K (namespace m) name (resourceVersion existing))) (\<lambda>d.
              case d of
                None \<Rightarrow> Ret None
              | Some e \<Rightarrow> Ret (if IsNotFound e \<or> IsConflict e then None else Some e))))"

fun expired_azs :: "lease list \<Rightarrow> string \<Rightarrow> int \<Rightarrow> string list" where
  "expired_azs [] ownAZ now = []"
| "expired_azs (l # ls) ownAZ now =
     (let az = azFromLeaseName (lease_name l) in
      if az = '''' \<or> az = ownAZ then expired_azs ls ownAZ now
      else if IsExpired l now then az # expired_azs ls ownAZ now
      else expired_azs ls ownAZ now)"

definition ListExpiredAZs ::
  "'e lease_api \<Rightarrow> manager \<Rightarrow> string \<Rightarrow> ('e, string list result) prog" where
  "ListExpiredAZs K m ownAZ =
     bind (call (lease_list K (namespace m))) (\<lambda>r.
       case r of
         Inl e \<Rightarrow> Ret (Inl e)
       | Inr items \<Rightarrow> bind (call (time_now K)) (\<lambda>now. Ret (Inr (expired_azs items ownAZ now))))"

section \<open>The store behind the API\<close>

text \<open>
  What an observer sees of the API server's Leases: the stored objects by namespace and
  name, every version ever committed, and the clock that the agents' clocks agree with.
\<close>

type_synonym lease_key = "string \<times> string"

record kstore =
  objs :: "lease_key \<rightharpoonup> lease"
  versions :: "(lease_key \<times> lease) set"
  clock :: int

text \<open>
  A \<open>resourceVersion\<close> names one version of an object, what is stored was committed, and
  every object carries the name it is stored under.
\<close>

definition kstore_wf :: "kstore \<Rightarrow> bool" where
  "kstore_wf S \<longleftrightarrow>
     (\<forall>k l. objs S k = Some l \<longrightarrow> (k, l) \<in> versions S) \<and>
     (\<forall>k l l'. (k, l) \<in> versions S \<longrightarrow> (k, l') \<in> versions S \<longrightarrow>
        resourceVersion l = resourceVersion l' \<longrightarrow> l = l') \<and>
     (\<forall>k l. (k, l) \<in> versions S \<longrightarrow> lease_name l = snd k)"

text \<open>\<open>metav1.MicroTime\<close> keeps microseconds; the server chooses the new \<open>resourceVersion\<close>.\<close>

definition micro :: "int \<Rightarrow> int" where
  "micro t = t - t mod 1000"

definition persisted :: "lease \<Rightarrow> lease \<Rightarrow> bool" where
  "persisted l l' \<longleftrightarrow>
     l' = l\<lparr>resourceVersion := resourceVersion l', renewTime := map_option micro (renewTime l)\<rparr>"

definition quiet :: "kstore \<Rightarrow> kstore \<Rightarrow> bool" where
  "quiet S S' \<longleftrightarrow> objs S' = objs S \<and> versions S' = versions S"

definition commits :: "kstore \<Rightarrow> lease_key \<Rightarrow> lease \<Rightarrow> kstore \<Rightarrow> bool" where
  "commits S k l S' \<longleftrightarrow>
     objs S' = (objs S)(k \<mapsto> l) \<and> versions S' = insert (k, l) (versions S) \<and>
     (\<forall>l'. (k, l') \<in> versions S \<longrightarrow> resourceVersion l' \<noteq> resourceVersion l)"

definition removes :: "kstore \<Rightarrow> lease_key \<Rightarrow> kstore \<Rightarrow> bool" where
  "removes S k S' \<longleftrightarrow> objs S' = (objs S)(k := None) \<and> versions S' = versions S"

definition other_error :: "goerr \<Rightarrow> bool" where
  "other_error e \<longleftrightarrow> \<not> IsNotFound e \<and> \<not> IsAlreadyExists e \<and> \<not> IsConflict e"

text \<open>
  The documented behaviour of the Lease endpoints, read through a view of the outside
  world. Each call is atomic and time may pass during it. Reads return what is stored.
  \<open>create\<close> needs the object to be absent, \<open>update\<close> and \<open>delete\<close> need the stored
  \<open>resourceVersion\<close> to be the given one. An error other than the three reasons (a
  timeout, say) leaves open whether the write was applied.
\<close>

definition reads :: "kstore \<Rightarrow> kstore \<Rightarrow> bool" where
  "reads S S' \<longleftrightarrow> clock S \<le> clock S' \<and> quiet S S'"

definition writes :: "'x option \<Rightarrow> goerr option \<Rightarrow> ('x \<Rightarrow> bool) \<Rightarrow> kstore \<Rightarrow> kstore \<Rightarrow> bool" where
  "writes ok err done S S' \<longleftrightarrow> clock S \<le> clock S' \<and>
     (\<forall>x. ok = Some x \<longrightarrow> done x) \<and>
     (\<forall>e. err = Some e \<longrightarrow> quiet S S' \<or> other_error e \<and> (\<exists>x. done x))"

definition created :: "kstore \<Rightarrow> lease_key \<Rightarrow> lease \<Rightarrow> kstore \<Rightarrow> lease \<Rightarrow> bool" where
  "created S k l S' l' \<longleftrightarrow> objs S k = None \<and> persisted l l' \<and> commits S k l' S'"

definition updated :: "kstore \<Rightarrow> lease_key \<Rightarrow> lease \<Rightarrow> kstore \<Rightarrow> lease \<Rightarrow> bool" where
  "updated S k l S' l' \<longleftrightarrow>
     (\<exists>old. objs S k = Some old \<and> resourceVersion old = resourceVersion l) \<and>
     persisted l l' \<and> commits S k l' S'"

definition deleted :: "kstore \<Rightarrow> lease_key \<Rightarrow> string \<Rightarrow> kstore \<Rightarrow> unit \<Rightarrow> bool" where
  "deleted S k rv S' u \<longleftrightarrow>
     (\<exists>old. objs S k = Some old \<and> resourceVersion old = rv) \<and> removes S k S'"

fun ok_of :: "'a result \<Rightarrow> 'a option" where
  "ok_of (Inr x) = Some x"
| "ok_of (Inl _) = None"

fun err_of :: "'a result \<Rightarrow> goerr option" where
  "err_of (Inl e) = Some e"
| "err_of (Inr _) = None"

definition get_ok :: "'e lease_api \<Rightarrow> ('e \<Rightarrow> kstore) \<Rightarrow> bool" where
  "get_ok K V \<longleftrightarrow> (\<forall>ns n e r e'. lease_get K ns n e = (r, e') \<longrightarrow> reads (V e) (V e') \<and>
     (\<forall>l. r = Inr l \<longrightarrow> objs (V e) (ns, n) = Some l) \<and>
     (\<forall>x. r = Inl x \<longrightarrow> IsNotFound x \<longrightarrow> objs (V e) (ns, n) = None))"

definition create_ok :: "'e lease_api \<Rightarrow> ('e \<Rightarrow> kstore) \<Rightarrow> bool" where
  "create_ok K V \<longleftrightarrow> (\<forall>ns l e r e'. lease_create K ns l e = (r, e') \<longrightarrow>
     writes (ok_of r) (err_of r) (created (V e) (ns, lease_name l) l (V e')) (V e) (V e'))"

definition update_ok :: "'e lease_api \<Rightarrow> ('e \<Rightarrow> kstore) \<Rightarrow> bool" where
  "update_ok K V \<longleftrightarrow> (\<forall>ns l e r e'. lease_update K ns l e = (r, e') \<longrightarrow>
     writes (ok_of r) (err_of r) (updated (V e) (ns, lease_name l) l (V e')) (V e) (V e'))"

definition delete_ok :: "'e lease_api \<Rightarrow> ('e \<Rightarrow> kstore) \<Rightarrow> bool" where
  "delete_ok K V \<longleftrightarrow> (\<forall>ns n rv e r e'. lease_delete K ns n rv e = (r, e') \<longrightarrow>
     writes (if r = None then Some () else None) r (deleted (V e) (ns, n) rv (V e')) (V e) (V e'))"

definition list_ok :: "'e lease_api \<Rightarrow> ('e \<Rightarrow> kstore) \<Rightarrow> bool" where
  "list_ok K V \<longleftrightarrow> (\<forall>ns e r e'. lease_list K ns e = (r, e') \<longrightarrow> reads (V e) (V e') \<and>
     (\<forall>ls l. r = Inr ls \<longrightarrow> l \<in> set ls \<longrightarrow> objs (V e) (ns, lease_name l) = Some l))"

definition now_ok :: "'e lease_api \<Rightarrow> ('e \<Rightarrow> kstore) \<Rightarrow> bool" where
  "now_ok K V \<longleftrightarrow> (\<forall>e t e'. time_now K e = (t, e') \<longrightarrow>
     reads (V e) (V e') \<and> clock (V e) \<le> t \<and> t \<le> clock (V e'))"

definition lease_api_ok :: "'e lease_api \<Rightarrow> ('e \<Rightarrow> kstore) \<Rightarrow> bool" where
  "lease_api_ok K V \<longleftrightarrow>
     get_ok K V \<and> create_ok K V \<and> update_ok K V \<and> delete_ok K V \<and> list_ok K V \<and> now_ok K V"

lemma lease_get_spec:
  "lease_api_ok K V \<Longrightarrow> lease_get K ns n e = (r, e') \<Longrightarrow> reads (V e) (V e') \<and>
   (\<forall>l. r = Inr l \<longrightarrow> objs (V e) (ns, n) = Some l) \<and>
   (\<forall>x. r = Inl x \<longrightarrow> IsNotFound x \<longrightarrow> objs (V e) (ns, n) = None)"
  unfolding lease_api_ok_def get_ok_def by simp

lemma lease_create_spec:
  "lease_api_ok K V \<Longrightarrow> lease_create K ns l e = (r, e') \<Longrightarrow>
   writes (ok_of r) (err_of r) (created (V e) (ns, lease_name l) l (V e')) (V e) (V e')"
  unfolding lease_api_ok_def create_ok_def by simp

lemma lease_update_spec:
  "lease_api_ok K V \<Longrightarrow> lease_update K ns l e = (r, e') \<Longrightarrow>
   writes (ok_of r) (err_of r) (updated (V e) (ns, lease_name l) l (V e')) (V e) (V e')"
  unfolding lease_api_ok_def update_ok_def by simp

lemma lease_delete_spec:
  "lease_api_ok K V \<Longrightarrow> lease_delete K ns n rv e = (r, e') \<Longrightarrow>
   writes (if r = None then Some () else None) r (deleted (V e) (ns, n) rv (V e')) (V e) (V e')"
  unfolding lease_api_ok_def delete_ok_def by simp

lemma lease_list_spec:
  "lease_api_ok K V \<Longrightarrow> lease_list K ns e = (r, e') \<Longrightarrow> reads (V e) (V e') \<and>
   (\<forall>ls l. r = Inr ls \<longrightarrow> l \<in> set ls \<longrightarrow> objs (V e) (ns, lease_name l) = Some l)"
  unfolding lease_api_ok_def list_ok_def by simp

lemma time_now_spec:
  "lease_api_ok K V \<Longrightarrow> time_now K e = (t, e') \<Longrightarrow>
   reads (V e) (V e') \<and> clock (V e) \<le> t \<and> t \<le> clock (V e')"
  unfolding lease_api_ok_def now_ok_def by simp

end
