(* ===== verification/Lease_Safety.thy ===== *)
theory Lease_Safety
  imports Lease
begin

text \<open>
  What one agent's Lease calls may do to the store, whatever the other clients do between
  them. The rely \<open>evolves\<close> allows any history that keeps committed versions and moves the
  clock forward. The guarantee \<open>lease_change\<close> is the ownership policy: an agent creates an
  absent Lease, refreshes its own, takes over an expired one or one held by a failover agent
  while it runs in the Lease's AZ, and deletes only its own.
\<close>

section \<open>Rely and guarantee\<close>

definition evolves :: "kstore \<Rightarrow> kstore \<Rightarrow> bool" where
  "evolves S S' \<longleftrightarrow>
     versions S \<subseteq> versions S' \<and> clock S \<le> clock S' \<and> (kstore_wf S \<longrightarrow> kstore_wf S')"

definition owner_policy :: "string \<Rightarrow> string \<Rightarrow> lease \<Rightarrow> int \<Rightarrow> bool" where
  "owner_policy h az l t \<longleftrightarrow> holderIdentity l = Some h"

definition takeover_policy :: "string \<Rightarrow> string \<Rightarrow> string \<Rightarrow> lease \<Rightarrow> int \<Rightarrow> bool" where
  "takeover_policy h z az l t \<longleftrightarrow>
     holderIdentity l = Some h \<or> IsExpired l t \<or>
     z = az \<and> holderHomeAZ l \<noteq> [] \<and> holderHomeAZ l \<noteq> az"

fun change_ok ::
  "(lease \<Rightarrow> bool) \<Rightarrow> string \<Rightarrow> string \<Rightarrow> lease option \<Rightarrow> lease option \<Rightarrow> bool" where
  "change_ok may h z None None \<longleftrightarrow> True"
| "change_ok may h z None (Some l') \<longleftrightarrow>
     holderIdentity l' = Some h \<and> (z \<noteq> [] \<longrightarrow> holderHomeAZ l' = z)"
| "change_ok may h z (Some l) None \<longleftrightarrow> holderIdentity l = Some h"
| "change_ok may h z (Some l) (Some l') \<longleftrightarrow>
     holderIdentity l' = Some h \<and> (z \<noteq> [] \<longrightarrow> holderHomeAZ l' = z) \<and> may l"

text \<open>
  The agent \<open>h\<close> of the AZ \<open>z\<close>, at work in the namespace \<open>ns\<close>; \<open>pol az l t\<close> says
  when it may overwrite the version \<open>l\<close> of the Lease of \<open>az\<close> at time \<open>t\<close>.
\<close>

type_synonym policy = "string \<Rightarrow> lease \<Rightarrow> int \<Rightarrow> bool"

definition lease_change :: "policy \<Rightarrow> string \<Rightarrow> string \<Rightarrow> string \<Rightarrow> kstore \<Rightarrow> kstore \<Rightarrow> bool" where
  "lease_change pol h z ns S S' \<longleftrightarrow>
     objs S' = objs S \<or>
     (\<exists>az. (\<forall>k. k \<noteq> (ns, leaseName az) \<longrightarrow> objs S' k = objs S k) \<and>
        change_ok (\<lambda>l. pol az l (clock S)) h z
          (objs S (ns, leaseName az)) (objs S' (ns, leaseName az)))"

definition lease_rely :: "('e \<Rightarrow> kstore) \<Rightarrow> 'e \<Rightarrow> 'e \<Rightarrow> bool" where
  "lease_rely V e e' \<longleftrightarrow> evolves (V e) (V e')"

definition lease_guar ::
  "('e \<Rightarrow> kstore) \<Rightarrow> policy \<Rightarrow> string \<Rightarrow> string \<Rightarrow> string \<Rightarrow> 'e \<Rightarrow> 'e \<Rightarrow> bool" where
  "lease_guar V pol h z ns e e' \<longleftrightarrow>
     evolves (V e) (V e') \<and> (kstore_wf (V e) \<longrightarrow> lease_change pol h z ns (V e) (V e'))"

lemma evolves_refl [simp]: "evolves S S"
  by (simp add: evolves_def)

lemma evolves_trans: "evolves S T \<Longrightarrow> evolves T U \<Longrightarrow> evolves S U"
  by (auto simp: evolves_def)

lemma lease_rely_refl [simp]: "lease_rely V e e"
  by (simp add: lease_rely_def)

lemma lease_rely_trans: "lease_rely V x y \<Longrightarrow> lease_rely V y z \<Longrightarrow> lease_rely V x z"
  by (auto simp: lease_rely_def intro: evolves_trans)

lemma guar_imp_rely: "lease_guar V pol h z ns e e' \<Longrightarrow> lease_rely V e e'"
  by (simp add: lease_guar_def lease_rely_def)

section \<open>What each kind of call does to the store\<close>

lemma reads_evolves: "reads S S' \<Longrightarrow> evolves S S'"
  by (auto simp: reads_def quiet_def evolves_def kstore_wf_def)

lemma removes_wf: "removes S k S' \<Longrightarrow> kstore_wf S \<Longrightarrow> kstore_wf S'"
  by (auto simp: removes_def kstore_wf_def split: if_splits)

lemma commits_wf:
  assumes "commits S k l S'" and "lease_name l = snd k" and "kstore_wf S"
  shows "kstore_wf S'"
  using assms unfolding commits_def kstore_wf_def by (auto split: if_splits)

lemma persistedE:
  assumes "persisted l l'"
  obtains rv where "l' = l\<lparr>resourceVersion := rv, renewTime := map_option micro (renewTime l)\<rparr>"
  using assms unfolding persisted_def by blast

lemma persisted_fields:
  assumes "persisted l l'"
  shows "lease_name l' = lease_name l \<and> labels l' = labels l \<and>
    holderIdentity l' = holderIdentity l \<and> leaseDurationSeconds l' = leaseDurationSeconds l \<and>
    renewTime l' = map_option micro (renewTime l) \<and> holderHomeAZ l' = holderHomeAZ l"
  using assms by (auto elim!: persistedE simp: holderHomeAZ_def)

lemma commits_evolves:
  assumes "persisted l l'" and "commits S (ns, lease_name l) l' S'" and "clock S \<le> clock S'"
  shows "evolves S S'"
  using assms(3) commits_wf [OF assms(2)] persisted_fields [OF assms(1)] assms(2)
  by (auto simp: evolves_def commits_def)

lemma removes_evolves: "removes S k S' \<Longrightarrow> clock S \<le> clock S' \<Longrightarrow> evolves S S'"
  using removes_wf by (auto simp: evolves_def removes_def)

lemma version_of_rv:
  "kstore_wf S \<Longrightarrow> (k, l) \<in> versions S \<Longrightarrow> objs S k = Some old \<Longrightarrow>
   resourceVersion old = resourceVersion l \<Longrightarrow> old = l"
  unfolding kstore_wf_def by blast

text \<open>A write either was applied or left the store alone.\<close>

lemma writes_cases:
  assumes "writes ok err done S S'" and "ok \<noteq> None \<or> err \<noteq> None"
  obtains (untouched) "reads S S'" "ok = None"
    | (applied) x where "done x" "clock S \<le> clock S'"
  using assms unfolding writes_def reads_def by (cases ok; cases err) auto

lemma result_known: "ok_of r \<noteq> None \<or> err_of r \<noteq> None"
  by (cases r) auto

section \<open>Labels and times\<close>

lemma holderHomeAZ_setHomeAZ: "az \<noteq> '''' \<Longrightarrow> holderHomeAZ (setHomeAZ l az) = az"
  by (auto simp: setHomeAZ_def holderHomeAZ_def Let_def)

lemma setHomeAZ_fields [simp]:
  "lease_name (setHomeAZ l az) = lease_name l"
  "resourceVersion (setHomeAZ l az) = resourceVersion l"
  "holderIdentity (setHomeAZ l az) = holderIdentity l"
  "leaseDurationSeconds (setHomeAZ l az) = leaseDurationSeconds l"
  "renewTime (setHomeAZ l az) = renewTime l"
  by (simp_all add: setHomeAZ_def Let_def)

lemma owned_lease_fields [simp]:
  "lease_name (owned_lease m l h now secs) = lease_name l"
  "resourceVersion (owned_lease m l h now secs) = resourceVersion l"
  "holderIdentity (owned_lease m l h now secs) = Some h"
  "leaseDurationSeconds (owned_lease m l h now secs) = Some secs"
  "renewTime (owned_lease m l h now secs) = Some now"
  by (simp_all add: owned_lease_def)

lemma refreshed_lease_fields [simp]:
  "lease_name (refreshed_lease m l now secs) = lease_name l"
  "resourceVersion (refreshed_lease m l now secs) = resourceVersion l"
  "holderIdentity (refreshed_lease m l now secs) = holderIdentity l"
  "leaseDurationSeconds (refreshed_lease m l now secs) = Some secs"
  "renewTime (refreshed_lease m l now secs) = Some now"
  by (simp_all add: refreshed_lease_def)

lemma new_lease_fields [simp]:
  "lease_name (new_lease m n h now secs) = n"
  "holderIdentity (new_lease m n h now secs) = Some h"
  "leaseDurationSeconds (new_lease m n h now secs) = Some secs"
  "renewTime (new_lease m n h now secs) = Some now"
  by (simp_all add: new_lease_def)

lemma home_labels:
  "homeAZ m \<noteq> '''' \<Longrightarrow> holderHomeAZ (owned_lease m l h now secs) = homeAZ m"
  "homeAZ m \<noteq> '''' \<Longrightarrow> holderHomeAZ (refreshed_lease m l now secs) = homeAZ m"
  "homeAZ m \<noteq> '''' \<Longrightarrow> holderHomeAZ (new_lease m n h now secs) = homeAZ m"
  by (simp_all add: owned_lease_def refreshed_lease_def holderHomeAZ_setHomeAZ)
    (simp add: new_lease_def holderHomeAZ_def lookup_str_def homeAZLabel_def)

lemma IsExpired_mono: "IsExpired l t \<Longrightarrow> t \<le> t' \<Longrightarrow> IsExpired l t'"
  by (auto simp: IsExpired_def split: option.splits)

section \<open>Each call keeps the policy\<close>

text \<open>
  The version the agent has read, and the reason it may overwrite it from now on; both
  survive whatever the others do.
\<close>

definition read_version :: "('e \<Rightarrow> kstore) \<Rightarrow> lease_key \<Rightarrow> lease \<Rightarrow> 'e \<Rightarrow> bool" where
  "read_version V k l e \<longleftrightarrow> kstore_wf (V e) \<and> (k, l) \<in> versions (V e)"

lemma read_version_stable: "read_version V k l e \<Longrightarrow> lease_rely V e e' \<Longrightarrow> read_version V k l e'"
  by (auto simp: read_version_def lease_rely_def evolves_def)

definition policy_ok :: "policy \<Rightarrow> string \<Rightarrow> bool" where
  "policy_ok pol h \<longleftrightarrow>
     (\<forall>az l t t'. pol az l t \<longrightarrow> t \<le> t' \<longrightarrow> pol az l t') \<and>
     (\<forall>az l t. holderIdentity l = Some h \<longrightarrow> pol az l t)"

lemma policy_mono: "policy_ok pol h \<Longrightarrow> pol az l t \<Longrightarrow> t \<le> t' \<Longrightarrow> pol az l t'"
  by (simp add: policy_ok_def)

lemma policy_owner: "policy_ok pol h \<Longrightarrow> holderIdentity l = Some h \<Longrightarrow> pol az l t"
  by (simp add: policy_ok_def)

lemma owner_policy_ok: "policy_ok (owner_policy h) h"
  by (simp add: policy_ok_def owner_policy_def)

lemma takeover_policy_ok: "policy_ok (takeover_policy h z) h"
  by (auto simp: policy_ok_def takeover_policy_def intro: IsExpired_mono)

text \<open>The agent was the committed holder at some moment up to now.\<close>

definition has_held :: "('e \<Rightarrow> kstore) \<Rightarrow> lease_key \<Rightarrow> string \<Rightarrow> 'e \<Rightarrow> bool" where
  "has_held V k h e \<longleftrightarrow> (\<exists>l. (k, l) \<in> versions (V e) \<and> holderIdentity l = Some h)"

lemma has_held_stable: "has_held V k h e \<Longrightarrow> lease_rely V e e' \<Longrightarrow> has_held V k h e'"
  by (auto simp: has_held_def lease_rely_def evolves_def)

definition outcome :: "('e \<Rightarrow> kstore) \<Rightarrow> lease_key \<Rightarrow> string \<Rightarrow> bool \<times> status \<Rightarrow> 'e \<Rightarrow> bool" where
  "outcome V k h r e \<longleftrightarrow> (fst r \<longrightarrow> snd r = None \<and> has_held V k h e)"

lemma outcome_False [simp]: "outcome V k h (False, s) e"
  by (simp add: outcome_def)

lemma reads_guar: "reads (V e) (V e') \<Longrightarrow> lease_guar V pol h z ns e e'"
  using reads_evolves by (simp add: lease_guar_def lease_change_def reads_def quiet_def)

lemma update_guar:
  assumes "lease_api_ok K V" and "lease_update K ns l e = (r, e')"
    and "read_version V (ns, leaseName az) l0 e" and "resourceVersion l = resourceVersion l0"
    and "lease_name l = leaseName az" and "holderIdentity l = Some h"
    and "z \<noteq> '''' \<Longrightarrow> holderHomeAZ l = z" and "pol az l0 (clock (V e))"
  shows "lease_guar V pol h z ns e e' \<and> (is_ok r \<longrightarrow> has_held V (ns, leaseName az) h e')"
proof -
  let ?k = "(ns, leaseName az)"
  have w: "writes (ok_of r) (err_of r) (updated (V e) ?k l (V e')) (V e) (V e')"
    using lease_update_spec [OF assms(1,2)] assms(5) by simp
  from w result_known [of r] show ?thesis
  proof (cases rule: writes_cases)
    case untouched
    then show ?thesis using reads_guar by (cases r) auto
  next
    case (applied l')
    then obtain old where old: "objs (V e) ?k = Some old" "resourceVersion old = resourceVersion l"
      and p: "persisted l l'" and c: "commits (V e) ?k l' (V e')"
      by (auto simp: updated_def)
    have "old = l0"
      using version_of_rv [of "V e" ?k l0 old] assms(3,4) old by (simp add: read_version_def)
    then have "change_ok (\<lambda>l. pol az l (clock (V e))) h z (objs (V e) ?k) (objs (V e') ?k)"
      using old c persisted_fields [OF p] assms(6-8) by (simp add: commits_def)
    then have "lease_change pol h z ns (V e) (V e')"
      using c by (auto simp: lease_change_def commits_def intro!: exI [of _ az])
    moreover have "evolves (V e) (V e')"
      using commits_evolves [OF p] c applied(2) assms(5) by simp
    moreover have "has_held V ?k h e'"
      using c persisted_fields [OF p] assms(6) by (auto simp: has_held_def commits_def)
    ultimately show ?thesis by (simp add: lease_guar_def)
  qed
qed

lemma create_guar:
  assumes "lease_api_ok K V" and "lease_create K ns l e = (r, e')"
    and "lease_name l = leaseName az" and "holderIdentity l = Some h"
    and "z \<noteq> '''' \<Longrightarrow> holderHomeAZ l = z"
  shows "lease_guar V pol h z ns e e' \<and> (is_ok r \<longrightarrow> has_held V (ns, leaseName az) h e')"
proof -
  let ?k = "(ns, leaseName az)"
  have w: "writes (ok_of r) (err_of r) (created (V e) ?k l (V e')) (V e) (V e')"
    using lease_create_spec [OF assms(1,2)] assms(3) by simp
  from w result_known [of r] show ?thesis
  proof (cases rule: writes_cases)
    case untouched
    then show ?thesis using reads_guar by (cases r) auto
  next
    case (applied l')
    then have p: "persisted l l'" and c: "commits (V e) ?k l' (V e')" and n: "objs (V e) ?k = None"
      by (auto simp: created_def)
    have "change_ok (\<lambda>l. pol az l (clock (V e))) h z (objs (V e) ?k) (objs (V e') ?k)"
      using n c persisted_fields [OF p] assms(4,5) by (simp add: commits_def)
    then have "lease_change pol h z ns (V e) (V e')"
      using c by (auto simp: lease_change_def commits_def intro!: exI [of _ az])
    moreover have "evolves (V e) (V e')"
      using commits_evolves [OF p] c applied(2) assms(3) by simp
    moreover have "has_held V ?k h e'"
      using c persisted_fields [OF p] assms(4) by (auto simp: has_held_def commits_def)
    ultimately show ?thesis by (simp add: lease_guar_def)
  qed
qed

lemma delete_guar:
  assumes "lease_api_ok K V" and "lease_delete K ns (leaseName az) (resourceVersion l0) e = (r, e')"
    and "read_version V (ns, leaseName az) l0 e" and "holderIdentity l0 = Some h"
  shows "lease_guar V pol h z ns e e'"
proof -
  let ?k = "(ns, leaseName az)"
  have w: "writes (if r = None then Some () else None) r
      (deleted (V e) ?k (resourceVersion l0) (V e')) (V e) (V e')"
    by (rule lease_delete_spec [OF assms(1,2)])
  have "(if r = None then Some () else None) \<noteq> None \<or> r \<noteq> None" by simp
  with w show ?thesis
  proof (cases rule: writes_cases)
    case untouched
    then show ?thesis by (intro reads_guar) simp
  next
    case (applied u)
    then obtain old where old: "objs (V e) ?k = Some old" "resourceVersion old = resourceVersion l0"
      and c: "removes (V e) ?k (V e')"
      by (auto simp: deleted_def)
    have "old = l0"
      using version_of_rv [of "V e" ?k l0 old] assms(3) old by (simp add: read_version_def)
    then have "lease_change pol h z ns (V e) (V e')"
      using c old assms(4) by (auto simp: lease_change_def removes_def intro!: exI [of _ az])
    then show ?thesis
      using removes_evolves [OF c applied(2)] by (simp add: lease_guar_def)
  qed
qed

section \<open>Each operation keeps the policy\<close>

lemma rely_wf: "lease_rely V e e' \<Longrightarrow> kstore_wf (V e) \<Longrightarrow> kstore_wf (V e')"
  by (simp add: lease_rely_def evolves_def)

lemma rely_clock: "lease_rely V e e' \<Longrightarrow> clock (V e) \<le> clock (V e')"
  by (simp add: lease_rely_def evolves_def)

lemma reads_wf: "reads S S' \<Longrightarrow> kstore_wf S \<Longrightarrow> kstore_wf S'"
  using reads_evolves by (simp add: evolves_def)

lemma safe_get:
  assumes K: "lease_api_ok K V" and wf: "kstore_wf (V e)"
    and k: "\<And>r e'. kstore_wf (V e') \<Longrightarrow> (\<And>l. r = Inr l \<Longrightarrow> read_version V (ns, n) l e') \<Longrightarrow>
      safe (lease_rely V) (lease_guar V pol h z ns') Q (k r) e'"
  shows "safe (lease_rely V) (lease_guar V pol h z ns') Q (bind (call (lease_get K ns n)) k) e"
proof (rule safe_call_bind, rule conjI)
  fix e1 r e2
  assume e1: "lease_rely V e e1" and c: "lease_get K ns n e1 = (r, e2)"
  have wf1: "kstore_wf (V e1)" by (rule rely_wf [OF e1 wf])
  note spec = lease_get_spec [OF K c]
  show "lease_guar V pol h z ns' e1 e2" by (rule reads_guar) (simp add: spec)
  have wf2: "kstore_wf (V e2)" by (rule reads_wf [OF _ wf1]) (simp add: spec)
  show "safe (lease_rely V) (lease_guar V pol h z ns') Q (k r) e2"
  proof (rule k [OF wf2])
    fix l assume "r = Inr l"
    then have "objs (V e1) (ns, n) = Some l" using spec by simp
    then show "read_version V (ns, n) l e2"
      using spec wf1 wf2 by (auto simp: read_version_def reads_def quiet_def kstore_wf_def)
  qed
qed

lemma safe_now:
  assumes K: "lease_api_ok K V" and wf: "kstore_wf (V e)"
    and k: "\<And>t e'. kstore_wf (V e') \<Longrightarrow> t \<le> clock (V e') \<Longrightarrow> lease_rely V e e' \<Longrightarrow>
      safe (lease_rely V) (lease_guar V pol h z ns') Q (k t) e'"
  shows "safe (lease_rely V) (lease_guar V pol h z ns') Q (bind (call (time_now K)) k) e"
proof (rule safe_call_bind, rule conjI)
  fix e1 t e2
  assume e1: "lease_rely V e e1" and c: "time_now K e1 = (t, e2)"
  note spec = time_now_spec [OF K c]
  show "lease_guar V pol h z ns' e1 e2" by (rule reads_guar) (simp add: spec)
  have r: "lease_rely V e1 e2"
    unfolding lease_rely_def by (rule reads_evolves) (simp add: spec)
  show "safe (lease_rely V) (lease_guar V pol h z ns') Q (k t) e2"
    by (rule k [OF rely_wf [OF r rely_wf [OF e1 wf]] _ lease_rely_trans [OF e1 r]]) (simp add: spec)
qed

lemma safe_outcome:
  assumes "fst r \<Longrightarrow> snd r = None \<and> has_held V k h e"
  shows "safe (lease_rely V) G (outcome V k h) (Ret r) e"
proof (rule safe_Ret)
  fix e' assume e': "lease_rely V e e'"
  show "outcome V k h r e'"
    unfolding outcome_def using assms has_held_stable [OF _ e'] by blast
qed

lemma safe_create:
  assumes K: "lease_api_ok K V"
  shows "safe (lease_rely V) (lease_guar V pol h (homeAZ m) (namespace m)) (outcome V (namespace m, leaseName az) h)
    (bind (create K m (leaseName az) h now secs) (\<lambda>c. Ret (create_result c))) e"
  unfolding create_def
proof (rule safe_call_bind)
  fix e1 r e2
  assume "lease_create K (namespace m) (new_lease m (leaseName az) h now secs) e1 = (r, e2)"
  from create_guar [OF K this, of az h "homeAZ m"]
  have g: "lease_guar V pol h (homeAZ m) (namespace m) e1 e2 \<and>
      (is_ok r \<longrightarrow> has_held V (namespace m, leaseName az) h e2)"
    by (simp add: home_labels)
  have "fst (create_result r) \<Longrightarrow> is_ok r \<and> snd (create_result r) = None"
    by (cases r) (auto simp: create_result_def split: if_splits)
  then have "safe (lease_rely V) (lease_guar V pol h (homeAZ m) (namespace m))
      (outcome V (namespace m, leaseName az) h) (Ret (create_result r)) e2"
    using g by (intro safe_outcome) blast
  with g show "lease_guar V pol h (homeAZ m) (namespace m) e1 e2 \<and>
      safe (lease_rely V) (lease_guar V pol h (homeAZ m) (namespace m))
        (outcome V (namespace m, leaseName az) h) (Ret (create_result r)) e2"
    by simp
qed

text \<open>
  One compare-and-set with what follows it: the object sent carries the version read, and
  the version read may be overwritten.
\<close>

lemma safe_update:
  assumes K: "lease_api_ok K V" and P: "policy_ok pol h" and rv: "read_version V (ns, leaseName az) l0 e"
    and t: "t \<le> clock (V e)" and take: "pol az l0 t"
    and l: "resourceVersion l = resourceVersion l0" "lease_name l = lease_name l0"
      "holderIdentity l = Some h" "z \<noteq> '''' \<Longrightarrow> holderHomeAZ l = z"
    and k: "\<And>r e'. kstore_wf (V e') \<Longrightarrow> (is_ok r \<Longrightarrow> has_held V (ns, leaseName az) h e') \<Longrightarrow>
      safe (lease_rely V) (lease_guar V pol h z ns) Q (k r) e'"
  shows "safe (lease_rely V) (lease_guar V pol h z ns) Q (bind (call (lease_update K ns l)) k) e"
proof (rule safe_call_bind)
  fix e1 r e2
  assume e1: "lease_rely V e e1" and c: "lease_update K ns l e1 = (r, e2)"
  have rv1: "read_version V (ns, leaseName az) l0 e1"
    by (rule read_version_stable [OF rv e1])
  then have wf1: "kstore_wf (V e1)" and name: "lease_name l = leaseName az"
    using l(2) by (auto simp: read_version_def kstore_wf_def)
  have take1: "pol az l0 (clock (V e1))"
    by (rule policy_mono [OF P take]) (use t rely_clock [OF e1] in simp)
  have g: "lease_guar V pol h z ns e1 e2 \<and> (is_ok r \<longrightarrow> has_held V (ns, leaseName az) h e2)"
    by (rule update_guar [OF K c rv1 l(1) name l(3), where pol = pol]) (erule l(4), rule take1)
  have "lease_rely V e1 e2" using g guar_imp_rely [of V pol h z ns e1 e2] by simp
  then have "kstore_wf (V e2)" using wf1 by (rule rely_wf)
  from g k [OF this, of r] show "lease_guar V pol h z ns e1 e2 \<and>
      safe (lease_rely V) (lease_guar V pol h z ns) Q (k r) e2" by simp
qed

lemma safe_lease_write:
  assumes "lease_api_ok K V" and "policy_ok pol h" and "read_version V (namespace m, leaseName az) l0 e"
    and "t \<le> clock (V e)" and "pol az l0 t"
  shows "safe (lease_rely V) (lease_guar V pol h (homeAZ m) (namespace m))
    (outcome V (namespace m, leaseName az) h) (lease_write K m l0 h now secs) e"
  unfolding lease_write_def
proof (rule safe_update [OF assms])
  fix r e' assume "is_ok r \<Longrightarrow> has_held V (namespace m, leaseName az) h e'"
  then show "safe (lease_rely V) (lease_guar V pol h (homeAZ m) (namespace m))
      (outcome V (namespace m, leaseName az) h)
      (case r of Inl e \<Rightarrow> Ret (if IsConflict e then (False, None) else (False, Some e))
       | Inr _ \<Rightarrow> Ret (True, None)) e'"
    by (cases r) (auto intro!: safe_outcome)
qed (simp_all add: home_labels)

lemma safe_renew_loop:
  assumes K: "lease_api_ok K V" and P: "policy_ok pol h"
    and "read_version V (namespace m, leaseName az) l0 e" and "holderIdentity l0 = Some h"
  shows "safe (lease_rely V) (lease_guar V pol h (homeAZ m) (namespace m))
    (outcome V (namespace m, leaseName az) h) (renew_loop n K m (leaseName az) h now secs l0) e"
  using assms(3,4)
proof (induction n arbitrary: l0 e)
  case 0
  then show ?case by (auto intro!: safe_outcome)
next
  case (Suc n)
  let ?S = "safe (lease_rely V) (lease_guar V pol h (homeAZ m) (namespace m))
    (outcome V (namespace m, leaseName az) h)"
  have retry: "?S (bind (call (lease_get K (namespace m) (leaseName az))) (\<lambda>g. case g of
        Inl gerr \<Rightarrow> if IsNotFound gerr then Ret (False, None)
          else Ret (False, Some (Wrap (''get lease '' @ leaseName az) gerr))
      | Inr latest \<Rightarrow> if holderIdentity latest \<noteq> Some h then Ret (False, None)
          else renew_loop n K m (leaseName az) h now secs latest)) e'"
    if "kstore_wf (V e')" for e'
  proof (rule safe_get [OF K that])
    fix g :: "goerr + lease" and e'' assume rv: "\<And>l. g = Inr l \<Longrightarrow> read_version V (namespace m, leaseName az) l e''"
    show "?S (case g of
        Inl gerr \<Rightarrow> if IsNotFound gerr then Ret (False, None)
          else Ret (False, Some (Wrap (''get lease '' @ leaseName az) gerr))
      | Inr latest \<Rightarrow> if holderIdentity latest \<noteq> Some h then Ret (False, None)
          else renew_loop n K m (leaseName az) h now secs latest) e''"
      using rv by (cases g) (auto intro!: safe_outcome Suc.IH)
  qed
  show ?case
    unfolding renew_loop.simps
  proof (rule safe_update [OF K P Suc.prems(1) order_refl])
    show "pol az l0 (clock (V e))"
      by (rule policy_owner [OF P Suc.prems(2)])
    fix r e'
    assume "kstore_wf (V e')" "is_ok r \<Longrightarrow> has_held V (namespace m, leaseName az) h e'"
    then show "?S (case r of Inl uerr \<Rightarrow> if \<not> IsConflict uerr then Ret (False, Some uerr)
           else bind (call (lease_get K (namespace m) (leaseName az))) (\<lambda>g. case g of
             Inl gerr \<Rightarrow> if IsNotFound gerr then Ret (False, None)
               else Ret (False, Some (Wrap (''get lease '' @ leaseName az) gerr))
           | Inr latest \<Rightarrow> if holderIdentity latest \<noteq> Some h then Ret (False, None)
               else renew_loop n K m (leaseName az) h now secs latest)
       | Inr _ \<Rightarrow> Ret (True, None)) e'"
      using retry by (cases r) (auto intro!: safe_outcome)
  qed (simp_all add: home_labels Suc.prems)
qed

theorem safe_Renew:
  assumes K: "lease_api_ok K V" and P: "policy_ok pol h" and wf: "kstore_wf (V e)"
  shows "safe (lease_rely V) (lease_guar V pol h (homeAZ m) (namespace m))
    (outcome V (namespace m, leaseName az) h) (Renew K m az h) e"
  unfolding Renew_def Let_def
proof (rule safe_now [OF K wf], rule safe_get [OF K], assumption)
  fix now and r :: "goerr + lease" and e'
  assume "\<And>l. r = Inr l \<Longrightarrow> read_version V (namespace m, leaseName az) l e'"
  then show "safe (lease_rely V) (lease_guar V pol h (homeAZ m) (namespace m))
    (outcome V (namespace m, leaseName az) h)
    (case r of Inl e \<Rightarrow> if IsNotFound e then
        bind (create K m (leaseName az) h now (durSecs m)) (\<lambda>c. Ret (create_result c))
        else Ret (False, Some (Wrap (''get lease '' @ leaseName az) e))
     | Inr existing \<Rightarrow> if holderIdentity existing \<noteq> Some h then Ret (False, None)
        else renew_loop 3 K m (leaseName az) h now (durSecs m) existing) e'"
    by (cases r) (auto intro!: safe_outcome safe_create [OF K] safe_renew_loop [OF K P])
qed

theorem safe_Acquire:
  assumes K: "lease_api_ok K V" and wf: "kstore_wf (V e)"
  shows "safe (lease_rely V) (lease_guar V (takeover_policy h (homeAZ m)) h (homeAZ m) (namespace m))
    (outcome V (namespace m, leaseName az) h) (Acquire K m az h) e"
  unfolding Acquire_def Let_def
proof (rule safe_now [OF K wf], rule safe_get [OF K], assumption)
  let ?S = "safe (lease_rely V) (lease_guar V (takeover_policy h (homeAZ m)) h (homeAZ m) (namespace m))
    (outcome V (namespace m, leaseName az) h)"
  note P = takeover_policy_ok [of h "homeAZ m"]
  fix now and r :: "goerr + lease" and e'
  assume wf: "kstore_wf (V e')"
    and rv: "\<And>l. r = Inr l \<Longrightarrow> read_version V (namespace m, leaseName az) l e'"
  have own: "?S (lease_write K m l h now (durSecs m)) e'"
    if "r = Inr l" "holderIdentity l = Some h" for l
    using that rv by (intro safe_lease_write [OF K P, where t = "clock (V e')"]) (auto simp: takeover_policy_def)
  have foreign: "?S (bind (call (time_now K)) (\<lambda>now'.
      if \<not> IsExpired l now' \<and> \<not> heldByForeignFailover m az l then Ret (False, None)
      else lease_write K m l h now (durSecs m))) e'" if l: "r = Inr l" for l
  proof (rule safe_now [OF K wf])
    fix t e2
    assume t: "t \<le> clock (V e2)" and e2: "lease_rely V e' e2"
    have "read_version V (namespace m, leaseName az) l e2"
      by (rule read_version_stable [OF rv [OF l] e2])
    with t show "?S (if \<not> IsExpired l t \<and> \<not> heldByForeignFailover m az l then Ret (False, None)
      else lease_write K m l h now (durSecs m)) e2"
      by (auto intro!: safe_outcome safe_lease_write [OF K P, where t = t]
          simp: takeover_policy_def heldByForeignFailover_def)
  qed
  show "?S (case r of Inl e \<Rightarrow> if IsNotFound e then
        bind (create K m (leaseName az) h now (durSecs m)) (\<lambda>c. Ret (create_result c))
        else Ret (False, Some e)
      | Inr existing \<Rightarrow> if holderIdentity existing = Some h
        then lease_write K m existing h now (durSecs m)
        else bind (call (time_now K)) (\<lambda>now'.
          if \<not> IsExpired existing now' \<and> \<not> heldByForeignFailover m az existing
          then Ret (False, None) else lease_write K m existing h now (durSecs m))) e'"
    using own foreign by (cases r) (auto intro!: safe_outcome safe_create [OF K])
qed

theorem safe_Release:
  assumes K: "lease_api_ok K V" and wf: "kstore_wf (V e)"
  shows "safe (lease_rely V) (lease_guar V pol h (homeAZ m) (namespace m)) (\<lambda>r e. True) (Release K m az h) e"
  unfolding Release_def Let_def
proof (rule safe_get [OF K wf])
  let ?S = "safe (lease_rely V) (lease_guar V pol h (homeAZ m) (namespace m)) (\<lambda>r e. True)"
  fix r :: "goerr + lease" and e'
  assume rv: "\<And>l. r = Inr l \<Longrightarrow> read_version V (namespace m, leaseName az) l e'"
  have del: "?S (bind (call (lease_delete K (namespace m) (leaseName az) (resourceVersion l))) (\<lambda>d. case d of
       None \<Rightarrow> Ret None | Some e \<Rightarrow> Ret (if IsNotFound e \<or> IsConflict e then None else Some e))) e'"
    if l: "r = Inr l" "holderIdentity l = Some h" for l
  proof (rule safe_call_bind, rule conjI)
    fix e1 d e2
    assume e1: "lease_rely V e' e1"
      and c: "lease_delete K (namespace m) (leaseName az) (resourceVersion l) e1 = (d, e2)"
    show "lease_guar V pol h (homeAZ m) (namespace m) e1 e2"
      by (rule delete_guar [OF K c read_version_stable [OF rv [OF l(1)] e1] l(2)])
    show "?S (case d of None \<Rightarrow> Ret None
        | Some e \<Rightarrow> Ret (if IsNotFound e \<or> IsConflict e then None else Some e)) e2"
      by (auto intro!: safe_Ret split: option.split)
  qed
  show "?S (case r of Inl e \<Rightarrow> Ret (if IsNotFound e then None else Some e)
     | Inr existing \<Rightarrow> if holderIdentity existing \<noteq> Some h then Ret None
       else bind (call (lease_delete K (namespace m) (leaseName az) (resourceVersion existing)))
         (\<lambda>d. case d of None \<Rightarrow> Ret None
          | Some e \<Rightarrow> Ret (if IsNotFound e \<or> IsConflict e then None else Some e))) e'"
    using del by (cases r) (auto intro!: safe_Ret)
qed

theorem safe_ListExpiredAZs:
  assumes K: "lease_api_ok K V" and wf: "kstore_wf (V e)"
  shows "safe (lease_rely V) (lease_guar V pol h z ns) (\<lambda>r e. True) (ListExpiredAZs K m az) e"
  unfolding ListExpiredAZs_def
proof (rule safe_call_bind, rule conjI)
  fix e1 r e2
  assume e1: "lease_rely V e e1" and c: "lease_list K (namespace m) e1 = (r, e2)"
  note spec = lease_list_spec [OF K c]
  show "lease_guar V pol h z ns e1 e2" by (rule reads_guar) (simp add: spec)
  have "kstore_wf (V e2)"
    by (rule reads_wf [OF _ rely_wf [OF e1 wf]]) (simp add: spec)
  then show "safe (lease_rely V) (lease_guar V pol h z ns) (\<lambda>r e. True)
      (case r of Inl e \<Rightarrow> Ret (Inl e)
       | Inr items \<Rightarrow> bind (call (time_now K)) (\<lambda>now. Ret (Inr (expired_azs items az now)))) e2"
    by (cases r) (auto intro!: safe_Ret safe_now [OF K])
qed

end
