(* ===== verification/Lease_Server.thy ===== *)
theory Lease_Server
  imports Lease_Safety
begin

text \<open>
  An API server in memory: a concrete outside world with the documented behaviour of the
  Lease endpoints. It shows that \<open>lease_api_ok\<close> can hold, and the examples of the
  development run on it. It never fails, and its clock moves by \<open>mem_step\<close> per call.
\<close>

record mem =
  mem_objs :: "lease_key \<rightharpoonup> lease"
  mem_versions :: "(lease_key \<times> lease) list"
  mem_clock :: int
  mem_step :: nat

text \<open>The label selector \<open>app=kube-nat\<close> of the agents' list calls.\<close>

definition labelled_agent :: "lease \<Rightarrow> bool" where
  "labelled_agent l \<longleftrightarrow> (case labels l of None \<Rightarrow> False | Some m \<Rightarrow> m ''app'' = Some ''kube-nat'')"

text \<open>A resource version longer than every earlier one.\<close>

definition fresh_rv :: "(lease_key \<times> lease) list \<Rightarrow> string" where
  "fresh_rv vs = replicate (Suc (sum_list (map (\<lambda>v. length (resourceVersion (snd v))) vs))) (CHR ''1'')"

definition mem_tick :: "mem \<Rightarrow> mem" where
  "mem_tick e = e\<lparr>mem_clock := mem_clock e + int (mem_step e)\<rparr>"

definition mem_commit :: "lease_key \<Rightarrow> lease \<Rightarrow> mem \<Rightarrow> lease result \<times> mem" where
  "mem_commit k l e =
     (let l' = l\<lparr>resourceVersion := fresh_rv (mem_versions e), renewTime := map_option micro (renewTime l)\<rparr>
      in (Inr l', mem_tick (e\<lparr>mem_objs := (mem_objs e)(k \<mapsto> l'), mem_versions := (k, l') # mem_versions e\<rparr>)))"

definition mem_api :: "mem lease_api" where
  "mem_api =
     \<lparr>lease_get = (\<lambda>ns n e. (case mem_objs e (ns, n) of
          None \<Rightarrow> (Inl (Kube NotFound), mem_tick e) | Some l \<Rightarrow> (Inr l, mem_tick e))),
      lease_create = (\<lambda>ns l e. (case mem_objs e (ns, lease_name l) of
          None \<Rightarrow> mem_commit (ns, lease_name l) l e
        | Some _ \<Rightarrow> (Inl (Kube AlreadyExists), mem_tick e))),
      lease_update = (\<lambda>ns l e. (case mem_objs e (ns, lease_name l) of
          None \<Rightarrow> (Inl (Kube NotFound), mem_tick e)
        | Some old \<Rightarrow> if resourceVersion old = resourceVersion l then mem_commit (ns, lease_name l) l e
            else (Inl (Kube Conflict), mem_tick e))),
      lease_delete = (\<lambda>ns n rv e. (case mem_objs e (ns, n) of
          None \<Rightarrow> (Some (Kube NotFound), mem_tick e)
        | Some old \<Rightarrow> if resourceVersion old = rv
            then (None, mem_tick (e\<lparr>mem_objs := (mem_objs e)((ns, n) := None)\<rparr>))
            else (Some (Kube Conflict), mem_tick e))),
      lease_list = (\<lambda>ns e. (Inr (map snd (filter (\<lambda>v. fst (fst v) = ns \<and>
          snd (fst v) = lease_name (snd v) \<and> labelled_agent (snd v) \<and> mem_objs e (fst v) = Some (snd v)) (mem_versions e))), mem_tick e)),
      time_now = (\<lambda>e. (mem_clock e, mem_tick e))\<rparr>"

definition mem_view :: "mem \<Rightarrow> kstore" where
  "mem_view e = \<lparr>objs = mem_objs e, versions = set (mem_versions e), clock = mem_clock e\<rparr>"

definition mem_empty :: "int \<Rightarrow> mem" where
  "mem_empty t = \<lparr>mem_objs = Map.empty, mem_versions = [], mem_clock = t, mem_step = 1\<rparr>"

lemma fresh_rv_new: "v \<in> set vs \<Longrightarrow> resourceVersion (snd v) \<noteq> fresh_rv vs"
proof -
  assume "v \<in> set vs"
  then have "length (resourceVersion (snd v)) \<le> sum_list (map (\<lambda>v. length (resourceVersion (snd v))) vs)"
    by (intro member_le_sum_list) auto
  then show ?thesis by (auto simp: fresh_rv_def)
qed

lemma mem_view_simps [simp]:
  "objs (mem_view e) = mem_objs e" "versions (mem_view e) = set (mem_versions e)"
  "clock (mem_view e) = mem_clock e"
  "mem_objs (mem_tick e) = mem_objs e" "mem_versions (mem_tick e) = mem_versions e"
  "mem_clock (mem_tick e) = mem_clock e + int (mem_step e)"
  by (simp_all add: mem_view_def mem_tick_def)

lemma mem_commit_commits:
  assumes "mem_commit k l e = (r, e')"
  shows "\<exists>l'. r = Inr l' \<and> persisted l l' \<and> commits (mem_view e) k l' (mem_view e') \<and>
    mem_clock e \<le> mem_clock e'"
proof -
  have fresh: "(k, l') \<in> set (mem_versions e) \<Longrightarrow> resourceVersion l' \<noteq> fresh_rv (mem_versions e)" for l'
    using fresh_rv_new [of "(k, l')"] by simp
  show ?thesis
    using assms fresh by (auto simp: mem_commit_def Let_def persisted_def commits_def mem_tick_def mem_view_def)
qed

lemma mem_api_ok: "lease_api_ok mem_api mem_view"
proof -
  have 1: "get_ok mem_api mem_view" "list_ok mem_api mem_view" "now_ok mem_api mem_view"
    by (auto simp: get_ok_def list_ok_def now_ok_def mem_api_def reads_def quiet_def split: option.splits)
  have 2: "create_ok mem_api mem_view"
    unfolding create_ok_def
  proof (intro allI impI)
    fix ns l e r e' assume "lease_create mem_api ns l e = (r, e')"
    then show "writes (ok_of r) (err_of r) (created (mem_view e) (ns, lease_name l) l (mem_view e'))
        (mem_view e) (mem_view e')"
      using mem_commit_commits [of "(ns, lease_name l)" l e r e']
      by (cases "mem_objs e (ns, lease_name l)") (auto simp: mem_api_def writes_def created_def quiet_def)
  qed
  have 3: "update_ok mem_api mem_view"
    unfolding update_ok_def
  proof (intro allI impI)
    fix ns l e r e' assume "lease_update mem_api ns l e = (r, e')"
    then show "writes (ok_of r) (err_of r) (updated (mem_view e) (ns, lease_name l) l (mem_view e'))
        (mem_view e) (mem_view e')"
      using mem_commit_commits [of "(ns, lease_name l)" l e r e']
      by (cases "mem_objs e (ns, lease_name l)")
        (auto simp: mem_api_def writes_def updated_def quiet_def split: if_splits)
  qed
  have 4: "delete_ok mem_api mem_view"
    by (auto simp: delete_ok_def mem_api_def writes_def deleted_def removes_def quiet_def mem_view_def
        mem_tick_def split: option.splits if_splits)
  from 1 2 3 4 show ?thesis by (simp add: lease_api_ok_def)
qed

lemma mem_empty_wf: "kstore_wf (mem_view (mem_empty t))"
  by (simp add: kstore_wf_def mem_empty_def mem_view_def)

end
