(* ===== verification/Lease_Cluster.thy ===== *)
theory Lease_Cluster
  imports Lease_Server
begin

text \<open>
  Any number of agents working on the same Leases at once. Each runs a sequence of Lease
  operations of its own manager; the calls interleave in any order.
\<close>

datatype lease_op = OpRenew string | OpAcquire string | OpRelease string | OpListExpired string

fun lease_client ::
  "'e lease_api \<Rightarrow> manager \<Rightarrow> string \<Rightarrow> lease_op list \<Rightarrow> ('e, unit) prog" where
  "lease_client K m h [] = Ret ()"
| "lease_client K m h (OpRenew az # ops) = bind (Renew K m az h) (\<lambda>_. lease_client K m h ops)"
| "lease_client K m h (OpAcquire az # ops) = bind (Acquire K m az h) (\<lambda>_. lease_client K m h ops)"
| "lease_client K m h (OpRelease az # ops) = bind (Release K m az h) (\<lambda>_. lease_client K m h ops)"
| "lease_client K m h (OpListExpired az # ops) =
     bind (ListExpiredAZs K m az) (\<lambda>_. lease_client K m h ops)"

text \<open>The Leases stay well formed under every step, so later operations start well.\<close>

definition keeps_wf :: "('e \<Rightarrow> kstore) \<Rightarrow> 'a \<Rightarrow> 'e \<Rightarrow> bool" where
  "keeps_wf V r e \<longleftrightarrow> kstore_wf (V e)"

lemma safe_keeps_wf:
  assumes "safe (lease_rely V) (lease_guar V pol h z ns) Q p e" and "kstore_wf (V e)"
  shows "safe (lease_rely V) (lease_guar V pol h z ns) (keeps_wf V) p e"
  using assms
proof (induction rule: safe.induct)
  case (safe_Ret w a)
  then show ?case by (auto intro!: safe.safe_Ret simp: keeps_wf_def intro: rely_wf)
next
  case (safe_Act w f)
  show ?case
  proof (rule safe.safe_Act)
    fix w' p w'' assume s: "lease_rely V w w'" "f w' = (p, w'')"
    note IH = safe_Act.IH [OF s]
    have "kstore_wf (V w')" by (rule rely_wf [OF s(1) safe_Act.prems])
    then have "kstore_wf (V w'')" using IH by (auto simp: lease_guar_def evolves_def)
    with IH show "lease_guar V pol h z ns w' w'' \<and> safe (lease_rely V) (lease_guar V pol h z ns) (keeps_wf V) p w''"
      by simp
  qed
qed

lemma safe_lease_client:
  assumes K: "lease_api_ok K V" and wf: "kstore_wf (V e)"
  shows "safe (lease_rely V) (lease_guar V (takeover_policy h (homeAZ m)) h (homeAZ m) (namespace m)) (keeps_wf V) (lease_client K m h ops) e"
  using wf
proof (induction ops arbitrary: e)
  case Nil
  then show ?case by (auto intro!: safe_Ret simp: keeps_wf_def intro: rely_wf)
next
  case (Cons op ops)
  let ?S = "safe (lease_rely V) (lease_guar V (takeover_policy h (homeAZ m)) h (homeAZ m) (namespace m)) (keeps_wf V)"
  have seq: "?S (bind p (\<lambda>_. lease_client K m h ops)) e"
    if "safe (lease_rely V) (lease_guar V (takeover_policy h (homeAZ m)) h (homeAZ m) (namespace m)) Q p e"
    for p :: "('a, 'x) prog" and Q
    by (rule safe_bind [OF safe_keeps_wf [OF that Cons.prems]])
      (simp_all add: keeps_wf_def Cons.IH)
  show ?case
    by (cases op) (simp_all add: seq [OF safe_Renew [OF K takeover_policy_ok Cons.prems]]
        seq [OF safe_Acquire [OF K Cons.prems]] seq [OF safe_Release [OF K Cons.prems]]
        seq [OF safe_ListExpiredAZs [OF K Cons.prems]])
qed

text \<open>The agents of a cluster: the manager and the holder identity of each, and its operations.\<close>

definition lease_cluster ::
  "'e lease_api \<Rightarrow> ('i \<Rightarrow> manager) \<Rightarrow> ('i \<Rightarrow> string) \<Rightarrow> ('i \<Rightarrow> lease_op list) \<Rightarrow> 'i \<Rightarrow> ('e, unit) prog" where
  "lease_cluster K mgr pod ops = (\<lambda>i. lease_client K (mgr i) (pod i) (ops i))"

lemma lease_cluster_step:
  assumes K: "lease_api_ok K V" and wf: "kstore_wf (V e0)"
    and reach: "par_reach (lease_cluster K mgr pod ops, e0) c" and step: "par_step c i d"
  shows "lease_guar V (takeover_policy (pod i) (homeAZ (mgr i))) (pod i) (homeAZ (mgr i)) (namespace (mgr i)) (snd c) (snd d) \<and> kstore_wf (V (snd c))"
proof -
  let ?R = "\<lambda>i. lease_rely V"
  let ?G = "\<lambda>i. lease_guar V (takeover_policy (pod i) (homeAZ (mgr i))) (pod i) (homeAZ (mgr i)) (namespace (mgr i))"
  let ?Q = "\<lambda>i. keeps_wf V"
  have init: "all_safe ?R ?G ?Q (lease_cluster K mgr pod ops, e0)"
    by (simp add: all_safe_def lease_cluster_def safe_lease_client [OF K wf])
  have inv: "all_safe ?R ?G ?Q c"
    by (rule par_reach_safe [OF reach init]) (auto intro: lease_rely_trans guar_imp_rely)
  have guar: "?G i (snd c) (snd d)"
    by (rule par_step_safe [THEN conjunct1, OF inv step]) (auto intro: lease_rely_trans guar_imp_rely)
  have "lease_rely V e0 (snd c)"
    using reach init
  proof (induction "(lease_cluster K mgr pod ops, e0)" c rule: par_reach.induct)
    case (par_trans d i e)
    have "all_safe ?R ?G ?Q d"
      by (rule par_reach_safe [OF par_trans.hyps(1) par_trans.prems])
        (auto intro: lease_rely_trans guar_imp_rely)
    then have "?G i (snd d) (snd e)"
      by (rule par_step_safe [THEN conjunct1, OF _ par_trans.hyps(3)])
        (auto intro: lease_rely_trans guar_imp_rely)
    from lease_rely_trans [OF par_trans.hyps(2) [OF par_trans.prems] guar_imp_rely [OF this]]
    show ?case .
  qed simp
  from guar rely_wf [OF this wf] show ?thesis by simp
qed

text \<open>What one step of an agent does to a Lease held by somebody else that is live and of its own AZ.\<close>

lemma change_spares_live_owner:
  assumes "lease_change (takeover_policy h z) h z ns S S'" and "objs S k = Some l" and "holderIdentity l = Some a"
    and "a \<noteq> h" and "\<not> IsExpired l (clock S)" and "k = (n, leaseName az)"
    and "holderHomeAZ l = az \<or> holderHomeAZ l = '''' \<or> z \<noteq> az"
  shows "objs S' k = Some l"
proof (cases "objs S' = objs S")
  case False
  with assms(1) obtain b where
    frame: "\<And>k. k \<noteq> (ns, leaseName b) \<Longrightarrow> objs S' k = objs S k" and
    ok: "change_ok (\<lambda>l. takeover_policy h z b l (clock S)) h z (objs S (ns, leaseName b)) (objs S' (ns, leaseName b))"
    unfolding lease_change_def by blast
  show ?thesis
  proof (cases "k = (ns, leaseName b)")
    case True
    then have "b = az" using assms(6) by (simp add: leaseName_def)
    with True ok assms show ?thesis
      by (cases "objs S' k") (auto simp: takeover_policy_def)
  qed (use frame assms(2) in auto)
qed (use assms(2) in simp)

end
