(* ===== verification/Lease_Function.thy ===== *)
theory Lease_Function
  imports Lease_Cluster
begin

text \<open>
  What the Lease operations do, branch by branch, when no other client interferes and the
  API server answers (\<open>lease_api_up\<close>): when \<open>Renew\<close>, \<open>Acquire\<close> and \<open>Release\<close> succeed,
  and what they leave in the store.
\<close>

definition lease_api_up :: "'e lease_api \<Rightarrow> ('e \<Rightarrow> kstore) \<Rightarrow> bool" where
  "lease_api_up K V \<longleftrightarrow> lease_api_ok K V \<and>
     (\<forall>ns n e l. objs (V e) (ns, n) = Some l \<longrightarrow> fst (lease_get K ns n e) = Inr l) \<and>
     (\<forall>ns n e. objs (V e) (ns, n) = None \<longrightarrow>
        (\<exists>x. fst (lease_get K ns n e) = Inl x \<and> IsNotFound x)) \<and>
     (\<forall>ns l e. objs (V e) (ns, lease_name l) = None \<longrightarrow> is_ok (fst (lease_create K ns l e))) \<and>
     (\<forall>ns l e old. objs (V e) (ns, lease_name l) = Some old \<longrightarrow>
        resourceVersion old = resourceVersion l \<longrightarrow> is_ok (fst (lease_update K ns l e))) \<and>
     (\<forall>ns n e old. objs (V e) (ns, n) = Some old \<longrightarrow>
        fst (lease_delete K ns n (resourceVersion old) e) = None)"

lemma up_ok: "lease_api_up K V \<Longrightarrow> lease_api_ok K V"
  by (simp add: lease_api_up_def)

lemma get_present:
  assumes "lease_api_up K V" and "objs (V e) (ns, n) = Some l"
  obtains e' where "lease_get K ns n e = (Inr l, e')" "reads (V e) (V e')"
proof -
  obtain r e' where c: "lease_get K ns n e = (r, e')" by fastforce
  have "fst (lease_get K ns n e) = Inr l"
    using assms unfolding lease_api_up_def by simp
  with c lease_get_spec [OF up_ok [OF assms(1)] c] that show ?thesis by simp
qed

lemma get_absent:
  assumes "lease_api_up K V" and "objs (V e) (ns, n) = None"
  obtains x e' where "lease_get K ns n e = (Inl x, e')" "IsNotFound x" "reads (V e) (V e')"
proof -
  obtain r e' where c: "lease_get K ns n e = (r, e')" by fastforce
  have "\<exists>x. fst (lease_get K ns n e) = Inl x \<and> IsNotFound x"
    using assms unfolding lease_api_up_def by simp
  with c lease_get_spec [OF up_ok [OF assms(1)] c] that show ?thesis by auto
qed

lemma create_absent:
  assumes "lease_api_up K V" and "objs (V e) (ns, n) = None" and n: "lease_name l = n"
  obtains l' e' where "lease_create K ns l e = (Inr l', e')"
    "created (V e) (ns, n) l (V e') l'" "clock (V e) \<le> clock (V e')"
proof -
  obtain r e' where c: "lease_create K ns l e = (r, e')" by fastforce
  have "is_ok (fst (lease_create K ns l e))"
    using assms unfolding lease_api_up_def by simp
  with c obtain l' where "r = Inr l'" by (cases r) auto
  with lease_create_spec [OF up_ok [OF assms(1)] c] n c that show ?thesis
    by (simp add: writes_def)
qed

lemma update_current:
  assumes "lease_api_up K V" and "objs (V e) (ns, n) = Some old"
    and "resourceVersion old = resourceVersion l" and n: "lease_name l = n"
  obtains l' e' where "lease_update K ns l e = (Inr l', e')"
    "updated (V e) (ns, n) l (V e') l'" "clock (V e) \<le> clock (V e')"
proof -
  obtain r e' where c: "lease_update K ns l e = (r, e')" by fastforce
  have "is_ok (fst (lease_update K ns l e))"
    using assms unfolding lease_api_up_def by simp
  with c obtain l' where "r = Inr l'" by (cases r) auto
  with lease_update_spec [OF up_ok [OF assms(1)] c] n c that show ?thesis
    by (simp add: writes_def)
qed

lemma delete_current:
  assumes "lease_api_up K V" and "objs (V e) (ns, n) = Some old"
  obtains e' where "lease_delete K ns n (resourceVersion old) e = (None, e')" "removes (V e) (ns, n) (V e')"
proof -
  obtain r e' where c: "lease_delete K ns n (resourceVersion old) e = (r, e')" by fastforce
  have "fst (lease_delete K ns n (resourceVersion old) e) = None"
    using assms unfolding lease_api_up_def by simp
  with c lease_delete_spec [OF up_ok [OF assms(1)] c] that show ?thesis
    by (auto simp: writes_def deleted_def)
qed

lemma read_clock:
  assumes "lease_api_up K V"
  obtains t e' where "time_now K e = (t, e')" "reads (V e) (V e')" "clock (V e) \<le> t" "t \<le> clock (V e')"
proof -
  obtain t e' where c: "time_now K e = (t, e')" by fastforce
  with time_now_spec [OF up_ok [OF assms] c] that show ?thesis by blast
qed

section \<open>What a successful operation leaves behind\<close>

text \<open>The object the agent \<open>h\<close> has just written, at or after time \<open>t0\<close>.\<close>

definition granted :: "manager \<Rightarrow> string \<Rightarrow> int \<Rightarrow> lease \<Rightarrow> bool" where
  "granted m h t0 l \<longleftrightarrow>
     holderIdentity l = Some h \<and> leaseDurationSeconds l = Some (durSecs m) \<and>
     (\<exists>t \<ge> t0. renewTime l = Some (micro t)) \<and> (homeAZ m \<noteq> '''' \<longrightarrow> holderHomeAZ l = homeAZ m)"

definition leaves :: "manager \<Rightarrow> string \<Rightarrow> string \<Rightarrow> kstore \<Rightarrow> kstore \<Rightarrow> bool" where
  "leaves m h az S S' \<longleftrightarrow>
     (\<exists>l. objs S' = (objs S)((namespace m, leaseName az) \<mapsto> l) \<and> granted m h (clock S) l)"

lemma leaves_commits:
  assumes "persisted l l'" and "commits S' (namespace m, leaseName az) l' S''" and "objs S = objs S'"
    and "holderIdentity l = Some h" and "leaseDurationSeconds l = Some (durSecs m)"
    and "renewTime l = Some t" and "clock S \<le> t" and "homeAZ m \<noteq> '''' \<Longrightarrow> holderHomeAZ l = homeAZ m"
  shows "leaves m h az S S''"
  using assms(2-) persisted_fields [OF assms(1)]
  by (auto simp: commits_def leaves_def granted_def)

lemma run_create:
  assumes K: "lease_api_up K V" and o: "objs (V e) (namespace m, leaseName az) = None"
    and "clock (V e0) \<le> t" and "objs (V e0) = objs (V e)"
  shows "\<exists>e'. run (bind (create K m (leaseName az) h t (durSecs m)) (\<lambda>c. Ret (create_result c))) e
      = ((True, None), e') \<and> leaves m h az (V e0) (V e')"
proof -
  let ?l = "new_lease m (leaseName az) h t (durSecs m)"
  have n: "lease_name ?l = leaseName az" by simp
  obtain l' e' where c: "lease_create K (namespace m) ?l e = (Inr l', e')"
    and d: "created (V e) (namespace m, leaseName az) ?l (V e') l'"
    by (rule create_absent [OF K o n])
  have "leaves m h az (V e0) (V e')"
    using d by (intro leaves_commits [where l = ?l and l' = l' and S' = "V e" and t = t]) (simp_all add: created_def assms home_labels)
  with c show ?thesis by (simp add: create_def create_result_def)
qed

lemma run_lease_write:
  assumes K: "lease_api_up K V" and o: "objs (V e) (namespace m, leaseName az) = Some l"
    and "lease_name l = leaseName az" and "clock (V e0) \<le> t" and "objs (V e0) = objs (V e)"
  shows "\<exists>e'. run (lease_write K m l h t (durSecs m)) e = ((True, None), e') \<and>
    leaves m h az (V e0) (V e')"
proof -
  let ?l = "owned_lease m l h t (durSecs m)"
  have n: "lease_name ?l = leaseName az" and v: "resourceVersion l = resourceVersion ?l"
    using assms(3) by simp_all
  obtain l' e' where c: "lease_update K (namespace m) ?l e = (Inr l', e')"
    and d: "updated (V e) (namespace m, leaseName az) ?l (V e') l'"
    by (rule update_current [OF K o v n])
  have "leaves m h az (V e0) (V e')"
    using d by (intro leaves_commits [where l = ?l and l' = l' and S' = "V e" and t = t]) (simp_all add: updated_def assms home_labels)
  with c show ?thesis by (simp add: lease_write_def)
qed

lemma run_renew_loop:
  assumes K: "lease_api_up K V" and o: "objs (V e) (namespace m, leaseName az) = Some l"
    and "lease_name l = leaseName az" and "holderIdentity l = Some h"
    and "clock (V e0) \<le> t" and "objs (V e0) = objs (V e)"
  shows "\<exists>e'. run (renew_loop (Suc n) K m (leaseName az) h t (durSecs m) l) e = ((True, None), e') \<and>
    leaves m h az (V e0) (V e')"
proof -
  let ?l = "refreshed_lease m l t (durSecs m)"
  have n: "lease_name ?l = leaseName az" and v: "resourceVersion l = resourceVersion ?l"
    using assms(3) by simp_all
  obtain l' e' where c: "lease_update K (namespace m) ?l e = (Inr l', e')"
    and d: "updated (V e) (namespace m, leaseName az) ?l (V e') l'"
    by (rule update_current [OF K o v n])
  have "leaves m h az (V e0) (V e')"
    using d by (intro leaves_commits [where l = ?l and l' = l' and S' = "V e" and t = t]) (simp_all add: updated_def assms home_labels)
  with c show ?thesis by simp
qed

lemma stored_name: "kstore_wf S \<Longrightarrow> objs S (ns, n) = Some l \<Longrightarrow> lease_name l = n"
  by (fastforce simp: kstore_wf_def)

section \<open>Renew\<close>

lemma Renew_grants:
  assumes K: "lease_api_up K V" and wf: "kstore_wf (V e)"
    and mine: "\<And>l. objs (V e) (namespace m, leaseName az) = Some l \<Longrightarrow> holderIdentity l = Some h"
  shows "\<exists>e'. run (Renew K m az h) e = ((True, None), e') \<and> leaves m h az (V e) (V e')"
proof -
  let ?k = "(namespace m, leaseName az)"
  obtain t e1 where t: "time_now K e = (t, e1)" "reads (V e) (V e1)" "clock (V e) \<le> t"
    using read_clock [OF K] by metis
  then have o1: "objs (V e1) = objs (V e)" by (simp add: reads_def quiet_def)
  show ?thesis
  proof (cases "objs (V e) ?k")
    case None
    then obtain x e2 where g: "lease_get K (namespace m) (leaseName az) e1 = (Inl x, e2)"
      "IsNotFound x" "reads (V e1) (V e2)"
      using get_absent [OF K] o1 by metis
    then have o2: "objs (V e) = objs (V e2)" using o1 by (simp add: reads_def quiet_def)
    from run_create [OF K _ t(3) o2, of m az h] None o2 t g show ?thesis
      by (simp add: Renew_def Let_def)
  next
    case (Some l)
    then obtain e2 where g: "lease_get K (namespace m) (leaseName az) e1 = (Inr l, e2)"
      "reads (V e1) (V e2)"
      using get_present [OF K] o1 by metis
    then have o2: "objs (V e) = objs (V e2)" using o1 by (simp add: reads_def quiet_def)
    have n: "Suc 2 = 3" by simp
    have here: "objs (V e2) (namespace m, leaseName az) = Some l" using Some o2 by simp
    have "\<exists>e'. run (renew_loop 3 K m (leaseName az) h t (durSecs m) l) e2 = ((True, None), e') \<and>
        leaves m h az (V e) (V e')"
      using run_renew_loop [OF K here stored_name [OF wf Some] mine [OF Some] t(3) o2, where n = 2]
      unfolding n .
    with t g mine [OF Some] show ?thesis by (simp add: Renew_def Let_def)
  qed
qed

lemma Renew_refuses:
  assumes K: "lease_api_up K V" and l: "objs (V e) (namespace m, leaseName az) = Some l"
    and other: "holderIdentity l \<noteq> Some h"
  shows "\<exists>e'. run (Renew K m az h) e = ((False, None), e') \<and> objs (V e') = objs (V e)"
proof -
  obtain t e1 where t: "time_now K e = (t, e1)" "reads (V e) (V e1)"
    using read_clock [OF K] by metis
  then have o1: "objs (V e1) = objs (V e)" by (simp add: reads_def quiet_def)
  then obtain e2 where g: "lease_get K (namespace m) (leaseName az) e1 = (Inr l, e2)"
      "reads (V e1) (V e2)"
    using get_present [OF K] l by metis
  with t o1 other show ?thesis
    by (simp add: Renew_def Let_def reads_def quiet_def)
qed

section \<open>Acquire\<close>

lemma Acquire_grants:
  assumes K: "lease_api_up K V" and wf: "kstore_wf (V e)"
    and may: "\<And>l. objs (V e) (namespace m, leaseName az) = Some l \<Longrightarrow>
      takeover_policy h (homeAZ m) az l (clock (V e))"
  shows "\<exists>e'. run (Acquire K m az h) e = ((True, None), e') \<and> leaves m h az (V e) (V e')"
proof -
  let ?k = "(namespace m, leaseName az)"
  obtain t e1 where t: "time_now K e = (t, e1)" "reads (V e) (V e1)" "clock (V e) \<le> t"
    using read_clock [OF K] by metis
  then have o1: "objs (V e1) = objs (V e)" by (simp add: reads_def quiet_def)
  show ?thesis
  proof (cases "objs (V e) ?k")
    case None
    then obtain x e2 where g: "lease_get K (namespace m) (leaseName az) e1 = (Inl x, e2)"
      "IsNotFound x" "reads (V e1) (V e2)"
      using get_absent [OF K] o1 by metis
    then have o2: "objs (V e) = objs (V e2)" using o1 by (simp add: reads_def quiet_def)
    from run_create [OF K _ t(3) o2, of m az h] None o2 t g show ?thesis
      by (simp add: Acquire_def Let_def)
  next
    case (Some l)
    then obtain e2 where g: "lease_get K (namespace m) (leaseName az) e1 = (Inr l, e2)"
      "reads (V e1) (V e2)"
      using get_present [OF K] o1 by metis
    then have o2: "objs (V e) = objs (V e2)" using o1 by (simp add: reads_def quiet_def)
    note name = stored_name [OF wf Some]
    show ?thesis
    proof (cases "holderIdentity l = Some h")
      case True
      with run_lease_write [OF K _ name t(3) o2, where h = h] Some o2 t g show ?thesis
        by (simp add: Acquire_def Let_def)
    next
      case False
      obtain t' e3 where t': "time_now K e2 = (t', e3)" "reads (V e2) (V e3)" "clock (V e2) \<le> t'"
        using read_clock [OF K] by metis
      then have o3: "objs (V e) = objs (V e3)" using o2 by (simp add: reads_def quiet_def)
      have "clock (V e) \<le> t'"
        using t(2) g(2) t'(3) by (simp add: reads_def)
      then have "takeover_policy h (homeAZ m) az l t'"
        by (rule policy_mono [OF takeover_policy_ok may [OF Some]])
      with False have "IsExpired l t' \<or> heldByForeignFailover m az l"
        by (auto simp: takeover_policy_def heldByForeignFailover_def)
      with False run_lease_write [OF K _ name t(3) o3, where h = h] Some o3 t g t' show ?thesis
        by (simp add: Acquire_def Let_def)
    qed
  qed
qed

lemma Acquire_refuses:
  assumes K: "lease_api_up K V" and l: "objs (V e) (namespace m, leaseName az) = Some l"
    and run: "run (Acquire K m az h) e = (r, e')"
    and may_not: "\<not> takeover_policy h (homeAZ m) az l (clock (V e'))"
  shows "r = (False, None) \<and> objs (V e') = objs (V e)"
proof -
  obtain t e1 where t: "time_now K e = (t, e1)" "reads (V e) (V e1)"
    using read_clock [OF K] by metis
  then have o1: "objs (V e1) = objs (V e)" by (simp add: reads_def quiet_def)
  then obtain e2 where g: "lease_get K (namespace m) (leaseName az) e1 = (Inr l, e2)"
      "reads (V e1) (V e2)"
    using get_present [OF K] l by metis
  obtain t' e3 where t': "time_now K e2 = (t', e3)" "reads (V e2) (V e3)" "t' \<le> clock (V e3)"
    using read_clock [OF K] by metis
  have o3: "objs (V e3) = objs (V e)"
    using o1 g(2) t'(2) by (simp add: reads_def quiet_def)
  have own: "holderIdentity l \<noteq> Some h" and foreign: "\<not> heldByForeignFailover m az l"
    using may_not by (auto simp: takeover_policy_def heldByForeignFailover_def)
  show ?thesis
  proof (cases "IsExpired l t'")
    case True
    have "clock (V e3) \<le> clock (V e')"
    proof -
      obtain u e4 where u: "lease_update K (namespace m) (owned_lease m l h t (durSecs m)) e3 = (u, e4)"
        by fastforce
      with run own True t(1) g(1) t'(1) have "e' = e4"
        by (cases u) (auto simp: Acquire_def Let_def lease_write_def split: if_splits)
      with lease_update_spec [OF up_ok [OF K] u] show ?thesis by (simp add: writes_def)
    qed
    with True t'(3) may_not have False
      by (auto simp: takeover_policy_def intro: IsExpired_mono)
    then show ?thesis ..
  next
    case False
    with run own foreign t(1) g(1) t'(1) o3 show ?thesis
      by (simp add: Acquire_def Let_def)
  qed
qed

section \<open>Release\<close>

lemma Release_frees:
  assumes K: "lease_api_up K V" and l: "objs (V e) (namespace m, leaseName az) = Some l"
    and "holderIdentity l = Some h"
  shows "\<exists>e'. run (Release K m az h) e = (None, e') \<and>
    objs (V e') = (objs (V e))((namespace m, leaseName az) := None)"
proof -
  obtain e1 where g: "lease_get K (namespace m) (leaseName az) e = (Inr l, e1)" "reads (V e) (V e1)"
    using get_present [OF K l] by metis
  then have "objs (V e1) = objs (V e)" by (simp add: reads_def quiet_def)
  with l delete_current [OF K, of e1 "namespace m" "leaseName az" l] obtain e2 where
    "lease_delete K (namespace m) (leaseName az) (resourceVersion l) e1 = (None, e2)"
    "removes (V e1) (namespace m, leaseName az) (V e2)" by metis
  with g assms(3) show ?thesis
    by (simp add: Release_def Let_def removes_def reads_def quiet_def)
qed

lemma Release_spares:
  assumes K: "lease_api_up K V"
    and "\<And>l. objs (V e) (namespace m, leaseName az) = Some l \<Longrightarrow> holderIdentity l \<noteq> Some h"
  shows "\<exists>e'. run (Release K m az h) e = (None, e') \<and> objs (V e') = objs (V e)"
proof (cases "objs (V e) (namespace m, leaseName az)")
  case None
  obtain x e1 where "lease_get K (namespace m) (leaseName az) e = (Inl x, e1)" "IsNotFound x"
    "reads (V e) (V e1)"
    by (rule get_absent [OF K None])
  then show ?thesis by (simp add: Release_def Let_def reads_def quiet_def)
next
  case (Some l)
  then obtain e1 where "lease_get K (namespace m) (leaseName az) e = (Inr l, e1)" "reads (V e) (V e1)"
    using get_present [OF K Some] by metis
  with assms(2) [OF Some] show ?thesis
    by (simp add: Release_def Let_def reads_def quiet_def)
qed

section \<open>How long a granted Lease lives\<close>

lemma micro_bounds: "t - 999 \<le> micro t \<and> micro t \<le> t"
  unfolding micro_def by presburger

lemma Renew_granted:
  assumes "lease_api_up K V" and "kstore_wf (V e)" and "run (Renew K m az h) e = ((True, err), e')"
  shows "leaves m h az (V e) (V e')"
proof (cases "\<exists>l. objs (V e) (namespace m, leaseName az) = Some l \<and> holderIdentity l \<noteq> Some h")
  case True
  then show ?thesis using Renew_refuses [OF assms(1)] assms(3) by fastforce
next
  case False
  with Renew_grants [OF assms(1,2), of m az h] assms(3) show ?thesis by auto
qed

lemma granted_lives:
  assumes "granted m h t0 l" and "t \<le> t0 - 999 + durSecs m * 1000000000"
  shows "\<not> IsExpired l t"
proof -
  obtain u where "t0 \<le> u" "renewTime l = Some (micro u)"
    using assms(1) by (auto simp: granted_def)
  with assms micro_bounds [of u] show ?thesis
    by (auto simp: IsExpired_def granted_def)
qed

lemma mem_api_up: "lease_api_up mem_api mem_view"
  unfolding lease_api_up_def
  by (intro conjI mem_api_ok; simp add: mem_api_def mem_view_def mem_commit_def Let_def IsNotFound_def)

end
