(* ===== verification/Lease_Properties.thy ===== *)
theory Lease_Properties
  imports Lease_Function
begin

text \<open>
  The properties of \<open>internal/lease/lease.go\<close>, with the examples that show their hypotheses
  can hold. The examples run on the in-memory API server: two agents \<open>pod-a\<close> and
  \<open>pod-b\<close> of two AZs, and a Lease that \<open>pod-a\<close> holds.
\<close>

definition mgr_in :: "string \<Rightarrow> manager" where
  "mgr_in az = \<lparr>namespace = ''kube-system'', leaseDuration = 15000000000, homeAZ = az\<rparr>"

definition lease_a :: lease where
  "lease_a = \<lparr>lease_name = ''kube-nat-az1'', resourceVersion = ''1'',
     labels = Some [''app'' \<mapsto> ''kube-nat'', homeAZLabel \<mapsto> ''az1''],
     holderIdentity = Some ''pod-a'', leaseDurationSeconds = Some 15, renewTime = Some 0\<rparr>"

definition mem_a :: "int \<Rightarrow> mem" where
  "mem_a t = \<lparr>mem_objs = [(''kube-system'', ''kube-nat-az1'') \<mapsto> lease_a],
     mem_versions = [((''kube-system'', ''kube-nat-az1''), lease_a)], mem_clock = t, mem_step = 1\<rparr>"

lemma mem_a_wf: "kstore_wf (mem_view (mem_a t))"
  by (auto simp: kstore_wf_def mem_view_def mem_a_def lease_a_def split: if_splits)

lemma mem_a_objs:
  "mem_objs (mem_a t) (ns, n) =
   (if ns = ''kube-system'' \<and> n = ''kube-nat-az1'' then Some lease_a else None)"
  by (simp add: mem_a_def)

lemma mem_a_clock: "mem_clock (mem_a t) = t"
  by (simp add: mem_a_def)

lemmas example_simps = mem_a_objs mem_a_clock mgr_in_def leaseName_def lease_a_def

section \<open>Many agents at once\<close>

text \<open>
  However the Lease operations of any number of agents interleave, no step
  of an agent changes a Lease that another agent holds while that Lease has not expired,
  unless the Lease is held by a failover agent from another AZ and the agent is at home in
  the Lease's AZ.
\<close>

theorem cluster_spares_live_owner:
  assumes "lease_api_ok K V" and "kstore_wf (V e0)"
    and "par_reach (lease_cluster K mgr pod ops, e0) c" and "par_step c i d"
    and "objs (V (snd c)) (ns, leaseName az) = Some l" and "holderIdentity l = Some a" and "a \<noteq> pod i"
    and "\<not> IsExpired l (clock (V (snd c)))"
    and "holderHomeAZ l = az \<or> holderHomeAZ l = '''' \<or> homeAZ (mgr i) \<noteq> az"
  shows "objs (V (snd d)) (ns, leaseName az) = Some l"
proof -
  have "lease_change (takeover_policy (pod i) (homeAZ (mgr i))) (pod i) (homeAZ (mgr i))
      (namespace (mgr i)) (V (snd c)) (V (snd d))"
    using lease_cluster_step [OF assms(1-4)] by (simp add: lease_guar_def)
  from change_spares_live_owner [OF this assms(5,6,7,8) refl assms(9)] show ?thesis .
qed

definition cluster_b :: "nat \<Rightarrow> (mem, unit) prog" where
  "cluster_b = lease_cluster mem_api (\<lambda>i. mgr_in ''az2'') (\<lambda>i. ''pod-b'') (\<lambda>i. [OpAcquire ''az1''])"

lemma cluster_b_step:
  "\<exists>p. par_step (cluster_b, mem_a 0) 1 (cluster_b(1 := p), mem_a 1)"
proof -
  obtain f where f: "cluster_b 1 = Act f" and "\<exists>p. f (mem_a 0) = (p, mem_a 1)"
    by (simp add: cluster_b_def lease_cluster_def Acquire_def Let_def call_def mem_api_def
        mem_a_def mem_tick_def)
  then show ?thesis by (auto intro: par_act)
qed

theorem cluster_spares_live_owner_witness:
  "\<exists>d. par_step (cluster_b, mem_a 0) 1 d \<and>
     objs (mem_view (snd d)) (''kube-system'', leaseName ''az1'') = Some lease_a"
proof -
  obtain p where s: "par_step (cluster_b, mem_a 0) 1 (cluster_b(1 := p), mem_a 1)"
    using cluster_b_step by blast
  have "objs (mem_view (snd (cluster_b(1 := p), mem_a 1))) (''kube-system'', leaseName ''az1'') = Some lease_a"
    unfolding cluster_b_def
    by (rule cluster_spares_live_owner [OF mem_api_ok mem_a_wf par_refl
          s [unfolded cluster_b_def], where a = "''pod-a''" and l = lease_a and ns = "''kube-system''" and az = "''az1''"])
      (simp_all add: example_simps IsExpired_def)
  with s show ?thesis by blast
qed





section \<open>One agent alone\<close>

text \<open>
  C13: With the API server answering and no interference, \<open>Acquire\<close> is decided by the
  stored Lease: absent or open to takeover at the start of the call, it succeeds and the Lease
  then names the agent, its duration, its home AZ and a fresh renew time; not open to takeover
  at the end of the call, it answers \<open>false\<close> without an error and changes nothing.
\<close>

theorem Acquire_decides:
  assumes "lease_api_up K V" and "kstore_wf (V e)" and "run (Acquire K m az h) e = (r, e')"
  shows "((case objs (V e) (namespace m, leaseName az) of None \<Rightarrow> True
        | Some l \<Rightarrow> takeover_policy h (homeAZ m) az l (clock (V e))) \<longrightarrow>
      r = (True, None) \<and> leaves m h az (V e) (V e')) \<and>
    (\<forall>l. objs (V e) (namespace m, leaseName az) = Some l \<longrightarrow>
      \<not> takeover_policy h (homeAZ m) az l (clock (V e')) \<longrightarrow>
      r = (False, None) \<and> objs (V e') = objs (V e))"
proof (intro conjI impI allI)
  assume "case objs (V e) (namespace m, leaseName az) of None \<Rightarrow> True
       | Some l \<Rightarrow> takeover_policy h (homeAZ m) az l (clock (V e))"
  then have "\<exists>e'. run (Acquire K m az h) e = ((True, None), e') \<and> leaves m h az (V e) (V e')"
    by (intro Acquire_grants [OF assms(1,2)]) simp
  with assms(3) show "r = (True, None)" and "leaves m h az (V e) (V e')" by auto
next
  fix l
  assume "objs (V e) (namespace m, leaseName az) = Some l"
    and "\<not> takeover_policy h (homeAZ m) az l (clock (V e'))"
  with Acquire_refuses [OF assms(1) _ assms(3)] show "r = (False, None)" and "objs (V e') = objs (V e)"
    by blast+
qed

theorem Acquire_decides_witness:
  "fst (run (Acquire mem_api (mgr_in ''az2'') ''az1'' ''pod-b'') (mem_a 0)) = (False, None) \<and>
   fst (run (Acquire mem_api (mgr_in ''az2'') ''az1'' ''pod-b'') (mem_a 15000000001)) = (True, None)"
proof -
  obtain r e' where 1: "run (Acquire mem_api (mgr_in ''az2'') ''az1'' ''pod-b'') (mem_a 0) = (r, e')"
    by fastforce
  obtain r2 e2 where 2: "run (Acquire mem_api (mgr_in ''az2'') ''az1'' ''pod-b'') (mem_a 15000000001) = (r2, e2)"
    by fastforce
  have "clock (mem_view e') = 3"
    using 1 by (simp add: Acquire_def Let_def mem_api_def mem_a_def leaseName_def mgr_in_def lease_a_def
        IsExpired_def heldByForeignFailover_def mem_tick_def mem_view_def split: if_splits)
      (auto simp: mem_view_def)
  then have "r = (False, None)"
    using Acquire_decides [OF mem_api_up mem_a_wf 1]
    by (simp add: example_simps takeover_policy_def IsExpired_def)
  moreover have "r2 = (True, None)"
    using Acquire_decides [OF mem_api_up mem_a_wf 2]
    by (simp add: example_simps takeover_policy_def IsExpired_def)
  ultimately show ?thesis using 1 2 by simp
qed

text \<open>
  C14: With the API server answering and no interference, \<open>Renew\<close> succeeds exactly
  when the Lease is absent or held by the agent; otherwise it answers \<open>false\<close> and changes
  nothing. A Lease it renews stays live for its duration, counted from the start of the call.
\<close>

theorem Renew_decides:
  assumes "lease_api_up K V" and "kstore_wf (V e)" and "run (Renew K m az h) e = (r, e')"
  shows "if \<exists>l. objs (V e) (namespace m, leaseName az) = Some l \<and> holderIdentity l \<noteq> Some h
    then r = (False, None) \<and> objs (V e') = objs (V e)
    else r = (True, None) \<and> leaves m h az (V e) (V e') \<and>
      (\<exists>l. objs (V e') (namespace m, leaseName az) = Some l \<and>
        (\<forall>t \<le> clock (V e) - 999 + durSecs m * 1000000000. \<not> IsExpired l t))"
proof (cases "\<exists>l. objs (V e) (namespace m, leaseName az) = Some l \<and> holderIdentity l \<noteq> Some h")
  case True
  then show ?thesis using Renew_refuses [OF assms(1)] assms(3) by fastforce
next
  case False
  then obtain e2 where "run (Renew K m az h) e = ((True, None), e2)" "leaves m h az (V e) (V e2)"
    using Renew_grants [OF assms(1,2)] by blast
  with assms(3) have "r = (True, None)" "leaves m h az (V e) (V e')" by auto
  with False show ?thesis by (auto simp: leaves_def dest: granted_lives)
qed

theorem Renew_decides_witness:
  "fst (run (Renew mem_api (mgr_in ''az1'') ''az1'' ''pod-a'') (mem_a 0)) = (True, None) \<and>
   fst (run (Renew mem_api (mgr_in ''az2'') ''az1'' ''pod-b'') (mem_a 0)) = (False, None)"
proof -
  obtain r e' where 1: "run (Renew mem_api (mgr_in ''az1'') ''az1'' ''pod-a'') (mem_a 0) = (r, e')"
    by fastforce
  obtain r2 e2 where 2: "run (Renew mem_api (mgr_in ''az2'') ''az1'' ''pod-b'') (mem_a 0) = (r2, e2)"
    by fastforce
  have "r = (True, None)"
    using Renew_decides [OF mem_api_up mem_a_wf 1] by (simp add: example_simps)
  moreover have "r2 = (False, None)"
    using Renew_decides [OF mem_api_up mem_a_wf 2] by (simp add: example_simps)
  ultimately show ?thesis using 1 2 by simp
qed

text \<open>
  C15: With the API server answering and no interference, \<open>Release\<close> returns no error; it
  deletes the Lease when the agent holds it and otherwise leaves every Lease as it was.
\<close>

theorem Release_decides:
  assumes "lease_api_up K V" and "run (Release K m az h) e = (r, e')"
  shows "r = None \<and> objs (V e') =
    (if \<exists>l. objs (V e) (namespace m, leaseName az) = Some l \<and> holderIdentity l = Some h
     then (objs (V e))((namespace m, leaseName az) := None) else objs (V e))"
proof (cases "\<exists>l. objs (V e) (namespace m, leaseName az) = Some l \<and> holderIdentity l = Some h")
  case True
  then show ?thesis using Release_frees [OF assms(1)] assms(2) by fastforce
next
  case False
  then have "\<exists>e'. run (Release K m az h) e = (None, e') \<and> objs (V e') = objs (V e)"
    by (intro Release_spares [OF assms(1)]) blast
  with False assms(2) show ?thesis by auto
qed

theorem Release_decides_witness:
  "objs (mem_view (snd (run (Release mem_api (mgr_in ''az1'') ''az1'' ''pod-a'') (mem_a 0))))
     (''kube-system'', ''kube-nat-az1'') = None"
  using Release_decides [OF mem_api_up surjective_pairing,
      of "mgr_in ''az1''" "''az1''" "''pod-a''" "mem_a 0"]
  by (simp add: example_simps)

text \<open>
  From the Leases that the server lists (named by \<open>leaseName\<close>) and the time read
  after that, \<open>ListExpiredAZs\<close> reports exactly the AZs other than the caller's own that have
  an expired Lease.
\<close>

theorem ListExpiredAZs_exact:
  assumes "lease_list K (namespace m) e = (Inr ls, e1)" and "time_now K e1 = (t, e2)"
    and "\<forall>l \<in> set ls. \<exists>az. lease_name l = leaseName az"
  shows "\<exists>azs. run (ListExpiredAZs K m own) e = (Inr azs, e2) \<and>
    (\<forall>az. az \<in> set azs \<longleftrightarrow> az \<noteq> '''' \<and> az \<noteq> own \<and>
       (\<exists>l \<in> set ls. lease_name l = leaseName az \<and> IsExpired l t))"
proof -
  have named: "azFromLeaseName (lease_name l) = az \<longleftrightarrow> lease_name l = leaseName az"
    if "l \<in> set ls" for l az
    using assms(3) that by (auto simp: azFromLeaseName_def leaseName_def Let_def)
  have "az \<in> set (expired_azs ls' own t) \<longleftrightarrow> az \<noteq> '''' \<and> az \<noteq> own \<and>
      (\<exists>l \<in> set ls'. azFromLeaseName (lease_name l) = az \<and> IsExpired l t)" for az ls'
    by (induction ls') (auto simp: Let_def)
  with assms(1,2) named show ?thesis by (auto simp: ListExpiredAZs_def)
qed

theorem ListExpiredAZs_exact_witness:
  "''az1'' \<in> set (projr (fst (run (ListExpiredAZs mem_api (mgr_in ''az2'') ''az2'') (mem_a 16000000000))))"
proof -
  have 1: "lease_list mem_api (namespace (mgr_in ''az2'')) (mem_a 16000000000) = (Inr [lease_a], mem_a 16000000001)"
    by (simp add: mem_api_def mem_a_def mgr_in_def mem_tick_def lease_a_def labelled_agent_def homeAZLabel_def)
  have 2: "time_now mem_api (mem_a 16000000001) = (16000000001, mem_a 16000000002)"
    by (simp add: mem_api_def mem_a_def mem_tick_def)
  have n: "\<forall>l \<in> set [lease_a]. \<exists>az. lease_name l = leaseName az"
    by (simp add: lease_a_def leaseName_def)
  obtain azs where azs: "run (ListExpiredAZs mem_api (mgr_in ''az2'') ''az2'') (mem_a 16000000000) =
      (Inr azs, mem_a 16000000002)"
    and "''az1'' \<in> set azs \<longleftrightarrow> (\<exists>l \<in> set [lease_a]. lease_name l = leaseName ''az1'' \<and> IsExpired l 16000000001)"
    using ListExpiredAZs_exact [OF 1 2 n, of "''az2''"] by auto
  then have "''az1'' \<in> set azs" by (simp add: lease_a_def leaseName_def IsExpired_def)
  then show ?thesis by (simp add: azs)
qed

end
