(* ===== verification/Peer_Protocol.thy ===== *)
theory Peer_Protocol
  imports Go_Base "HOL-Library.Word"
begin

text \<open>
  \<open>internal/peer/protocol.go\<close>: the nine-byte frame of the peer heartbeat. Bytes are
  \<open>8 word\<close>, the timestamp is the signed 64-bit Unix time in nanoseconds, carried as
  the \<open>64 word\<close> that \<open>uint64(m.Timestamp)\<close> and \<open>int64(...)\<close> convert without loss.
\<close>

type_synonym byte = "8 word"

definition MsgPing :: byte where "MsgPing = 1"
definition MsgPong :: byte where "MsgPong = 2"
definition MsgStepDown :: byte where "MsgStepDown = 3"

definition msgSize :: nat where "msgSize = 9"

record message =
  Type :: byte
  Timestamp :: "64 word"

text \<open>\<open>binary.BigEndian.PutUint64\<close> and \<open>binary.BigEndian.Uint64\<close>.\<close>

definition PutUint64 :: "64 word \<Rightarrow> byte list" where
  "PutUint64 v = map (\<lambda>i. ucast (drop_bit (8 * i) v)) [7, 6, 5, 4, 3, 2, 1, 0]"

definition Uint64 :: "byte list \<Rightarrow> 64 word" where
  "Uint64 b = foldl (\<lambda>acc x. push_bit 8 acc + ucast x) 0 (take 8 b)"

definition Encode :: "message \<Rightarrow> byte list" where
  "Encode m = Type m # PutUint64 (Timestamp m)"

definition Decode :: "byte list \<Rightarrow> message result" where
  "Decode buf =
     (if length buf < msgSize then Inl (Msg (''short message: '' @ itoa (length buf) @ '' bytes''))
      else Inr \<lparr>Type = hd buf, Timestamp = Uint64 (tl buf)\<rparr>)"

section \<open>The frame\<close>

lemma length_PutUint64: "length (PutUint64 v) = 8"
  by (simp add: PutUint64_def)

lemma length_Encode: "length (Encode m) = msgSize"
  by (simp add: Encode_def length_PutUint64 msgSize_def)

lemma join_byte: "push_bit 8 (drop_bit (n + 8) v) + ucast (ucast (drop_bit n v) :: byte) = drop_bit n v"
  for v :: "64 word"
proof -
  have "ucast (ucast (drop_bit n v) :: byte) = take_bit 8 (drop_bit n v)"
    by (rule bit_word_eqI) (auto simp: bit_simps)
  moreover have "drop_bit (n + 8) v = drop_bit 8 (drop_bit n v)"
    by (simp add: ac_simps)
  ultimately show ?thesis by (simp only: bits_ident)
qed

lemma Uint64_Put: "Uint64 (PutUint64 v) = v"
proof -
  have top: "ucast (ucast (drop_bit 56 v) :: byte) = drop_bit 56 v"
    by (rule bit_word_eqI) (auto simp: bit_simps dest: bit_imp_le_length)
  show ?thesis
    using join_byte [of 48 v] join_byte [of 40 v] join_byte [of 32 v] join_byte [of 24 v]
      join_byte [of 16 v] join_byte [of 8 v] join_byte [of 0 v]
    by (simp add: Uint64_def PutUint64_def top)
qed

lemma PutUint64_surj:
  assumes "length b = 8"
  shows "\<exists>v. b = PutUint64 v"
proof -
  let ?L = "{b :: byte list. set b \<subseteq> UNIV \<and> length b = 8}"
  have "inj PutUint64"
    by (rule inj_on_inverseI [where g = Uint64]) (simp add: Uint64_Put)
  then have "card (range PutUint64) = 2 ^ 64"
    by (simp add: card_image card_word)
  moreover have "card ?L = 2 ^ 64"
    by (subst card_lists_length_eq) (simp_all add: card_word)
  moreover have "range PutUint64 \<subseteq> ?L"
    by (auto simp: length_PutUint64)
  moreover have "finite ?L"
    by (rule finite_lists_length_eq) simp
  ultimately have "range PutUint64 = ?L"
    by (intro card_subset_eq) simp_all
  with assms show ?thesis by blast
qed

lemma Put_Uint64: "length b = 8 \<Longrightarrow> PutUint64 (Uint64 b) = b"
  using PutUint64_surj [of b] by (auto simp: Uint64_Put)

lemma Decode_Encode_append: "Decode (Encode m @ rest) = Inr m"
  using Uint64_Put [of "Timestamp m"]
  by (simp add: Decode_def Encode_def length_PutUint64 msgSize_def Uint64_def)

lemma Encode_Decode: "length buf = msgSize \<Longrightarrow> Decode buf = Inr m \<Longrightarrow> Encode m = buf"
  by (cases buf) (auto simp: Decode_def Encode_def msgSize_def Put_Uint64)

lemma Decode_full: "msgSize \<le> length buf \<Longrightarrow>
    Decode buf = Inr \<lparr>Type = hd buf, Timestamp = Uint64 (tl buf)\<rparr>"
  by (simp add: Decode_def)

lemma Decode_short: "length buf < msgSize \<Longrightarrow> \<exists>e. Decode buf = Inl e"
  by (simp add: Decode_def)

section \<open>Frames on a stream\<close>

text \<open>
  \<open>io.ReadFull(conn, buf)\<close> with a buffer of \<open>n\<close> bytes, repeated until the stream
  runs out: the whole frames of the stream, in order.
\<close>

function read_frames :: "nat \<Rightarrow> 'b list \<Rightarrow> 'b list list" where
  "read_frames n s = (if n = 0 \<or> length s < n then [] else take n s # read_frames n (drop n s))"
  by pat_completeness auto
termination
  by (relation "measure (\<lambda>(n, s). length s)") auto

declare read_frames.simps [simp del]

text \<open>
  What the two ends of a connection rely on: frames of one size, and a decoder that
  inverts the encoder on every full buffer.
\<close>

locale frame_codec =
  fixes encode :: "'m \<Rightarrow> 'b list"
    and decode :: "'b list \<Rightarrow> 'm result"
    and size :: nat
  assumes size_pos: "0 < size"
    and length_encode: "length (encode m) = size"
    and decode_encode: "decode (encode m @ rest) = Inr m"
    and encode_decode: "length b = size \<Longrightarrow> decode b = Inr m \<Longrightarrow> encode m = b"
    and decode_total: "size \<le> length b \<Longrightarrow> is_ok (decode b)"
begin

lemma read_frames_Nil [simp]: "read_frames size [] = []"
  using size_pos by (subst read_frames.simps) simp

lemma read_frames_encode: "read_frames size (encode m @ s) = encode m # read_frames size s"
  using size_pos by (subst read_frames.simps) (simp add: length_encode)

lemma read_frames_stream: "read_frames size (concat (map encode ms)) = map encode ms"
  by (induction ms) (auto simp: read_frames_encode)

lemma decode_frame: "decode (encode m) = Inr m"
  using decode_encode [of m "[]"] by simp

lemma decode_stream: "map decode (read_frames size (concat (map encode ms))) = map Inr ms"
  by (induction ms) (simp_all add: read_frames_encode decode_frame)

lemma encode_inj: "encode m = encode m' \<longleftrightarrow> m = m'"
  by (metis decode_frame sum.inject(2))

lemma full_frame_is_encoded: "length b = size \<Longrightarrow> \<exists>m. b = encode m"
  by (metis decode_total encode_decode is_ok.elims(2) order_refl)

end

interpretation peer_frame: frame_codec Encode Decode msgSize
  by unfold_locales
    (simp_all add: msgSize_def length_Encode [unfolded msgSize_def] Decode_Encode_append
      Encode_Decode [unfolded msgSize_def] Decode_full [unfolded msgSize_def])

end
