(* ===== verification/Peer_Session.thy ===== *)
theory Peer_Session
  imports Peer_Protocol
begin

text \<open>
  \<open>internal/peer/server.go\<close> and \<open>internal/peer/client.go\<close>: the two ends of a heartbeat
  connection. The server is a function from the bytes that reach a connection before its
  first read error to the bytes it writes back. The client is driven by what happens at each
  tick of its ticker, and by what happens at each turn of its dial loop; a result of
  \<open>None\<close> means that the loop is still running when the events end. The times that
  \<open>time.Now().UnixNano()\<close> puts into messages are arguments.
\<close>

section \<open>The server's side of a connection\<close>

text \<open>
  A read fails when the stream ends, or is silent for five seconds; the handler then
  returns. Errors of \<open>conn.Write\<close> are ignored by the code.
\<close>

function handleConn :: "(nat \<Rightarrow> 64 word) \<Rightarrow> nat \<Rightarrow> byte list \<Rightarrow> byte list" where
  "handleConn clk k inp =
     (if length inp < msgSize then []
      else case Decode (take msgSize inp) of
        Inl _ \<Rightarrow> []
      | Inr msg \<Rightarrow>
          if Type msg = MsgPing then
            Encode \<lparr>Type = MsgPong, Timestamp = clk k\<rparr> @ handleConn clk (Suc k) (drop msgSize inp)
          else if Type msg = MsgStepDown then []
          else handleConn clk k (drop msgSize inp))"
  by pat_completeness auto
termination
  by (relation "measure (\<lambda>(clk, k, inp). length inp)") (auto simp: msgSize_def)

declare handleConn.simps [simp del]

datatype 'c accept_event = Accepted 'c | AcceptFails | AcceptFailsDone

text \<open>The accept loop: the connections it hands to \<open>handleConn\<close>, and whether it has returned.\<close>

fun Serve :: "'c accept_event list \<Rightarrow> 'c list \<times> bool" where
  "Serve [] = ([], False)"
| "Serve (Accepted c # es) = (case Serve es of (cs, fin) \<Rightarrow> (c # cs, fin))"
| "Serve (AcceptFails # es) = Serve es"
| "Serve (AcceptFailsDone # es) = ([], True)"

section \<open>The client's heartbeat\<close>

datatype heartbeatResult = heartbeatLost | heartbeatStepDown

text \<open>
  What one turn of the heartbeat loop meets: the context is done, the ping cannot be
  written, no full frame arrives before the deadline, or \<open>io.ReadFull\<close> fills the buffer.
\<close>

datatype hb_event = CtxDone | WriteFails | ReadFails | Reads "byte list"

fun heartbeat_loop :: "int \<Rightarrow> int \<Rightarrow> hb_event list \<Rightarrow> heartbeatResult option" where
  "heartbeat_loop pf failures [] = None"
| "heartbeat_loop pf failures (CtxDone # es) = Some heartbeatLost"
| "heartbeat_loop pf failures (WriteFails # es) =
     (if failures + 1 \<ge> pf then Some heartbeatLost else heartbeat_loop pf (failures + 1) es)"
| "heartbeat_loop pf failures (ReadFails # es) =
     (if failures + 1 \<ge> pf then Some heartbeatLost else heartbeat_loop pf (failures + 1) es)"
| "heartbeat_loop pf failures (Reads buf # es) =
     (case Decode buf of
        Inl _ \<Rightarrow> heartbeat_loop pf (failures + 1) es
      | Inr msg \<Rightarrow>
          if Type msg = MsgPong then heartbeat_loop pf 0 es
          else if Type msg = MsgStepDown then Some heartbeatStepDown
          else heartbeat_loop pf failures es)"

definition runHeartbeat :: "int \<Rightarrow> hb_event list \<Rightarrow> heartbeatResult option" where
  "runHeartbeat pf es = heartbeat_loop pf 0 es"

section \<open>The client's dial loop\<close>

datatype attempt = CancelledBeforeDial | DialFails | Dialed "hb_event list"

datatype connect_result = Cancelled | OnFailure | OnStepDown

fun connect_loop :: "int \<Rightarrow> int \<Rightarrow> attempt list \<Rightarrow> connect_result option" where
  "connect_loop pf failures [] = None"
| "connect_loop pf failures (CancelledBeforeDial # as) = Some Cancelled"
| "connect_loop pf failures (DialFails # as) =
     (let failures = failures + 1 in
      if failures \<ge> pf then Some OnFailure else connect_loop pf failures as)"
| "connect_loop pf failures (Dialed es # as) =
     (let failures = 0 in
      case runHeartbeat pf es of
        None \<Rightarrow> None
      | Some heartbeatStepDown \<Rightarrow> Some OnStepDown
      | Some heartbeatLost \<Rightarrow>
          let failures = failures + 1 in
          if failures \<ge> pf then Some OnFailure else connect_loop pf failures as)"

definition Connect :: "int \<Rightarrow> attempt list \<Rightarrow> connect_result option" where
  "Connect pf as = connect_loop pf 0 as"

text \<open>
  \<open>SendStepDown\<close>: the bytes written to the current connection, or none when there is no
  connection. They travel to the peer's \<open>handleConn\<close>.
\<close>

definition SendStepDown :: "64 word \<Rightarrow> byte list option \<Rightarrow> byte list option" where
  "SendStepDown now conn =
     map_option (\<lambda>written. written @ Encode \<lparr>Type = MsgStepDown, Timestamp = now\<rparr>) conn"

section \<open>The server answers pings, and never says anything but pong\<close>

lemma handleConn_Nil [simp]: "handleConn clk k [] = []"
  by (subst handleConn.simps) (simp add: msgSize_def)

lemma handleConn_frame: "handleConn clk k (Encode m @ s) =
    (if Type m = MsgPing then
       Encode \<lparr>Type = MsgPong, Timestamp = clk k\<rparr> @ handleConn clk (Suc k) s
     else if Type m = MsgStepDown then [] else handleConn clk k s)"
  by (subst handleConn.simps) (simp add: length_Encode peer_frame.decode_frame)

lemma msg_types_distinct [simp]:
  "MsgPing \<noteq> MsgPong" "MsgPong \<noteq> MsgPing" "MsgStepDown \<noteq> MsgPong" "MsgPong \<noteq> MsgStepDown"
  "MsgPing \<noteq> MsgStepDown" "MsgStepDown \<noteq> MsgPing"
  by (simp_all add: MsgPing_def MsgPong_def MsgStepDown_def)

abbreviation pong :: "64 word \<Rightarrow> message" where
  "pong t \<equiv> \<lparr>Type = MsgPong, Timestamp = t\<rparr>"

lemma handleConn_pongs: "\<exists>ts. handleConn clk k inp = concat (map Encode (map pong ts))"
proof (induction clk k inp rule: handleConn.induct)
  case (1 clk k inp)
  show ?case
  proof (cases "length inp < msgSize")
    case True
    then show ?thesis by (subst handleConn.simps) (auto intro: exI [of _ "[]"])
  next
    case False
    then obtain m where m: "take msgSize inp = Encode m"
      using peer_frame.full_frame_is_encoded [of "take msgSize inp"] by auto
    have d: "Decode (take msgSize inp) = Inr m"
      by (simp add: m peer_frame.decode_frame)
    have step: "handleConn clk k inp =
      (if Type m = MsgPing then Encode (pong (clk k)) @ handleConn clk (Suc k) (drop msgSize inp)
       else if Type m = MsgStepDown then [] else handleConn clk k (drop msgSize inp))"
      using handleConn_frame [of clk k m "drop msgSize inp"]
      by (simp add: m [symmetric])
    consider "Type m = MsgPing" | "Type m = MsgStepDown"
      | "Type m \<noteq> MsgPing" "Type m \<noteq> MsgStepDown" by blast
    then show ?thesis
    proof cases
      case 1
      then obtain ts where "handleConn clk (Suc k) (drop msgSize inp) = concat (map Encode (map pong ts))"
        using "1.IH"(1) [OF False d] by blast
      with 1 have "handleConn clk k inp = concat (map Encode (map pong (clk k # ts)))"
        by (simp add: step)
      then show ?thesis by blast
    next
      case 2
      then show ?thesis by (auto simp: step intro: exI [of _ "[]"])
    next
      case 3
      then show ?thesis using "1.IH"(2) [OF False d] by (simp add: step)
    qed
  qed
qed

lemma server_frames_decode_to_pong:
  assumes "b \<in> set (read_frames msgSize (handleConn clk k inp))"
  shows "\<exists>t. Decode b = Inr (pong t)"
proof -
  obtain ts where "handleConn clk k inp = concat (map Encode (map pong ts))"
    using handleConn_pongs by blast
  with assms have "b \<in> set (map Encode (map pong ts))"
    by (simp only: peer_frame.read_frames_stream)
  then show ?thesis by (auto simp: peer_frame.decode_frame)
qed

lemma handleConn_pings:
  "handleConn clk k (concat (map Encode (map (\<lambda>t. \<lparr>Type = MsgPing, Timestamp = t\<rparr>) ts))) =
   concat (map Encode (map (\<lambda>i. pong (clk i)) [k..<k + length ts]))"
proof (induction ts arbitrary: k)
  case (Cons t ts)
  have "[k..<k + length (t # ts)] = k # [Suc k..<Suc k + length ts]"
    by (simp add: upt_conv_Cons del: upt_Suc)
  with Cons.IH [of "Suc k"] show ?case
    by (simp add: handleConn_frame del: upt_Suc)
qed simp

section \<open>What the heartbeat counts\<close>

text \<open>
  The reference reading of the counter: the missed probes since the last pong. Frames of
  other kinds neither count nor reset.
\<close>

fun is_pong :: "hb_event \<Rightarrow> bool" where
  "is_pong (Reads buf) = (case Decode buf of Inr msg \<Rightarrow> Type msg = MsgPong | Inl _ \<Rightarrow> False)"
| "is_pong _ = False"

fun is_miss :: "hb_event \<Rightarrow> bool" where
  "is_miss WriteFails = True"
| "is_miss ReadFails = True"
| "is_miss _ = False"

definition missed :: "hb_event list \<Rightarrow> nat" where
  "missed es = length (filter is_miss (takeWhile (\<lambda>e. \<not> is_pong e) (rev es)))"

text \<open>An event of a live session: no cancellation, full frames only, no step-down.\<close>

fun ordinary :: "hb_event \<Rightarrow> bool" where
  "ordinary CtxDone = False"
| "ordinary (Reads buf) =
     (length buf = msgSize \<and> (\<forall>msg. Decode buf = Inr msg \<longrightarrow> Type msg \<noteq> MsgStepDown))"
| "ordinary _ = True"

lemma missed_Nil [simp]: "missed [] = 0"
  by (simp add: missed_def)

lemma missed_snoc: "missed (es @ [e]) = (if is_pong e then 0 else missed es + (if is_miss e then 1 else 0))"
  by (simp add: missed_def)

lemma all_le_Suc: "(\<forall>k \<le> Suc n. P k) \<longleftrightarrow> P 0 \<and> (\<forall>k \<le> n. P (Suc k))"
  by (metis Suc_le_mono le0 not0_implies_Suc)

lemma heartbeat_loop_missed:
  assumes "list_all ordinary es" and "int (missed hist) < pf"
  shows "heartbeat_loop pf (int (missed hist)) es = None \<longleftrightarrow>
    (\<forall>k \<le> length es. int (missed (hist @ take k es)) < pf)"
  using assms
proof (induction es arbitrary: hist)
  case (Cons e es)
  let ?h = "hist @ [e]"
  have all: "(\<forall>k \<le> length (e # es). int (missed (hist @ take k (e # es))) < pf) \<longleftrightarrow>
      (\<forall>k \<le> length es. int (missed (?h @ take k es)) < pf)"
    using Cons.prems(2) by (simp add: all_le_Suc)
  have first: "(\<forall>k \<le> length es. int (missed (?h @ take k es)) < pf) \<Longrightarrow> int (missed ?h) < pf"
    by (drule spec [of _ 0]) simp
  have IH: "int (missed ?h) < pf \<Longrightarrow> heartbeat_loop pf (int (missed ?h)) es = None \<longleftrightarrow>
      (\<forall>k \<le> length es. int (missed (?h @ take k es)) < pf)"
    using Cons.IH [of ?h] Cons.prems(1) by simp
  have ord: "ordinary e" using Cons.prems(1) by simp
  show ?case
  proof (cases e)
    case (Reads buf)
    with ord have len: "length buf = msgSize" by simp
    then obtain m where m: "Decode buf = Inr m" by (simp add: Decode_full)
    with ord Reads have "Type m \<noteq> MsgStepDown" by simp
    with IH all Cons.prems(2) Reads m show ?thesis
      by (auto simp: missed_snoc)
  qed (use ord IH all first in \<open>auto simp: missed_snoc add.commute\<close>)
qed simp

lemma runHeartbeat_counts_misses:
  assumes "list_all ordinary es" and "1 \<le> pf"
  shows "runHeartbeat pf es = None \<longleftrightarrow> (\<forall>k \<le> length es. int (missed (take k es)) < pf)"
  using heartbeat_loop_missed [of es "[]" pf] assms by (simp add: runHeartbeat_def)

section \<open>A lost session, a dead host, a hung peer\<close>

lemma heartbeat_loop_lost:
  assumes "list_all is_miss es" and "int (length es) = pf - f" and "es \<noteq> []"
  shows "heartbeat_loop pf f (es @ rest) = Some heartbeatLost"
  using assms
proof (induction es arbitrary: f)
  case (Cons e es)
  then show ?case by (cases es; cases e) auto
qed simp

lemma runHeartbeat_lost:
  assumes "1 \<le> pf" and "list_all is_miss es" and "int (length es) = pf"
  shows "runHeartbeat pf (es @ rest) = Some heartbeatLost"
  using assms heartbeat_loop_lost [of es pf 0 rest] by (cases es) (auto simp: runHeartbeat_def)

lemma connect_loop_dial_fails:
  "0 < n \<Longrightarrow> connect_loop pf f (replicate n DialFails @ as) =
    (if f + int n < pf then connect_loop pf (f + int n) as else Some OnFailure)"
proof (induction n arbitrary: f)
  case (Suc n)
  show ?case
  proof (cases "n = 0")
    case False
    with Suc.IH [of "f + 1"] show ?thesis by (auto simp: Let_def algebra_simps)
  qed (simp add: Let_def)
qed simp

lemma connect_loop_lost_sessions:
  assumes "2 \<le> pf" and "\<forall>a \<in> set as. \<exists>es. a = Dialed es \<and> runHeartbeat pf es = Some heartbeatLost"
  shows "connect_loop pf f as = None"
  using assms
proof (induction as arbitrary: f)
  case (Cons a as)
  then obtain es where "a = Dialed es" "runHeartbeat pf es = Some heartbeatLost" by auto
  with Cons show ?case by (simp add: Let_def)
qed simp

lemma heartbeat_loop_no_stepdown:
  assumes "\<And>buf. Reads buf \<in> set es \<Longrightarrow> \<exists>t. Decode buf = Inr (pong t)"
  shows "heartbeat_loop pf f es \<noteq> Some heartbeatStepDown"
  using assms
proof (induction pf f es rule: heartbeat_loop.induct)
  case (5 pf f buf es)
  from "5.prems" [of buf] obtain t where "Decode buf = Inr (pong t)" by auto
  with 5 show ?case by auto
qed auto

end
