(* ===== verification/Peer_Properties.thy ===== *)
theory Peer_Properties
  imports Peer_Session
begin

text \<open>
  The properties of \<open>internal/peer\<close>: the wire format, what makes a session end, when a peer is
  declared dead, and what a client can hear from a server.
\<close>

text \<open>
  C28: A message survives encoding and decoding, whatever follows it in the buffer; a
  buffer of at least nine bytes always decodes, to the message its first nine bytes
  encode; a shorter one is an error.
\<close>

theorem wire_roundtrip:
  "Decode (Encode m @ rest) = Inr m \<and>
   (if length buf < msgSize then \<exists>e. Decode buf = Inl e
    else \<exists>m. Decode buf = Inr m \<and> Encode m = take msgSize buf)"
proof (cases "length buf < msgSize")
  case True
  then show ?thesis by (simp add: Decode_Encode_append Decode_short)
next
  case False
  then have "length (take msgSize buf) = msgSize" by simp
  then obtain m where m: "take msgSize buf = Encode m" using peer_frame.full_frame_is_encoded by blast
  have "Decode (Encode m @ drop msgSize buf) = Inr m" by (rule Decode_Encode_append)
  then have "Decode buf = Inr m" by (simp add: m [symmetric])
  with m False show ?thesis by (auto simp: Decode_Encode_append)
qed

text \<open>
  C29: A session on which only full frames arrive, without step-down and without
  cancellation, goes on exactly as long as fewer than \<open>ProbeFailures\<close> probes have been missed
  since the last pong.
\<close>

theorem heartbeat_counts_misses:
  assumes "list_all ordinary es" and "1 \<le> pf"
  shows "runHeartbeat pf es = None \<longleftrightarrow> (\<forall>k \<le> length es. int (missed (take k es)) < pf)"
  by (rule runHeartbeat_counts_misses [OF assms])

theorem heartbeat_counts_misses_witness:
  "runHeartbeat 2 [ReadFails, ReadFails] \<noteq> None"
proof -
  have "missed (take 2 [ReadFails, ReadFails]) = 2" by (simp add: missed_def)
  then have "\<not> (\<forall>k \<le> length [ReadFails, ReadFails]. int (missed (take k [ReadFails, ReadFails])) < 2)"
    by (intro notI) (drule spec [of _ 2], simp)
  with heartbeat_counts_misses [of "[ReadFails, ReadFails]" 2] show ?thesis by simp
qed

text \<open>
  C30: A host that refuses connections is declared dead after \<open>ProbeFailures\<close> dials. A
  peer that accepts connections but never answers is not: with two failures or more required,
  no number of lost sessions in a row ends the client, because each dial resets the count.
\<close>

theorem death_needs_refused_dials:
  assumes "2 \<le> pf"
  shows "Connect pf (replicate (nat pf) DialFails @ as) = Some OnFailure \<and>
    Connect pf (replicate n (Dialed (replicate (nat pf) ReadFails))) = None"
proof
  show "Connect pf (replicate (nat pf) DialFails @ as) = Some OnFailure"
    using assms connect_loop_dial_fails [of "nat pf" pf 0 as] by (simp add: Connect_def)
  have "runHeartbeat pf (replicate (nat pf) ReadFails @ []) = Some heartbeatLost"
    by (rule runHeartbeat_lost) (use assms in \<open>auto simp: list_all_iff\<close>)
  then have "runHeartbeat pf (replicate (nat pf) ReadFails) = Some heartbeatLost" by simp
  then show "Connect pf (replicate n (Dialed (replicate (nat pf) ReadFails))) = None"
    using connect_loop_lost_sessions [OF assms, of "replicate n (Dialed (replicate (nat pf) ReadFails))" 0]
    unfolding Connect_def by auto
qed

theorem death_needs_refused_dials_witness:
  "Connect 2 (replicate 2 DialFails) = Some OnFailure \<and>
   Connect 2 (replicate 100 (Dialed (replicate 2 ReadFails))) = None"
  using death_needs_refused_dials [of 2 "[]" 100] by (simp only: append_Nil2 nat_numeral)

text \<open>
  C31: Every frame a server writes is a pong, one per ping in order, so a session that
  reads its frames never ends by a step-down, whatever was sent to the server. A step-down a
  client sends only makes the peer's server close the connection.
\<close>

theorem clients_hear_only_pongs:
  assumes "\<And>buf. Reads buf \<in> set es \<Longrightarrow> \<exists>clk k inp. buf \<in> set (read_frames msgSize (handleConn clk k inp))"
  shows "runHeartbeat pf es \<noteq> Some heartbeatStepDown \<and>
    handleConn clk k (concat (map Encode (map (\<lambda>t. \<lparr>Type = MsgPing, Timestamp = t\<rparr>) ts))) =
      concat (map Encode (map (\<lambda>i. pong (clk i)) [k..<k + length ts])) \<and>
    handleConn clk k (Encode \<lparr>Type = MsgStepDown, Timestamp = t\<rparr> @ rest) = []"
proof (intro conjI)
  have "\<exists>t. Decode buf = Inr (pong t)" if "Reads buf \<in> set es" for buf
    using assms [OF that] server_frames_decode_to_pong by blast
  then show "runHeartbeat pf es \<noteq> Some heartbeatStepDown"
    unfolding runHeartbeat_def by (rule heartbeat_loop_no_stepdown)
qed (rule handleConn_pings, simp add: handleConn_frame)

theorem clients_hear_only_pongs_witness:
  "runHeartbeat 1 [Reads (Encode (pong 7)), ReadFails] \<noteq> Some heartbeatStepDown"
proof -
  have p: "\<exists>clk k inp. buf \<in> set (read_frames msgSize (handleConn clk k inp))"
    if "Reads buf \<in> set [Reads (Encode (pong 7)), ReadFails]" for buf
  proof (intro exI)
    have "handleConn (\<lambda>_. 7) 0 (Encode \<lparr>Type = MsgPing, Timestamp = 3\<rparr> @ []) = concat (map Encode [pong 7])"
      by (subst handleConn_frame) simp
    then have "read_frames msgSize (handleConn (\<lambda>_. 7) 0 (Encode \<lparr>Type = MsgPing, Timestamp = 3\<rparr> @ [])) = [Encode (pong 7)]"
      by (simp only: peer_frame.read_frames_stream) simp
    with that show "buf \<in> set (read_frames msgSize (handleConn (\<lambda>_. 7) 0 (Encode \<lparr>Type = MsgPing, Timestamp = 3\<rparr> @ [])))"
      by simp
  qed
  from clients_hear_only_pongs [of "[Reads (Encode (pong 7)), ReadFails]" 1, OF p] show ?thesis by blast
qed

end
