(* ===== verification/Config.thy ===== *)
theory Config
  imports Go_Base
begin

text \<open>
  \<open>internal/config/config.go\<close>: the configuration read from the environment, and the
  renewal interval derived from it. The environment is a function from names to values
  (\<open>os.Getenv\<close>, empty when unset). A \<open>time.Duration\<close> is a number of nanoseconds, and the
  parsers of \<open>time\<close> and \<open>strconv\<close> that the code calls are written out.
\<close>

section \<open>Parsing\<close>

definition ParseBool :: "string \<Rightarrow> bool result" where
  "ParseBool s =
     (if s \<in> {''1'', ''t'', ''T'', ''true'', ''TRUE'', ''True''} then Inr True
      else if s \<in> {''0'', ''f'', ''F'', ''false'', ''FALSE'', ''False''} then Inr False
      else Inl (Msg ''invalid syntax''))"

definition nanosecond :: int where "nanosecond = 1"
definition millisecond :: int where "millisecond = 1000000"
definition second :: int where "second = 1000000000"

lemmas time_units = nanosecond_def millisecond_def second_def

definition duration_unit :: "string \<Rightarrow> nat option" where
  "duration_unit u =
     (if u = ''ns'' then Some 1
      else if u \<in> {''us'', [CHR 0xC2, CHR 0xB5, CHR ''s''], [CHR 0xCE, CHR 0xBC, CHR ''s'']} then Some 1000
      else if u = ''ms'' then Some 1000000
      else if u = ''s'' then Some 1000000000
      else if u = ''m'' then Some (60 * 1000000000)
      else if u = ''h'' then Some (3600 * 1000000000)
      else None)"

text \<open>
  The digits after the point: their value and scale, cut off once the value would pass 63
  bits. The product with the unit is exact here; the library computes it in \<open>float64\<close>.
\<close>

fun fraction :: "nat \<Rightarrow> nat \<Rightarrow> string \<Rightarrow> nat \<times> nat" where
  "fraction f scale [] = (f, scale)"
| "fraction f scale (c # s) =
     (if f > (2 ^ 63 - 1) div 10 \<or> 10 * f + digit_val c > 2 ^ 63 then (f, scale)
      else fraction (10 * f + digit_val c) (10 * scale) s)"

definition number_char :: "char \<Rightarrow> bool" where
  "number_char c \<longleftrightarrow> c = CHR ''.'' \<or> is_digit c"

text \<open>One \<open>number unit\<close> group at the head of the string: its nanoseconds, and the rest.\<close>

definition duration_group :: "string \<Rightarrow> (nat \<times> string) result" where
  "duration_group s =
     (let ds = takeWhile is_digit s; s1 = dropWhile is_digit s;
          point = s1 \<noteq> [] \<and> hd s1 = CHR ''.'';
          fs = (if point then takeWhile is_digit (tl s1) else []);
          s2 = (if point then dropWhile is_digit (tl s1) else s1);
          u = takeWhile (\<lambda>c. \<not> number_char c) s2; rest = dropWhile (\<lambda>c. \<not> number_char c) s2;
          v = dec_val 0 ds
      in if (ds = [] \<and> fs = []) \<or> v > 2 ^ 63 \<or> u = [] then Inl (Msg ''invalid duration'')
         else case duration_unit u of
           None \<Rightarrow> Inl (Msg ''unknown unit'')
         | Some n \<Rightarrow>
             if v > 2 ^ 63 div n then Inl (Msg ''invalid duration'')
             else case fraction 0 1 fs of (f, scale) \<Rightarrow>
               let w = v * n + f * n div scale in
               if w > 2 ^ 63 then Inl (Msg ''invalid duration'') else Inr (w, rest))"

lemma duration_group_shorter:
  assumes "duration_group s = Inr (v, rest)"
  shows "length rest < length s"
proof -
  let ?s1 = "dropWhile is_digit s"
  let ?p = "?s1 \<noteq> [] \<and> hd ?s1 = CHR ''.''"
  let ?s2 = "if ?p then dropWhile is_digit (tl ?s1) else ?s1"
  let ?u = "takeWhile (\<lambda>c. \<not> number_char c) ?s2"
  have rest: "rest = dropWhile (\<lambda>c. \<not> number_char c) ?s2" and u: "?u \<noteq> []"
    using assms by (auto simp: duration_group_def Let_def split: if_splits option.splits prod.splits)
  have "length ?u + length rest = length ?s2"
    unfolding rest by (metis length_append takeWhile_dropWhile_id)
  moreover have "length ?s2 \<le> length s"
    using length_dropWhile_le [of is_digit s] length_dropWhile_le [of is_digit "tl ?s1"] by auto
  ultimately show ?thesis using u by (cases ?u) auto
qed

function duration_sum :: "nat \<Rightarrow> string \<Rightarrow> nat result" where
  "duration_sum d s =
     (if s = [] then Inr d
      else case duration_group s of
        Inl e \<Rightarrow> Inl e
      | Inr (v, rest) \<Rightarrow>
          if d + v > 2 ^ 63 then Inl (Msg ''invalid duration'') else duration_sum (d + v) rest)"
  by pat_completeness auto
termination
  by (relation "measure (\<lambda>(d, s). length s)") (auto intro: duration_group_shorter)

declare duration_sum.simps [simp del]

fun ParseDuration :: "string \<Rightarrow> int result" where
  "ParseDuration [] = Inl (Msg ''invalid duration'')"
| "ParseDuration (c # s) =
     (let neg = (c = CHR ''-''); t = (if c = CHR ''-'' \<or> c = CHR ''+'' then s else c # s) in
      if t = ''0'' then Inr 0
      else if t = [] then Inl (Msg ''invalid duration'')
      else case duration_sum 0 t of
        Inl e \<Rightarrow> Inl e
      | Inr d \<Rightarrow>
          if neg then Inr (- int d)
          else if d > 2 ^ 63 - 1 then Inl (Msg ''invalid duration'') else Inr (int d))"

section \<open>The environment\<close>

type_synonym environ = "string \<Rightarrow> string"

definition getEnv :: "environ \<Rightarrow> string \<Rightarrow> string \<Rightarrow> string" where
  "getEnv env key d = (if env key \<noteq> '''' then env key else d)"

definition getIntEnv :: "environ \<Rightarrow> string \<Rightarrow> int \<Rightarrow> int" where
  "getIntEnv env key d =
     (if env key \<noteq> '''' then (case Atoi (env key) of Inr n \<Rightarrow> n | Inl _ \<Rightarrow> d) else d)"

definition getDurationEnv :: "environ \<Rightarrow> string \<Rightarrow> int \<Rightarrow> int" where
  "getDurationEnv env key d =
     (if env key \<noteq> '''' then (case ParseDuration (env key) of Inr n \<Rightarrow> n | Inl _ \<Rightarrow> d) else d)"

definition getBoolEnv :: "environ \<Rightarrow> string \<Rightarrow> bool \<Rightarrow> bool" where
  "getBoolEnv env key d =
     (if env key \<noteq> '''' then (case ParseBool (env key) of Inr b \<Rightarrow> b | Inl _ \<Rightarrow> d) else d)"

section \<open>The configuration\<close>

record config =
  Mode :: string
  AZLabel :: string
  LeaseDuration :: int
  ProbeInterval :: int
  ProbeFailures :: int
  ReconcileInterval :: int
  MetricsPort :: int
  PeerPort :: int
  ConntrackMax :: int
  IPLocalPortRange :: string
  TagPrefix :: string
  DiscoveryValue :: string
  Namespace :: string
  ScrapeInterval :: int
  DashboardPort :: int
  ServerVersion :: string
  StandDownOnDrain :: bool
  DrainPollInterval :: int
  ResetStaleFlows :: bool

definition from_env :: "environ \<Rightarrow> config" where
  "from_env env =
     \<lparr>Mode = getEnv env ''KUBE_NAT_MODE'' ''auto'',
      AZLabel = getEnv env ''KUBE_NAT_AZ_LABEL'' ''topology.kubernetes.io/zone'',
      LeaseDuration = getDurationEnv env ''KUBE_NAT_LEASE_DURATION'' (30 * second),
      ProbeInterval = getDurationEnv env ''KUBE_NAT_PROBE_INTERVAL'' (200 * millisecond),
      ProbeFailures = getIntEnv env ''KUBE_NAT_PROBE_FAILURES'' 2,
      ReconcileInterval = getDurationEnv env ''KUBE_NAT_RECONCILE_INTERVAL'' (30 * second),
      MetricsPort = getIntEnv env ''KUBE_NAT_METRICS_PORT'' 9100,
      PeerPort = getIntEnv env ''KUBE_NAT_PEER_PORT'' 9101,
      ConntrackMax = getIntEnv env ''KUBE_NAT_CONNTRACK_MAX'' 0,
      IPLocalPortRange = getEnv env ''KUBE_NAT_IP_LOCAL_PORT_RANGE'' '''',
      TagPrefix = getEnv env ''KUBE_NAT_TAG_PREFIX'' ''kube-nat'',
      DiscoveryValue = getEnv env ''KUBE_NAT_DISCOVERY'' '''',
      Namespace = getEnv env ''POD_NAMESPACE'' ''kube-system'',
      ScrapeInterval = getDurationEnv env ''KUBE_NAT_SCRAPE_INTERVAL'' (5 * second),
      DashboardPort = getIntEnv env ''KUBE_NAT_DASHBOARD_PORT'' 8080,
      ServerVersion = getEnv env ''KUBE_NAT_SERVER_VERSION'' ''dev'',
      StandDownOnDrain = getBoolEnv env ''KUBE_NAT_STAND_DOWN_ON_DRAIN'' True,
      DrainPollInterval = getDurationEnv env ''KUBE_NAT_DRAIN_POLL_INTERVAL'' (5 * second),
      ResetStaleFlows = getBoolEnv env ''KUBE_NAT_RESET_STALE_FLOWS'' True\<rparr>"

definition Load :: "environ \<Rightarrow> config result" where
  "Load env =
     (let cfg = from_env env in
      if Mode cfg \<noteq> ''auto'' \<and> Mode cfg \<noteq> ''manual''
      then Inl (Msg ''KUBE_NAT_MODE must be auto or manual'')
      else if LeaseDuration cfg \<le> 0 then Inl (Msg ''KUBE_NAT_LEASE_DURATION must be positive'')
      else if ReconcileInterval cfg \<le> 0 then Inl (Msg ''KUBE_NAT_RECONCILE_INTERVAL must be positive'')
      else if DrainPollInterval cfg \<le> 0 then Inl (Msg ''KUBE_NAT_DRAIN_POLL_INTERVAL must be positive'')
      else Inr cfg)"

text \<open>Integer division of Go truncates; \<open>Load\<close> only lets positive durations through.\<close>

definition LeaseRenewInterval :: "config \<Rightarrow> int" where
  "LeaseRenewInterval c =
     (let d = sgn (LeaseDuration c) * (\<bar>LeaseDuration c\<bar> div 4);
          d = (if d < second then second else d)
      in if ReconcileInterval c > 0 \<and> d > ReconcileInterval c then ReconcileInterval c else d)"

section \<open>Facts\<close>

definition valid_config :: "config \<Rightarrow> bool" where
  "valid_config c \<longleftrightarrow>
     Mode c \<in> {''auto'', ''manual''} \<and> 0 < LeaseDuration c \<and> 0 < ReconcileInterval c \<and>
     0 < DrainPollInterval c"

lemma Load_valid: "Load env = Inr c \<Longrightarrow> valid_config c \<and> c = from_env env"
  by (auto simp: Load_def Let_def valid_config_def split: if_splits)

lemma LeaseRenewInterval_pos: "0 < ReconcileInterval c \<Longrightarrow> 0 < LeaseRenewInterval c"
  by (auto simp: LeaseRenewInterval_def Let_def second_def)

lemma LeaseRenewInterval_le:
  assumes "4 * second \<le> LeaseDuration c"
  shows "4 * LeaseRenewInterval c \<le> LeaseDuration c"
  using assms by (auto simp: LeaseRenewInterval_def Let_def second_def)

lemma duration_sum_group:
  "duration_group s = Inr (v, rest) \<Longrightarrow> s \<noteq> [] \<Longrightarrow> d + v \<le> 2 ^ 63 \<Longrightarrow>
   duration_sum d s = duration_sum (d + v) rest"
  by (subst duration_sum.simps) simp

lemma duration_sum_Nil [simp]: "duration_sum d [] = Inr d"
  by (subst duration_sum.simps) simp

lemma takeWhile_digits: "list_all is_digit ds \<Longrightarrow> \<not> is_digit c \<Longrightarrow> takeWhile is_digit (ds @ c # s) = ds"
  by (induction ds) auto

lemma dropWhile_digits: "list_all is_digit ds \<Longrightarrow> \<not> is_digit c \<Longrightarrow> dropWhile is_digit (ds @ c # s) = c # s"
  by (induction ds) auto

lemma ParseDuration_seconds:
  assumes "n \<le> 2 ^ 33"
  shows "ParseDuration (itoa n @ ''s'') = Inr (int n * second)"
proof -
  have dig: "list_all is_digit (itoa n)" by (rule itoa_digits)
  have "\<not> is_digit (CHR ''s'')" by (simp add: is_digit_def)
  note sp = takeWhile_digits [OF dig this, of "[]"] dropWhile_digits [OF dig this, of "[]"]
  have g: "duration_group (itoa n @ ''s'') = Inr (n * 1000000000, [])"
    using assms by (simp add: duration_group_def Let_def sp dec_val_itoa duration_unit_def
        number_char_def is_digit_def)
  obtain c s where cs: "itoa n = c # s" by (cases "itoa n") auto
  have c: "c \<noteq> CHR ''-'' \<and> c \<noteq> CHR ''+''"
    using hd_itoa_digit [OF cs] by (auto simp: is_digit_def)
  have "duration_sum 0 (itoa n @ ''s'') = Inr (n * 1000000000)"
    using assms by (subst duration_sum_group [OF g]) auto
  with c cs assms show ?thesis by (simp add: second_def Let_def)
qed

text \<open>A configuration that \<open>Load\<close> returns has a known mode and positive lease, reconcile
  and drain-poll periods; an unset environment gives the documented defaults.\<close>

theorem Load_validates:
  "(\<forall>env c. Load env = Inr c \<longrightarrow> valid_config c) \<and>
   (\<exists>c. Load (\<lambda>_. '''') = Inr c \<and> Mode c = ''auto'' \<and> LeaseDuration c = 30 * second \<and>
      ReconcileInterval c = 30 * second \<and> ProbeInterval c = 200 * millisecond \<and> ProbeFailures c = 2 \<and>
      StandDownOnDrain c \<and> ResetStaleFlows c \<and> LeaseRenewInterval c = 7500 * millisecond)"
proof -
  have "Load env = Inr c \<Longrightarrow> valid_config c" for env c using Load_valid by blast
  then show ?thesis
    by (simp add: Load_def from_env_def Let_def getEnv_def getIntEnv_def getDurationEnv_def getBoolEnv_def
        time_units LeaseRenewInterval_def)
qed

theorem Load_validates_witness:
  "valid_config (projr (Load (\<lambda>k. if k = ''KUBE_NAT_MODE'' then ''manual'' else '''')))"
proof -
  obtain c where c: "Load (\<lambda>k. if k = ''KUBE_NAT_MODE'' then ''manual'' else '''') = Inr c"
    by (simp add: Load_def from_env_def Let_def getEnv_def getDurationEnv_def time_units)
  with Load_validates show ?thesis by fastforce
qed

end
