(* ===== verification/Imds.thy ===== *)
theory Imds
  imports Go_Base
begin

text \<open>
  \<open>internal/aws/metadata.go\<close> and \<open>internal/spot/watcher.go\<close>: the instance metadata client and
  the spot watcher. The HTTP client is a parameter: \<open>url_error\<close> is what \<open>http.NewRequest\<close>
  answers for a URL, \<open>Do\<close> sends a request with its headers. A body is a \<open>result\<close> because
  \<open>io.ReadAll\<close> can fail after the status has been read.
\<close>

record http_response =
  StatusCode :: int
  Body :: "string result"

record 'e http_client =
  url_error :: "string \<Rightarrow> status"
  Do :: "string \<Rightarrow> string \<Rightarrow> (string \<times> string) list \<Rightarrow> 'e \<Rightarrow> http_response result \<times> 'e"

record InstanceMetadata =
  md_InstanceID :: string
  md_AZ :: string
  md_Region :: string
  md_ENIID :: string
  md_MAC :: string
  md_PublicIface :: string
  md_InstanceType :: string

text \<open>Go's \<open>if err != nil { return err }\<close> between two calls.\<close>

definition try_then :: "('w, 'a result) prog \<Rightarrow> ('a \<Rightarrow> ('w, 'b result) prog) \<Rightarrow> ('w, 'b result) prog" where
  "try_then p k = bind p (\<lambda>r. case r of Inl e \<Rightarrow> Ret (Inl e) | Inr a \<Rightarrow> k a)"

lemma run_try_then [simp]:
  "run (try_then p k) w = (case run p w of (r, w') \<Rightarrow> (case r of Inl e \<Rightarrow> (Inl e, w') | Inr a \<Rightarrow> run (k a) w'))"
  by (simp add: try_then_def split: prod.split sum.split)

section \<open>The metadata client\<close>

definition imds_url :: "string \<Rightarrow> string" where
  "imds_url baseURL = (if baseURL = '''' then ''http://169.254.169.254'' else baseURL)"

definition getToken :: "'e http_client \<Rightarrow> string \<Rightarrow> ('e, string result) prog" where
  "getToken H base =
     (let url = base @ ''/latest/api/token'' in
      case url_error H url of
        Some e \<Rightarrow> Ret (Inl e)
      | None \<Rightarrow>
          bind (call (Do H ''PUT'' url [(''X-aws-ec2-metadata-token-ttl-seconds'', ''300'')])) (\<lambda>r.
          Ret (case r of
            Inl e \<Rightarrow> Inl (Wrap ''imds token request'' e)
          | Inr resp \<Rightarrow> Body resp)))"

definition bad_status :: "string \<Rightarrow> int \<Rightarrow> goerr" where
  "bad_status path n = Msg (''GET '' @ path @ '': status '' @ Itoa n)"

definition imds_get :: "'e http_client \<Rightarrow> string \<Rightarrow> string \<Rightarrow> string \<Rightarrow> ('e, string result) prog" where
  "imds_get H base token path =
     (case url_error H (base @ path) of
        Some e \<Rightarrow> Ret (Inl e)
      | None \<Rightarrow>
          bind (call (Do H ''GET'' (base @ path) [(''X-aws-ec2-metadata-token'', token)])) (\<lambda>r.
          Ret (case r of
            Inl e \<Rightarrow> Inl (Errorf ''GET '' path e)
          | Inr resp \<Rightarrow> if StatusCode resp \<noteq> 200 then Inl (bad_status path (StatusCode resp)) else Body resp)))"

definition deviceNumberToIface :: "string \<Rightarrow> string result" where
  "deviceNumberToIface deviceNum =
     (case Atoi deviceNum of
        Inl e \<Rightarrow> Inl (Wrap ''parse device number'' e)
      | Inr n \<Rightarrow> Inr (''eth'' @ Itoa n))"

definition mac_path :: "string \<Rightarrow> string \<Rightarrow> string" where
  "mac_path mac leaf = ''/latest/meta-data/network/interfaces/macs/'' @ mac @ leaf"

definition Fetch :: "'e http_client \<Rightarrow> string \<Rightarrow> ('e, InstanceMetadata result) prog" where
  "Fetch H base =
     bind (getToken H base) (\<lambda>t.
       case t of
         Inl e \<Rightarrow> Ret (Inl (Wrap ''imds token'' e))
       | Inr token \<Rightarrow>
           try_then (imds_get H base token ''/latest/meta-data/instance-id'') (\<lambda>instanceID.
           try_then (imds_get H base token ''/latest/meta-data/placement/availability-zone'') (\<lambda>az.
           try_then (imds_get H base token ''/latest/meta-data/placement/region'') (\<lambda>region.
           try_then (imds_get H base token ''/latest/meta-data/mac'') (\<lambda>mac.
           try_then (imds_get H base token (mac_path mac ''/interface-id'')) (\<lambda>eniID.
           try_then (imds_get H base token (mac_path mac ''/device-number'')) (\<lambda>deviceNum.
           case deviceNumberToIface (TrimSpace deviceNum) of
             Inl e \<Rightarrow> Ret (Inl (Errorf ''device-number '' deviceNum e))
           | Inr iface \<Rightarrow>
               try_then (imds_get H base token ''/latest/meta-data/instance-type'') (\<lambda>instanceType.
               Ret (Inr \<lparr>md_InstanceID = instanceID, md_AZ = az, md_Region = region, md_ENIID = eniID,
                 md_MAC = mac, md_PublicIface = iface, md_InstanceType = instanceType\<rparr>)))))))))"

text \<open>The parser of RFC 3339 times is a parameter; a time is in nanoseconds, \<open>0\<close> for the zero time.\<close>

definition SpotTerminationTime ::
  "'e http_client \<Rightarrow> (string \<Rightarrow> int result) \<Rightarrow> string \<Rightarrow> ('e, (int \<times> bool) result) prog" where
  "SpotTerminationTime H parse_time base =
     try_then (getToken H base) (\<lambda>token.
       let url = base @ ''/latest/meta-data/spot/termination-time'' in
       case url_error H url of
         Some e \<Rightarrow> Ret (Inl e)
       | None \<Rightarrow>
           try_then (call (Do H ''GET'' url [(''X-aws-ec2-metadata-token'', token)])) (\<lambda>resp.
           Ret (if StatusCode resp = 404 then Inr (0, False)
             else case Body resp of
               Inl e \<Rightarrow> Inl e
             | Inr body \<Rightarrow> (case parse_time body of
                 Inl e \<Rightarrow> Inl (Errorf ''parse termination time '' body e)
               | Inr t \<Rightarrow> Inr (t, True)))))"

section \<open>The spot watcher\<close>

definition watcher_getToken :: "'e http_client \<Rightarrow> string \<Rightarrow> ('e, string result) prog" where
  "watcher_getToken H base =
     (let url = base @ ''/latest/api/token'' in
      case url_error H url of
        Some e \<Rightarrow> Ret (Inl e)
      | None \<Rightarrow>
          try_then (call (Do H ''PUT'' url [(''X-aws-ec2-metadata-token-ttl-seconds'', ''300'')])) (\<lambda>resp.
          Ret (Body resp)))"

definition spot_check :: "'e http_client \<Rightarrow> string \<Rightarrow> ('e, bool) prog" where
  "spot_check H base =
     bind (watcher_getToken H base) (\<lambda>t.
       case t of
         Inl _ \<Rightarrow> Ret False
       | Inr token \<Rightarrow>
           (let url = base @ ''/latest/meta-data/spot/termination-time'' in
            case url_error H url of
              Some _ \<Rightarrow> Ret False
            | None \<Rightarrow>
                bind (call (Do H ''GET'' url [(''X-aws-ec2-metadata-token'', token)])) (\<lambda>r.
                Ret (case r of Inl _ \<Rightarrow> False | Inr resp \<Rightarrow> StatusCode resp = 200))))"

text \<open>The loop: what each turn of the \<open>select\<close> meets is a tick (\<open>True\<close>) or the end of the context.\<close>

fun spot_run :: "('w, bool) prog \<Rightarrow> ('w, unit) prog \<Rightarrow> bool list \<Rightarrow> ('w, unit) prog" where
  "spot_run check onNotice [] = Ret ()"
| "spot_run check onNotice (False # ticks) = Ret ()"
| "spot_run check onNotice (True # ticks) =
     bind check (\<lambda>found. if found then onNotice else spot_run check onNotice ticks)"

section \<open>Facts\<close>

text \<open>A metadata service whose answers do not change.\<close>

definition pages :: "'e http_client \<Rightarrow> (string \<Rightarrow> string \<Rightarrow> http_response result) \<Rightarrow> bool" where
  "pages H page \<longleftrightarrow> (\<forall>m u hs e. Do H m u hs e = (page m u, e)) \<and> (\<forall>u. url_error H u = None)"

text \<open>The body of a page served with status 200.\<close>

definition served_page :: "(string \<Rightarrow> string \<Rightarrow> http_response result) \<Rightarrow> string \<Rightarrow> string option" where
  "served_page page u = (case page ''GET'' u of
     Inr resp \<Rightarrow> if StatusCode resp = 200 then (case Body resp of Inr b \<Rightarrow> Some b | Inl _ \<Rightarrow> None) else None
   | Inl _ \<Rightarrow> None)"

lemma run_imds_get:
  assumes "pages H page"
  shows "\<exists>r. run (imds_get H base token path) e = (r, e) \<and> (\<forall>b. r = Inr b \<longleftrightarrow> served_page page (base @ path) = Some b)"
proof -
  have D: "Do H m u hs e = (page m u, e)" and U: "url_error H u = None" for m u hs
    using assms by (simp_all add: pages_def)
  let ?r = "case page ''GET'' (base @ path) of
      Inl e \<Rightarrow> Inl (Errorf ''GET '' path e)
    | Inr resp \<Rightarrow> if StatusCode resp \<noteq> 200 then Inl (bad_status path (StatusCode resp)) else Body resp"
  have "run (imds_get H base token path) e = (?r, e)"
    by (simp only: imds_get_def U option.case run_bind run_call D prod.case run.simps)
  moreover have "?r = Inr b \<longleftrightarrow> served_page page (base @ path) = Some b" for b
    unfolding served_page_def by (cases "page ''GET'' (base @ path)") (auto split: sum.split)
  ultimately show ?thesis by blast
qed

lemma try_get:
  assumes "pages H page" and "run (try_then (imds_get H base token path) k) e = (Inr x, e')"
  shows "\<exists>b. served_page page (base @ path) = Some b \<and> run (k b) e = (Inr x, e')"
proof -
  obtain r where r: "run (imds_get H base token path) e = (r, e)"
      "\<forall>b. r = Inr b \<longleftrightarrow> served_page page (base @ path) = Some b"
    using run_imds_get [OF assms(1), of base token path e] by (elim exE conjE)
  show ?thesis
  proof (cases r)
    case (Inl x)
    with assms(2) r(1) show ?thesis by simp
  next
    case (Inr b)
    from assms(2) r(1) Inr have "run (k b) e = (Inr x, e')" by simp
    moreover have "served_page page (base @ path) = Some b" using r(2) [THEN spec, of b] Inr by simp
    ultimately show ?thesis by (intro exI [of _ b] conjI)
  qed
qed

lemma run_getToken:
  assumes "pages H page"
  shows "\<exists>t. run (getToken H base) e = (t, e) \<and>
    (\<forall>b. t = Inr b \<longleftrightarrow> (\<exists>resp. page ''PUT'' (base @ ''/latest/api/token'') = Inr resp \<and> Body resp = Inr b))"
proof -
  have D: "Do H m u hs e = (page m u, e)" and U: "url_error H u = None" for m u hs
    using assms by (simp_all add: pages_def)
  show ?thesis
    by (cases "page ''PUT'' (base @ ''/latest/api/token'')")
      (auto simp only: getToken_def Let_def D U option.case run_bind run_call prod.case run.simps sum.case)
qed

lemma Fetch_pages:
  assumes "pages H page" and "run (Fetch H base) e = (Inr md, e')"
  shows "served_page page (base @ ''/latest/meta-data/instance-id'') = Some (md_InstanceID md) \<and>
    served_page page (base @ ''/latest/meta-data/placement/availability-zone'') = Some (md_AZ md) \<and>
    served_page page (base @ ''/latest/meta-data/placement/region'') = Some (md_Region md) \<and>
    served_page page (base @ ''/latest/meta-data/mac'') = Some (md_MAC md) \<and>
    served_page page (base @ mac_path (md_MAC md) ''/interface-id'') = Some (md_ENIID md) \<and>
    served_page page (base @ ''/latest/meta-data/instance-type'') = Some (md_InstanceType md) \<and>
    (\<exists>d. served_page page (base @ mac_path (md_MAC md) ''/device-number'') = Some d \<and>
      deviceNumberToIface (TrimSpace d) = Inr (md_PublicIface md)) \<and> e' = e"
proof -
  obtain t where t: "run (getToken H base) e = (t, e)" using run_getToken [OF assms(1)] by blast
  from assms(2) t obtain token where token: "t = Inr token"
    by (auto simp: Fetch_def split: sum.splits)
  note run = assms(2) [unfolded Fetch_def run_bind t token prod.case sum.case]
  show ?thesis
    using run by (auto simp del: run_try_then dest!: try_get [OF assms(1)] split: sum.splits)
qed

lemma deviceNumberToIface_Itoa:
  "- (2 ^ 63) \<le> n \<Longrightarrow> n < 2 ^ 63 \<Longrightarrow> deviceNumberToIface (Itoa n) = Inr (''eth'' @ Itoa n)"
  by (simp add: deviceNumberToIface_def Atoi_Itoa)

text \<open>
  The notice callback runs at most once: the polls before it are those of the same loop
  without a callback, and the callback runs in the state that the first positive poll left.
\<close>

fun polls :: "('w, bool) prog \<Rightarrow> bool list \<Rightarrow> ('w, bool) prog" where
  "polls check [] = Ret False"
| "polls check (False # ticks) = Ret False"
| "polls check (True # ticks) = bind check (\<lambda>found. if found then Ret True else polls check ticks)"

lemma spot_run_once:
  "run (spot_run check onNotice ticks) w =
   (case run (polls check ticks) w of (found, w') \<Rightarrow> if found then run onNotice w' else ((), w'))"
  by (induction check onNotice ticks arbitrary: w rule: spot_run.induct) (auto split: prod.split)

text \<open>The token request does not look at the status: the body of an error page becomes the token.\<close>

lemma getToken_ignores_status:
  assumes "pages H page" and "page ''PUT'' (base @ ''/latest/api/token'') = Inr \<lparr>StatusCode = n, Body = Inr b\<rparr>"
  shows "run (getToken H base) e = (Inr b, e)"
proof -
  have D: "Do H m u hs e = (page m u, e)" and U: "url_error H u = None" for m u hs
    using assms(1) by (simp_all add: pages_def)
  show ?thesis
    by (simp only: getToken_def Let_def D U option.case run_bind run_call prod.case run.simps assms(2)
        sum.case http_response.select_convs)
qed

section \<open>Properties\<close>


text \<open>An example: a service that answers every page with \<open>0\<close>.\<close>

definition zero_imds :: "unit http_client" where
  "zero_imds = \<lparr>url_error = (\<lambda>u. None), Do = (\<lambda>m u hs e. (Inr \<lparr>StatusCode = 200, Body = Inr ''0''\<rparr>, e))\<rparr>"

lemma zero_imds_pages: "pages zero_imds (\<lambda>m u. Inr \<lparr>StatusCode = 200, Body = Inr ''0''\<rparr>)"
  by (simp add: pages_def zero_imds_def)

lemma zero_imds_get: "run (imds_get zero_imds base token path) () = (Inr ''0'', ())"
  by (simp add: imds_get_def zero_imds_def)

lemma iface_zero: "deviceNumberToIface (TrimSpace ''0'') = Inr ''eth0''"
proof -
  have "Itoa 0 = ''0''" by (simp add: Itoa_def itoa.simps digit_char_def char_of_def bit_0)
  moreover have "TrimSpace ''0'' = ''0''" by (simp add: go_string_simps)
  ultimately show ?thesis using deviceNumberToIface_Itoa [of 0] by simp
qed


text \<open>
  The spot watcher calls its callback at most once, in the state the first positive poll
  left, and never after the context has ended: the polls are those of the loop without callback.
\<close>

lemma notice_fires_once:
  "run (spot_run (spot_check H base) onNotice ticks) w =
   (case run (polls (spot_check H base) ticks) w of (found, w') \<Rightarrow> if found then run onNotice w' else ((), w'))"
  by (rule spot_run_once)

end
