(* ===== verification/Sysinfo.thy ===== *)
theory Sysinfo
  imports Go_Base "HOL-Library.Word" Complex_Main
begin

text \<open>
  \<open>internal/iface\<close>: what a node reads about itself. Tick and byte counters are 64-bit
  words, with Go's wrap-around; a line scanner yields the lines of a file; indexing past the
  end of a slice is the outcome \<open>Panic\<close>.
\<close>

section \<open>CPU time\<close>

record CPUStat =
  User :: "64 word"
  Nice :: "64 word"
  System :: "64 word"
  Idle :: "64 word"
  IOWait :: "64 word"
  IRQ :: "64 word"
  SoftIRQ :: "64 word"
  Steal :: "64 word"

definition Total :: "CPUStat \<Rightarrow> 64 word" where
  "Total s = User s + Nice s + System s + Idle s + IOWait s + IRQ s + SoftIRQ s + Steal s"

definition Busy :: "CPUStat \<Rightarrow> 64 word" where
  "Busy s = Total s - Idle s - IOWait s"

text \<open>\<open>float64\<close> of an unsigned counter, as an exact real.\<close>

definition float :: "64 word \<Rightarrow> real" where
  "float x = real (unat x)"

definition CPURatio :: "CPUStat \<Rightarrow> CPUStat \<Rightarrow> real" where
  "CPURatio prev cur =
     (let totalDelta = float (Total cur - Total prev) in
      if totalDelta \<le> 0 then 0
      else let busyDelta = float (Busy cur - Busy prev);
               busyDelta = (if busyDelta < 0 then 0 else busyDelta)
           in busyDelta / totalDelta)"

datatype 'a go_outcome = Done 'a | Panic

definition hostProcStat :: string where
  "hostProcStat = ''/proc/stat''"

definition hostProcMeminfo :: string where
  "hostProcMeminfo = ''/proc/meminfo''"

definition parse_tick :: "string \<Rightarrow> 64 word" where
  "parse_tick s = (case ParseUint64 s of Inr v \<Rightarrow> of_nat v
     | Inl e \<Rightarrow> if e = Msg ''value out of range'' then - 1 else 0)"

text \<open>
  The line is refused below eight fields, and the ninth is read: with exactly eight the
  index is out of range. \<open>strconv.ParseUint\<close> returns the greatest value when the number is
  out of range, and the code ignores the error.
\<close>

definition cpu_line :: "string \<Rightarrow> CPUStat result go_outcome" where
  "cpu_line line =
     (let fs = Fields line in
      if length fs < 8 then Done (Inl (Msg (''unexpected cpu line: '' @ line)))
      else if length fs \<le> 8 then Panic
      else Done (Inr
        \<lparr>User = parse_tick (fs ! 1), Nice = parse_tick (fs ! 2), System = parse_tick (fs ! 3),
         Idle = parse_tick (fs ! 4), IOWait = parse_tick (fs ! 5), IRQ = parse_tick (fs ! 6),
         SoftIRQ = parse_tick (fs ! 7), Steal = parse_tick (fs ! 8)\<rparr>))"

fun scan_cpu :: "string list \<Rightarrow> CPUStat result go_outcome" where
  "scan_cpu [] = Done (Inl (Msg (''cpu line not found in '' @ hostProcStat)))"
| "scan_cpu (line # ls) = (if \<not> HasPrefix line ''cpu '' then scan_cpu ls else cpu_line line)"

text \<open>The file as \<open>os.Open\<close> and the scanner give it: an error or the lines.\<close>

definition ReadCPUStat :: "string list result \<Rightarrow> CPUStat result go_outcome" where
  "ReadCPUStat file =
     (case file of
        Inl e \<Rightarrow> Done (Inl (Wrap (''open '' @ hostProcStat) e))
      | Inr ls \<Rightarrow> scan_cpu ls)"

section \<open>Memory\<close>

record MemStat =
  TotalBytes :: "64 word"
  AvailableBytes :: "64 word"

definition UsedBytes :: "MemStat \<Rightarrow> 64 word" where
  "UsedBytes m = (if AvailableBytes m > TotalBytes m then 0 else TotalBytes m - AvailableBytes m)"

fun scan_mem :: "MemStat \<Rightarrow> nat \<Rightarrow> string list \<Rightarrow> MemStat result" where
  "scan_mem stat found [] =
     (if found < 2 then Inl (Msg (''could not read MemTotal/MemAvailable from '' @ hostProcMeminfo)) else Inr stat)"
| "scan_mem stat found (line # ls) =
     (if found \<ge> 2 then Inr stat
      else case Fields line of
        key # val # _ \<Rightarrow>
          (case ParseUint64 val of
             Inl _ \<Rightarrow> scan_mem stat found ls
           | Inr kb \<Rightarrow>
               if key = ''MemTotal:''
               then scan_mem (stat\<lparr>TotalBytes := of_nat kb * 1024\<rparr>) (found + 1) ls
               else if key = ''MemAvailable:''
               then scan_mem (stat\<lparr>AvailableBytes := of_nat kb * 1024\<rparr>) (found + 1) ls
               else scan_mem stat found ls)
      | _ \<Rightarrow> scan_mem stat found ls)"

definition ReadMemStat :: "string list result \<Rightarrow> MemStat result" where
  "ReadMemStat file =
     (case file of
        Inl e \<Rightarrow> Inl (Wrap (''open '' @ hostProcMeminfo) e)
      | Inr ls \<Rightarrow> scan_mem \<lparr>TotalBytes = 0, AvailableBytes = 0\<rparr> 0 ls)"

section \<open>Connection tracking and interfaces\<close>

definition readIntFile :: "string \<Rightarrow> string result \<Rightarrow> int result" where
  "readIntFile path content =
     (case content of
        Inl e \<Rightarrow> Inl e
      | Inr b \<Rightarrow> (case Atoi (TrimSpace b) of Inl e \<Rightarrow> Inl (Errorf ''parse '' path e) | Inr n \<Rightarrow> Inr n))"

definition defaultConntrackCountPath :: string where
  "defaultConntrackCountPath = ''/host/proc/sys/net/netfilter/nf_conntrack_count''"

definition defaultConntrackMaxPath :: string where
  "defaultConntrackMaxPath = ''/host/proc/sys/net/netfilter/nf_conntrack_max''"

definition ConntrackStats :: "string result \<Rightarrow> string result \<Rightarrow> (int \<times> int) result" where
  "ConntrackStats countFile maxFile =
     (case readIntFile defaultConntrackCountPath countFile of
        Inl e \<Rightarrow> Inl (Wrap ''conntrack count'' e)
      | Inr n \<Rightarrow>
          (case readIntFile defaultConntrackMaxPath maxFile of
             Inl e \<Rightarrow> Inl (Wrap ''conntrack max'' e)
           | Inr mx \<Rightarrow> Inr (n, mx)))"

record if_stats =
  BytesTX :: "64 word"
  BytesRX :: "64 word"
  PacketsTX :: "64 word"
  PacketsRX :: "64 word"

text \<open>The link as netlink returns it: its statistics may be missing.\<close>

definition GetStats :: "string \<Rightarrow> if_stats option result \<Rightarrow> if_stats result" where
  "GetStats ifaceName link =
     (case link of
        Inl e \<Rightarrow> Inl (Errorf ''link '' ifaceName e)
      | Inr None \<Rightarrow> Inl (Msg (''no statistics for interface '' @ ifaceName))
      | Inr (Some s) \<Rightarrow> Inr s)"

section \<open>The bandwidth and CPU sampler\<close>

record samplerState =
  sp_bytesTX :: "64 word"
  sp_bytesRX :: "64 word"
  txEMA :: real
  rxEMA :: real
  cpuEMA :: real
  sp_ts :: "int option"
  sp_cpu :: CPUStat

definition ema_alpha :: "real \<Rightarrow> real" where
  "ema_alpha elapsed = 1 - exp (- elapsed / 20)"

definition ema :: "real \<Rightarrow> real \<Rightarrow> real \<Rightarrow> real" where
  "ema alpha raw prev = alpha * raw + (1 - alpha) * prev"

text \<open>\<open>now.Sub(prev.ts).Seconds()\<close>.\<close>

definition seconds_between :: "int \<Rightarrow> int \<Rightarrow> real" where
  "seconds_between t0 t1 = real_of_int (t1 - t0) / 1000000000"

definition counters_grew :: "if_stats \<Rightarrow> samplerState \<Rightarrow> bool" where
  "counters_grew st prev \<longleftrightarrow> BytesTX st \<ge> sp_bytesTX prev \<and> BytesRX st \<ge> sp_bytesRX prev"

definition sample_rates :: "real \<Rightarrow> real \<Rightarrow> if_stats \<Rightarrow> samplerState \<Rightarrow> samplerState" where
  "sample_rates alpha elapsed st prev =
     (if counters_grew st prev
      then prev\<lparr>txEMA := ema alpha (float (BytesTX st - sp_bytesTX prev) / elapsed) (txEMA prev),
                rxEMA := ema alpha (float (BytesRX st - sp_bytesRX prev) / elapsed) (rxEMA prev)\<rparr>
      else prev)"

definition sample_cpu :: "real \<Rightarrow> CPUStat \<Rightarrow> samplerState \<Rightarrow> samplerState" where
  "sample_cpu alpha cur prev = prev\<lparr>cpuEMA := ema alpha (CPURatio (sp_cpu prev) cur) (cpuEMA prev)\<rparr>"

definition sampler_tick ::
  "int \<Rightarrow> if_stats result \<Rightarrow> CPUStat result \<Rightarrow> samplerState \<Rightarrow> samplerState" where
  "sampler_tick now ifStats curCPU prev =
     (let s1 = (case sp_ts prev of
          None \<Rightarrow> prev
        | Some t0 \<Rightarrow>
            let elapsed = seconds_between t0 now; alpha = ema_alpha elapsed;
                p1 = (case ifStats of Inr st \<Rightarrow> sample_rates alpha elapsed st prev | Inl _ \<Rightarrow> prev)
            in (case curCPU of Inr cur \<Rightarrow> sample_cpu alpha cur p1 | Inl _ \<Rightarrow> p1));
        s2 = (case ifStats of Inr st \<Rightarrow> s1\<lparr>sp_bytesTX := BytesTX st, sp_bytesRX := BytesRX st\<rparr> | Inl _ \<Rightarrow> s1);
        s3 = (case curCPU of Inr cur \<Rightarrow> s2\<lparr>sp_cpu := cur\<rparr> | Inl _ \<Rightarrow> s2)
      in s3\<lparr>sp_ts := Some now\<rparr>)"

section \<open>Facts\<close>

text \<open>Two samples of counters that only grow, without wrapping.\<close>

definition ticks :: "CPUStat \<Rightarrow> nat" where
  "ticks s = unat (User s) + unat (Nice s) + unat (System s) + unat (Idle s) + unat (IOWait s) +
     unat (IRQ s) + unat (SoftIRQ s) + unat (Steal s)"

definition idle_ticks :: "CPUStat \<Rightarrow> nat" where
  "idle_ticks s = unat (Idle s) + unat (IOWait s)"

definition later_sample :: "CPUStat \<Rightarrow> CPUStat \<Rightarrow> bool" where
  "later_sample prev cur \<longleftrightarrow> ticks cur < 2 ^ 64 \<and>
     User prev \<le> User cur \<and> Nice prev \<le> Nice cur \<and> System prev \<le> System cur \<and> Idle prev \<le> Idle cur \<and>
     IOWait prev \<le> IOWait cur \<and> IRQ prev \<le> IRQ cur \<and> SoftIRQ prev \<le> SoftIRQ cur \<and> Steal prev \<le> Steal cur"

lemma unat_Total: "ticks s < 2 ^ 64 \<Longrightarrow> unat (Total s) = ticks s"
proof -
  assume "ticks s < 2 ^ 64"
  have "Total s = of_nat (ticks s)" by (simp add: Total_def ticks_def)
  with \<open>ticks s < 2 ^ 64\<close> show ?thesis by (simp add: unsigned_of_nat take_bit_nat_eq_self)
qed

lemma unat_Busy: "ticks s < 2 ^ 64 \<Longrightarrow> unat (Busy s) = ticks s - idle_ticks s"
proof -
  assume t: "ticks s < 2 ^ 64"
  have le: "idle_ticks s \<le> ticks s" by (simp add: ticks_def idle_ticks_def)
  have "Busy s = of_nat (ticks s) - of_nat (idle_ticks s)"
    by (simp add: Busy_def Total_def ticks_def idle_ticks_def)
  also have "\<dots> = of_nat (ticks s - idle_ticks s)" using le by simp
  finally show ?thesis
    using t le by (simp add: unsigned_of_nat take_bit_nat_eq_self del: of_nat_diff)
qed

lemma later_sample_mono:
  assumes "later_sample prev cur"
  shows "ticks prev \<le> ticks cur" and "idle_ticks prev \<le> idle_ticks cur"
    and "ticks prev - idle_ticks prev \<le> ticks cur - idle_ticks cur"
    and "ticks cur - idle_ticks cur - (ticks prev - idle_ticks prev) \<le> ticks cur - ticks prev"
  using assms unfolding later_sample_def ticks_def idle_ticks_def word_le_nat_alt by linarith+

lemma CPURatio_later:
  assumes "later_sample prev cur"
  shows "CPURatio prev cur =
    (if ticks cur = ticks prev then 0
     else (real (ticks cur - idle_ticks cur) - real (ticks prev - idle_ticks prev)) / (real (ticks cur) - real (ticks prev)))"
proof -
  note m = later_sample_mono [OF assms]
  have tc: "ticks cur < 2 ^ 64" and tp: "ticks prev < 2 ^ 64"
    using assms m(1) by (simp_all add: later_sample_def)
  have "Total prev \<le> Total cur" and "Busy prev \<le> Busy cur"
    using m(1,3) unat_Total [OF tc] unat_Total [OF tp] unat_Busy [OF tc] unat_Busy [OF tp]
    unfolding word_le_nat_alt by simp_all
  then have "unat (Total cur - Total prev) = ticks cur - ticks prev"
    and "unat (Busy cur - Busy prev) = (ticks cur - idle_ticks cur) - (ticks prev - idle_ticks prev)"
    using unat_Total [OF tc] unat_Total [OF tp] unat_Busy [OF tc] unat_Busy [OF tp] by (simp_all add: unat_sub)
  with m show ?thesis by (auto simp: CPURatio_def Let_def float_def of_nat_diff simp del: of_nat_unat diff_diff_left)
qed

lemma CPURatio_bounds:
  assumes "later_sample prev cur"
  shows "0 \<le> CPURatio prev cur \<and> CPURatio prev cur \<le> 1"
proof -
  note m = later_sample_mono [OF assms]
  have "real (ticks cur - idle_ticks cur) - real (ticks prev - idle_ticks prev) \<le> real (ticks cur) - real (ticks prev)"
    using m by linarith
  with m show ?thesis by (auto simp: CPURatio_later [OF assms] divide_le_eq_1)
qed

lemma ema_alpha_bounds: "0 \<le> t \<Longrightarrow> 0 \<le> ema_alpha t \<and> ema_alpha t < 1"
  by (simp add: ema_alpha_def)

lemma ema_between:
  assumes "0 \<le> a" and "a \<le> 1" and "lo \<le> raw" and "raw \<le> hi" and "lo \<le> prev" and "prev \<le> hi"
  shows "lo \<le> ema a raw prev \<and> ema a raw prev \<le> hi"
proof -
  have "a * lo + (1 - a) * lo \<le> ema a raw prev" "ema a raw prev \<le> a * hi + (1 - a) * hi"
    using assms unfolding ema_def by (intro add_mono mult_left_mono; simp)+
  then show ?thesis by (simp add: algebra_simps)
qed

lemma float_nonneg: "0 \<le> float x"
  by (simp only: float_def of_nat_0_le_iff)

text \<open>A sampler whose CPU average is a ratio and whose rates are not negative.\<close>

definition sampler_inv :: "samplerState \<Rightarrow> bool" where
  "sampler_inv s \<longleftrightarrow> 0 \<le> cpuEMA s \<and> cpuEMA s \<le> 1 \<and> 0 \<le> txEMA s \<and> 0 \<le> rxEMA s"

lemma ema_nonneg: "0 \<le> a \<Longrightarrow> a \<le> 1 \<Longrightarrow> 0 \<le> x \<Longrightarrow> 0 \<le> p \<Longrightarrow> 0 \<le> ema a x p"
  by (simp add: ema_def)

lemma sample_rates_inv:
  assumes "0 \<le> a" and "a \<le> 1" and "0 \<le> el" and "sampler_inv s"
  shows "sampler_inv (sample_rates a el st s) \<and> sp_cpu (sample_rates a el st s) = sp_cpu s"
  using assms by (simp add: sample_rates_def sampler_inv_def ema_nonneg float_nonneg)

lemma sample_cpu_inv:
  assumes "0 \<le> a" and "a \<le> 1" and "sampler_inv s" and "later_sample (sp_cpu s) cur"
  shows "sampler_inv (sample_cpu a cur s)"
  using assms CPURatio_bounds [OF assms(4)] ema_between [of a 0 "CPURatio (sp_cpu s) cur" 1 "cpuEMA s"]
  by (simp add: sample_cpu_def sampler_inv_def)

section \<open>Properties\<close>

text \<open>
  C33: For two samples of counters that only grow and whose sum fits 64 bits, the
  wrap-around arithmetic on words computes the exact share of non-idle ticks between the
  samples, a number between 0 and 1.
\<close>

theorem CPURatio_is_share:
  assumes "later_sample prev cur"
  shows "0 \<le> CPURatio prev cur \<and> CPURatio prev cur \<le> 1 \<and>
    (ticks prev < ticks cur \<longrightarrow> CPURatio prev cur * (real (ticks cur) - real (ticks prev)) =
      real (ticks cur - idle_ticks cur) - real (ticks prev - idle_ticks prev))"
  using CPURatio_bounds [OF assms] by (simp add: CPURatio_later [OF assms])

definition cpu_sample :: "64 word \<Rightarrow> CPUStat" where
  "cpu_sample k = \<lparr>User = k, Nice = 0, System = 0, Idle = 3 * k, IOWait = 0, IRQ = 0, SoftIRQ = 0, Steal = 0\<rparr>"

theorem CPURatio_is_share_witness: "CPURatio (cpu_sample 100) (cpu_sample 200) * 400 = 100"
proof -
  have "later_sample (cpu_sample 100) (cpu_sample 200)"
    by (simp add: later_sample_def cpu_sample_def ticks_def)
  from CPURatio_is_share [OF this] show ?thesis
    by (simp add: cpu_sample_def ticks_def idle_ticks_def)
qed

text \<open>
  Every tick of the sampler, at a time not before the last one and on counters that
  only grow, keeps the smoothed CPU usage between 0 and 1 and the smoothed rates
  non-negative, also when a read fails or the byte counters are reset.
\<close>

theorem sampler_keeps_ratio:
  assumes "sampler_inv s" and "\<forall>t. sp_ts s = Some t \<longrightarrow> t \<le> now"
    and "\<forall>cur. cpu = Inr cur \<longrightarrow> later_sample (sp_cpu s) cur"
  shows "sampler_inv (sampler_tick now ifs cpu s)"
proof (cases "sp_ts s")
  case None
  with assms(1) show ?thesis
    by (auto simp: sampler_tick_def Let_def sampler_inv_def split: sum.splits)
next
  case (Some t0)
  let ?el = "seconds_between t0 now" and ?a = "ema_alpha (seconds_between t0 now)"
  have el: "0 \<le> ?el" using Some assms(2) by (simp add: seconds_between_def)
  then have a: "0 \<le> ?a" "?a \<le> 1" using ema_alpha_bounds [OF el] by auto
  define p1 where "p1 = (case ifs of Inr st \<Rightarrow> sample_rates ?a ?el st s | Inl _ \<Rightarrow> s)"
  have p1: "sampler_inv p1 \<and> sp_cpu p1 = sp_cpu s"
    using sample_rates_inv [OF a el assms(1)] assms(1) by (auto simp: p1_def split: sum.splits)
  define p2 where "p2 = (case cpu of Inr cur \<Rightarrow> sample_cpu ?a cur p1 | Inl _ \<Rightarrow> p1)"
  have "sampler_inv p2"
    using p1 sample_cpu_inv [OF a, of p1] assms(3) by (auto simp: p2_def split: sum.splits)
  then show ?thesis
    using Some by (auto simp: sampler_tick_def Let_def p1_def p2_def sampler_inv_def split: sum.splits)
qed

theorem sampler_keeps_ratio_witness:
  "sampler_inv (sampler_tick 2000000000 (Inl (Msg ''no link'')) (Inr (cpu_sample 200))
     \<lparr>sp_bytesTX = 0, sp_bytesRX = 0, txEMA = 0, rxEMA = 0, cpuEMA = 1 / 2, sp_ts = Some 1000000000,
      sp_cpu = cpu_sample 100\<rparr>)"
  by (rule sampler_keeps_ratio)
    (simp_all add: sampler_inv_def later_sample_def cpu_sample_def ticks_def)

text \<open>
  A CPU line of exactly eight fields passes the length check and then panics on the
  ninth; with nine or more it is read, with fewer than eight it is refused.
\<close>

theorem cpu_line_panics:
  "(cpu_line line = Panic \<longleftrightarrow> length (Fields line) = 8) \<and>
   (ReadCPUStat (Inr [''cpu 1 2 3 4 5 6 7'']) = Panic) \<and>
   (\<exists>s. ReadCPUStat (Inr [''cpu 1 2 3 4 5 6 7 8 9 10'']) = Done (Inr s) \<and> Steal s = 8)"
  by (auto simp: cpu_line_def Let_def ReadCPUStat_def go_string_simps parse_tick_def ParseUint64_def)

text \<open>
  The used memory never exceeds the total, and never wraps.
\<close>

lemma UsedBytes_bounds:
  "UsedBytes m \<le> TotalBytes m \<and>
   unat (UsedBytes m) = unat (TotalBytes m) - unat (AvailableBytes m)"
  by (auto simp: UsedBytes_def word_le_nat_alt unat_sub word_less_nat_alt)

end
