(* ===== verification/Ec2.thy ===== *)
theory Ec2
  imports Go_Base Complex_Main
begin

text \<open>
  \<open>internal/aws/ec2.go\<close>: the EC2 client. The AWS SDK is not part of the repository: its
  calls are the fields of \<open>'e ec2_api\<close>, functions of the outside world. The Go interface
  \<open>EC2Client\<close> is the record \<open>ec2_client\<close> of programs, and \<open>realEC2Client\<close> builds the
  code's implementation of it. What the code relies on is \<open>ec2_api_ok\<close>, read through a
  view of the default route of every route table. \<open>float64\<close> values are exact reals.
\<close>

section \<open>The SDK\<close>

datatype target = ToInstance string | ToNatGateway string

record sdk_route =
  DestinationCidrBlock :: "string option"
  r_NatGatewayId :: "string option"
  r_InstanceId :: "string option"

record sdk_route_table =
  RouteTableId :: string
  VpcId :: "string option"
  Routes :: "sdk_route list"

record sdk_nat_gateway =
  n_NatGatewayId :: "string option"
  n_SubnetId :: "string option"

record sdk_subnet =
  s_SubnetId :: "string option"
  AvailabilityZone :: "string option"

record sdk_network_info =
  NetworkPerformance :: "string option"

type_synonym filters = "(string \<times> string list) list"

record 'e ec2_api =
  ModifySourceDestCheck :: "string \<Rightarrow> bool \<Rightarrow> 'e \<Rightarrow> status \<times> 'e"
  DescribeRouteTables :: "filters \<Rightarrow> 'e \<Rightarrow> sdk_route_table list result \<times> 'e"
  CreateRoute :: "string \<Rightarrow> string \<Rightarrow> target \<Rightarrow> 'e \<Rightarrow> status \<times> 'e"
  ReplaceRoute :: "string \<Rightarrow> string \<Rightarrow> target \<Rightarrow> 'e \<Rightarrow> status \<times> 'e"
  DescribeNatGateways :: "filters \<Rightarrow> 'e \<Rightarrow> sdk_nat_gateway list result \<times> 'e"
  DescribeSubnets :: "filters \<Rightarrow> 'e \<Rightarrow> sdk_subnet list result \<times> 'e"
  DescribeInstanceTypes :: "string \<Rightarrow> 'e \<Rightarrow> sdk_network_info option list result \<times> 'e"

section \<open>The client interface\<close>

record route_table =
  ID :: string
  rt_AZ :: string
  VpcID :: string
  NatGatewayID :: string
  InstanceID :: string

record 'e ec2_client =
  DisableSourceDestCheck :: "string \<Rightarrow> ('e, status) prog"
  DiscoverRouteTables :: "string \<Rightarrow> ('e, route_table list result) prog"
  ClaimRouteTable :: "string \<Rightarrow> string \<Rightarrow> ('e, status) prog"
  ReleaseRouteTable :: "string \<Rightarrow> string \<Rightarrow> ('e, status) prog"
  LookupNatGateway :: "string \<Rightarrow> string \<Rightarrow> ('e, string result) prog"
  DescribeInstanceMaxBandwidth :: "string \<Rightarrow> ('e, real result) prog"

text \<open>The fields of \<open>realEC2Client\<close> besides the service handle.\<close>

record ec2_settings =
  tagPrefix :: string
  discoveryValue :: string

definition default_cidr :: string where
  "default_cidr = ''0.0.0.0/0''"

section \<open>Discovering route tables\<close>

definition managed_filter :: "ec2_settings \<Rightarrow> string \<times> string list" where
  "managed_filter c =
     (if discoveryValue c \<noteq> ''''
      then (''tag:'' @ tagPrefix c @ ''/discovery'', [discoveryValue c])
      else (''tag:'' @ tagPrefix c @ ''/managed'', [''true'']))"

fun default_route :: "sdk_route list \<Rightarrow> sdk_route option" where
  "default_route [] = None"
| "default_route (r # rs) =
     (if DestinationCidrBlock r = Some default_cidr then Some r else default_route rs)"

definition str_of :: "string option \<Rightarrow> string" where
  "str_of s = (case s of None \<Rightarrow> '''' | Some v \<Rightarrow> v)"

definition route_table_entry :: "string \<Rightarrow> sdk_route_table \<Rightarrow> route_table" where
  "route_table_entry az rt =
     \<lparr>ID = RouteTableId rt, rt_AZ = az, VpcID = str_of (VpcId rt),
      NatGatewayID = (case default_route (Routes rt) of None \<Rightarrow> '''' | Some r \<Rightarrow> str_of (r_NatGatewayId r)),
      InstanceID = (case default_route (Routes rt) of None \<Rightarrow> '''' | Some r \<Rightarrow> str_of (r_InstanceId r))\<rparr>"

definition discoverRouteTables ::
  "'e ec2_api \<Rightarrow> ec2_settings \<Rightarrow> string \<Rightarrow> ('e, route_table list result) prog" where
  "discoverRouteTables A c az =
     bind (call (DescribeRouteTables A
       [managed_filter c, (''tag:'' @ tagPrefix c @ ''/az'', [az])])) (\<lambda>r.
       case r of
         Inl e \<Rightarrow> Ret (Inl (Wrap ''describe route tables'' e))
       | Inr ts \<Rightarrow> Ret (Inr (map (route_table_entry az) ts)))"

section \<open>Claiming and releasing a route\<close>

fun aws_code :: "goerr \<Rightarrow> string option" where
  "aws_code (Aws c) = Some c"
| "aws_code (Wrap _ e) = aws_code e"
| "aws_code _ = None"

definition isEC2ErrorCode :: "goerr \<Rightarrow> string list \<Rightarrow> bool" where
  "isEC2ErrorCode e codes \<longleftrightarrow> (case aws_code e of None \<Rightarrow> False | Some c \<Rightarrow> c \<in> set codes)"

definition wrap_err :: "string \<Rightarrow> status \<Rightarrow> status" where
  "wrap_err msg s = map_option (Wrap msg) s"

definition claimRouteTable :: "'e ec2_api \<Rightarrow> string \<Rightarrow> string \<Rightarrow> ('e, status) prog" where
  "claimRouteTable A rtbID instanceID =
     bind (call (CreateRoute A rtbID default_cidr (ToInstance instanceID))) (\<lambda>err.
       case err of
         None \<Rightarrow> Ret None
       | Some e \<Rightarrow>
           if isEC2ErrorCode e [''RouteAlreadyExists'']
           then bind (call (ReplaceRoute A rtbID default_cidr (ToInstance instanceID))) (\<lambda>err.
             Ret (wrap_err (''upsert route in '' @ rtbID) err))
           else Ret (Some (Wrap (''upsert route in '' @ rtbID) e)))"

definition releaseRouteTable :: "'e ec2_api \<Rightarrow> string \<Rightarrow> string \<Rightarrow> ('e, status) prog" where
  "releaseRouteTable A rtbID natGatewayID =
     bind (call (CreateRoute A rtbID default_cidr (ToNatGateway natGatewayID))) (\<lambda>err.
       case err of
         None \<Rightarrow> Ret None
       | Some e \<Rightarrow>
           if isEC2ErrorCode e [''RouteAlreadyExists'']
           then bind (call (ReplaceRoute A rtbID default_cidr (ToNatGateway natGatewayID))) (\<lambda>err.
             Ret (wrap_err (''upsert nat gateway route in '' @ rtbID) err))
           else Ret (Some (Wrap (''upsert nat gateway route in '' @ rtbID) e)))"

definition disableSourceDestCheck :: "'e ec2_api \<Rightarrow> string \<Rightarrow> ('e, status) prog" where
  "disableSourceDestCheck A eniID = call (ModifySourceDestCheck A eniID False)"

section \<open>Looking up a NAT gateway\<close>

fun nat_by_subnet :: "sdk_nat_gateway list \<Rightarrow> string list \<times> (string \<rightharpoonup> string) \<Rightarrow>
    string list \<times> (string \<rightharpoonup> string)" where
  "nat_by_subnet [] acc = acc"
| "nat_by_subnet (n # ns) (ids, m) =
     nat_by_subnet ns (case (n_NatGatewayId n, n_SubnetId n) of
       (Some gw, Some sn) \<Rightarrow> (ids @ [sn], m(sn \<mapsto> gw))
     | _ \<Rightarrow> (ids, m))"

text \<open>The loop over the subnets; \<open>None\<close> when none of them has both fields and a gateway.\<close>

fun pick_gateway :: "(string \<rightharpoonup> string) \<Rightarrow> string \<Rightarrow> string \<Rightarrow> sdk_subnet list \<Rightarrow> string option" where
  "pick_gateway m preferAZ anyGW [] = (if anyGW \<noteq> '''' then Some anyGW else None)"
| "pick_gateway m preferAZ anyGW (s # ss) =
     (case (s_SubnetId s, AvailabilityZone s) of
        (Some sn, Some az) \<Rightarrow>
          let natGwID = lookup_str m sn; anyGW' = (if anyGW = '''' then natGwID else anyGW) in
          if az = preferAZ then Some natGwID else pick_gateway m preferAZ anyGW' ss
      | _ \<Rightarrow> pick_gateway m preferAZ anyGW ss)"

definition lookupNatGateway ::
  "'e ec2_api \<Rightarrow> string \<Rightarrow> string \<Rightarrow> ('e, string result) prog" where
  "lookupNatGateway A vpcID preferAZ =
     bind (call (DescribeNatGateways A [(''vpc-id'', [vpcID]), (''state'', [''available''])])) (\<lambda>r.
       case r of
         Inl e \<Rightarrow> Ret (Inl (Wrap (''describe nat gateways vpc='' @ vpcID) e))
       | Inr [] \<Rightarrow> Ret (Inl (Msg (''no available nat gateways in vpc='' @ vpcID)))
       | Inr (n # ns) \<Rightarrow>
           (case nat_by_subnet (n # ns) ([], Map.empty) of (subnetIDs, natBySubnet) \<Rightarrow>
              bind (call (DescribeSubnets A [(''subnet-id'', subnetIDs)])) (\<lambda>r.
                case r of
                  Inl e \<Rightarrow> Ret (Inl (Wrap (''describe subnets for nat gateways in vpc='' @ vpcID) e))
                | Inr subnets \<Rightarrow>
                    Ret (case pick_gateway natBySubnet preferAZ '''' subnets of
                      Some gw \<Rightarrow> Inr gw
                    | None \<Rightarrow> Inl (Msg (''no available nat gateway found in vpc='' @ vpcID))))))"

section \<open>Bandwidth of an instance type\<close>

text \<open>
  \<open>strconv.ParseFloat\<close> on a plain decimal: a sign, digits with at most one point, an
  exponent. Hexadecimal forms and the names of infinities and NaN are not included.
\<close>

definition parse_mantissa :: "string \<Rightarrow> real option" where
  "parse_mantissa s =
     (let ds = takeWhile is_digit s; rest = dropWhile is_digit s in
      if rest = [] then (if ds = [] then None else Some (real (dec_val 0 ds)))
      else if hd rest = CHR ''.'' \<and> list_all is_digit (tl rest) \<and> (ds \<noteq> [] \<or> tl rest \<noteq> [])
      then Some (real (dec_val 0 (ds @ tl rest)) / 10 ^ length (tl rest))
      else None)"

definition is_exp_char :: "char \<Rightarrow> bool" where
  "is_exp_char c \<longleftrightarrow> c = CHR ''e'' \<or> c = CHR ''E''"

definition parse_unsigned_float :: "string \<Rightarrow> real option" where
  "parse_unsigned_float s =
     (let m = takeWhile (\<lambda>c. \<not> is_exp_char c) s; e = dropWhile (\<lambda>c. \<not> is_exp_char c) s in
      case parse_mantissa m of
        None \<Rightarrow> None
      | Some v \<Rightarrow>
          if e = [] then Some v
          else (case Atoi (tl e) of
              Inl _ \<Rightarrow> None
            | Inr k \<Rightarrow> Some (if k < 0 then v / 10 ^ nat (- k) else v * 10 ^ nat k)))"

definition ParseFloat :: "string \<Rightarrow> real result" where
  "ParseFloat s =
     (let neg = (s \<noteq> [] \<and> hd s = CHR ''-'');
          t = (if s \<noteq> [] \<and> (hd s = CHR ''-'' \<or> hd s = CHR ''+'') then tl s else s) in
      case parse_unsigned_float t of
        None \<Rightarrow> Inl (Msg ''invalid syntax'')
      | Some v \<Rightarrow> Inr (if neg then - v else v))"

definition parseNetworkPerformanceBps :: "string \<Rightarrow> real result" where
  "parseNetworkPerformanceBps s0 =
     (let s = TrimPrefix (ToLower (TrimSpace s0)) ''up to ''; parts = Fields s in
      case parts of
        v # unit # _ \<Rightarrow>
          (case ParseFloat v of
             Inl e \<Rightarrow> Inl (Wrap (''cannot parse network performance '' @ s) e)
           | Inr val \<Rightarrow>
               if ToLower unit \<in> {''gbps'', ''gigabit''} then Inr (val * 1000000000)
               else if ToLower unit \<in> {''mbps'', ''megabit''} then Inr (val * 1000000)
               else Inl (Msg (''unknown unit in network performance '' @ s)))
      | _ \<Rightarrow> Inl (Msg (''cannot parse network performance '' @ s)))"

definition describeInstanceMaxBandwidth ::
  "'e ec2_api \<Rightarrow> string \<Rightarrow> ('e, real result) prog" where
  "describeInstanceMaxBandwidth A ty =
     bind (call (DescribeInstanceTypes A ty)) (\<lambda>r.
       Ret (case r of
         Inl e \<Rightarrow> Inl (Wrap (''describe instance types '' @ ty) e)
       | Inr [] \<Rightarrow> Inl (Msg (''instance type '' @ ty @ '' not found''))
       | Inr (None # _) \<Rightarrow> Inl (Msg (''no network info for instance type '' @ ty))
       | Inr (Some ni # _) \<Rightarrow>
           (case NetworkPerformance ni of
              Some p \<Rightarrow> parseNetworkPerformanceBps p
            | None \<Rightarrow> Inl (Msg (''cannot determine max bandwidth for instance type '' @ ty)))))"

definition realEC2Client :: "'e ec2_api \<Rightarrow> ec2_settings \<Rightarrow> 'e ec2_client" where
  "realEC2Client A c =
     \<lparr>DisableSourceDestCheck = disableSourceDestCheck A,
      DiscoverRouteTables = discoverRouteTables A c,
      ClaimRouteTable = claimRouteTable A,
      ReleaseRouteTable = releaseRouteTable A,
      LookupNatGateway = lookupNatGateway A,
      DescribeInstanceMaxBandwidth = describeInstanceMaxBandwidth A\<rparr>"

lemma realEC2Client_simps [simp]:
  "DisableSourceDestCheck (realEC2Client A c) = disableSourceDestCheck A"
  "DiscoverRouteTables (realEC2Client A c) = discoverRouteTables A c"
  "ClaimRouteTable (realEC2Client A c) = claimRouteTable A"
  "ReleaseRouteTable (realEC2Client A c) = releaseRouteTable A"
  "LookupNatGateway (realEC2Client A c) = lookupNatGateway A"
  "DescribeInstanceMaxBandwidth (realEC2Client A c) = describeInstanceMaxBandwidth A"
  by (simp_all add: realEC2Client_def)

lemma parse_examples:
  "parseNetworkPerformanceBps ''Up to 25 Gigabit'' = Inr 25000000000"
  "parseNetworkPerformanceBps ''12.5 Gigabit'' = Inr 12500000000"
  "\<not> is_ok (parseNetworkPerformanceBps ''Moderate'')"
  by (simp_all add: parseNetworkPerformanceBps_def Let_def go_string_simps ParseFloat_def
      parse_unsigned_float_def parse_mantissa_def is_exp_char_def char_of_def bit_0)

end
