(* ===== verification/Ec2_Routes.thy ===== *)
theory Ec2_Routes
  imports Ec2
begin

text \<open>
  The route tables behind the EC2 calls. A view of the outside world gives the target of
  every table's default route; \<open>ec2_api_ok\<close> is the documented behaviour of the calls the
  client makes, and the locale \<open>ec2_laws\<close> is what the users of \<open>EC2Client\<close> rely on. The
  AZ tag of a table, \<open>T\<close>, does not change.
\<close>

section \<open>The documented behaviour of the calls\<close>

type_synonym routes = "string \<Rightarrow> target option"

text \<open>A route write: applied on success, applied or not after an error.\<close>

definition route_write :: "string \<Rightarrow> target \<Rightarrow> status \<Rightarrow> routes \<Rightarrow> routes \<Rightarrow> bool" where
  "route_write rtb t r R R' \<longleftrightarrow>
     (r = None \<longrightarrow> R' = R(rtb \<mapsto> t)) \<and> (r \<noteq> None \<longrightarrow> R' = R \<or> R' = R(rtb \<mapsto> t))"

definition create_route_ok :: "'e ec2_api \<Rightarrow> ('e \<Rightarrow> routes) \<Rightarrow> bool" where
  "create_route_ok A RV \<longleftrightarrow> (\<forall>rtb t e r e'. CreateRoute A rtb default_cidr t e = (r, e') \<longrightarrow>
     route_write rtb t r (RV e) (RV e') \<and>
     (\<forall>x. r = Some x \<longrightarrow> isEC2ErrorCode x [''RouteAlreadyExists''] \<longrightarrow> RV e' = RV e))"

definition replace_route_ok :: "'e ec2_api \<Rightarrow> ('e \<Rightarrow> routes) \<Rightarrow> bool" where
  "replace_route_ok A RV \<longleftrightarrow> (\<forall>rtb t e r e'. ReplaceRoute A rtb default_cidr t e = (r, e') \<longrightarrow>
     route_write rtb t r (RV e) (RV e'))"

text \<open>A described table shows its default route and carries the tags of the filters.\<close>

definition shows_route :: "routes \<Rightarrow> sdk_route_table \<Rightarrow> bool" where
  "shows_route R rt \<longleftrightarrow>
     (InstanceID (route_table_entry '''' rt) \<noteq> '''' \<longrightarrow>
        R (RouteTableId rt) = Some (ToInstance (InstanceID (route_table_entry '''' rt)))) \<and>
     (\<forall>i. R (RouteTableId rt) = Some (ToInstance i) \<longrightarrow> InstanceID (route_table_entry '''' rt) = i) \<and>
     (\<forall>g. R (RouteTableId rt) = Some (ToNatGateway g) \<longrightarrow> NatGatewayID (route_table_entry '''' rt) = g)"

definition describe_ok :: "'e ec2_api \<Rightarrow> string \<Rightarrow> ('e \<Rightarrow> routes) \<Rightarrow> (string \<Rightarrow> string) \<Rightarrow> bool" where
  "describe_ok A p RV T \<longleftrightarrow> (\<forall>fs e r e'. DescribeRouteTables A fs e = (r, e') \<longrightarrow> RV e' = RV e \<and>
     (\<forall>ts. r = Inr ts \<longrightarrow> (\<forall>rt \<in> set ts. shows_route (RV e) rt \<and>
       (\<forall>az. (''tag:'' @ p @ ''/az'', [az]) \<in> set fs \<longrightarrow> T (RouteTableId rt) = az))))"

definition keeps_routes :: "('e \<Rightarrow> routes) \<Rightarrow> ('e \<Rightarrow> 'r \<times> 'e) \<Rightarrow> bool" where
  "keeps_routes RV f \<longleftrightarrow> (\<forall>e r e'. f e = (r, e') \<longrightarrow> RV e' = RV e)"

definition ec2_api_ok :: "'e ec2_api \<Rightarrow> string \<Rightarrow> ('e \<Rightarrow> routes) \<Rightarrow> (string \<Rightarrow> string) \<Rightarrow> bool" where
  "ec2_api_ok A p RV T \<longleftrightarrow>
     create_route_ok A RV \<and> replace_route_ok A RV \<and> describe_ok A p RV T \<and>
     (\<forall>eni b. keeps_routes RV (ModifySourceDestCheck A eni b)) \<and>
     (\<forall>fs. keeps_routes RV (DescribeNatGateways A fs)) \<and>
     (\<forall>fs. keeps_routes RV (DescribeSubnets A fs)) \<and>
     (\<forall>ty. keeps_routes RV (DescribeInstanceTypes A ty))"

lemma ec2_api_okD:
  assumes "ec2_api_ok A p RV T"
  shows "CreateRoute A rtb default_cidr t e = (r, e') \<Longrightarrow> route_write rtb t r (RV e) (RV e')"
    and "CreateRoute A rtb default_cidr t e = (Some x, e') \<Longrightarrow>
      isEC2ErrorCode x [''RouteAlreadyExists''] \<Longrightarrow> RV e' = RV e"
    and "ReplaceRoute A rtb default_cidr t e = (r, e') \<Longrightarrow> route_write rtb t r (RV e) (RV e')"
    and "DescribeRouteTables A fs e = (d, e') \<Longrightarrow> RV e' = RV e"
    and "DescribeRouteTables A fs e = (Inr ts, e') \<Longrightarrow> rt \<in> set ts \<Longrightarrow> shows_route (RV e) rt"
    and "DescribeRouteTables A fs e = (Inr ts, e') \<Longrightarrow> rt \<in> set ts \<Longrightarrow>
      (''tag:'' @ p @ ''/az'', [az]) \<in> set fs \<Longrightarrow> T (RouteTableId rt) = az"
    and "DescribeNatGateways A fs e = (ng, e') \<Longrightarrow> RV e' = RV e"
    and "DescribeSubnets A fs e = (sn, e') \<Longrightarrow> RV e' = RV e"
    and "DescribeInstanceTypes A ty e = (it, e') \<Longrightarrow> RV e' = RV e"
    and "ModifySourceDestCheck A eni b e = (r, e') \<Longrightarrow> RV e' = RV e"
  using assms unfolding ec2_api_ok_def create_route_ok_def replace_route_ok_def describe_ok_def keeps_routes_def
  by (simp_all | metis)+

section \<open>The contract of the client interface\<close>

text \<open>What a discovered entry says of the table it names.\<close>

definition entry_of :: "routes \<Rightarrow> (string \<Rightarrow> string) \<Rightarrow> string \<Rightarrow> route_table \<Rightarrow> bool" where
  "entry_of R T az rt \<longleftrightarrow> rt_AZ rt = az \<and> T (ID rt) = az \<and>
     (InstanceID rt \<noteq> '''' \<longrightarrow> R (ID rt) = Some (ToInstance (InstanceID rt))) \<and>
     (\<forall>i. R (ID rt) = Some (ToInstance i) \<longrightarrow> InstanceID rt = i) \<and>
     (\<forall>g. R (ID rt) = Some (ToNatGateway g) \<longrightarrow> NatGatewayID rt = g)"

locale ec2_laws =
  fixes C :: "'e ec2_client" and RV :: "'e \<Rightarrow> routes" and T :: "string \<Rightarrow> string" and ok :: bool
  assumes claim_writes: "ok \<Longrightarrow> run (ClaimRouteTable C rtb i) e = (r, e') \<Longrightarrow>
      route_write rtb (ToInstance i) r (RV e) (RV e')"
    and release_writes: "ok \<Longrightarrow> run (ReleaseRouteTable C rtb g) e = (r, e') \<Longrightarrow>
      route_write rtb (ToNatGateway g) r (RV e) (RV e')"
    and discover_reads: "ok \<Longrightarrow> run (DiscoverRouteTables C az) e = (d, e') \<Longrightarrow>
      RV e' = RV e \<and> (\<forall>ts rt. d = Inr ts \<longrightarrow> rt \<in> set ts \<longrightarrow> entry_of (RV e) T az rt)"
    and lookup_reads: "ok \<Longrightarrow> run (LookupNatGateway C vpc az) e = (l, e') \<Longrightarrow> RV e' = RV e"

lemma route_write_same: "RV e1 = R \<Longrightarrow> route_write rtb t r (RV e1) R' \<Longrightarrow> route_write rtb t r R R'"
  by simp

lemma claim_route_write:
  assumes ok: "ec2_api_ok A p RV T" and run: "run (claimRouteTable A rtb i) e = (r, e')"
  shows "route_write rtb (ToInstance i) r (RV e) (RV e')"
proof -
  obtain c e1 where c: "CreateRoute A rtb default_cidr (ToInstance i) e = (c, e1)" by fastforce
  note cr = ec2_api_okD(1) [OF ok c]
  show ?thesis
  proof (cases "\<exists>x. c = Some x \<and> isEC2ErrorCode x [''RouteAlreadyExists'']")
    case True
    then obtain x where x: "c = Some x" "isEC2ErrorCode x [''RouteAlreadyExists'']" by blast
    obtain d e2 where d: "ReplaceRoute A rtb default_cidr (ToInstance i) e1 = (d, e2)" by fastforce
    have "RV e1 = RV e" using ec2_api_okD(2) [OF ok _ x(2)] c x(1) by blast
    with ec2_api_okD(3) [OF ok d] run c d x show ?thesis
      by (auto simp: claimRouteTable_def wrap_err_def route_write_def)
  next
    case False
    with run c cr show ?thesis
      by (cases c) (auto simp: claimRouteTable_def route_write_def split: if_splits)
  qed
qed

lemma release_route_write:
  assumes ok: "ec2_api_ok A p RV T" and run: "run (releaseRouteTable A rtb g) e = (r, e')"
  shows "route_write rtb (ToNatGateway g) r (RV e) (RV e')"
proof -
  obtain c e1 where c: "CreateRoute A rtb default_cidr (ToNatGateway g) e = (c, e1)" by fastforce
  note cr = ec2_api_okD(1) [OF ok c]
  show ?thesis
  proof (cases "\<exists>x. c = Some x \<and> isEC2ErrorCode x [''RouteAlreadyExists'']")
    case True
    then obtain x where x: "c = Some x" "isEC2ErrorCode x [''RouteAlreadyExists'']" by blast
    obtain d e2 where d: "ReplaceRoute A rtb default_cidr (ToNatGateway g) e1 = (d, e2)" by fastforce
    have "RV e1 = RV e" using ec2_api_okD(2) [OF ok _ x(2)] c x(1) by blast
    with ec2_api_okD(3) [OF ok d] run c d x show ?thesis
      by (auto simp: releaseRouteTable_def wrap_err_def route_write_def)
  next
    case False
    with run c cr show ?thesis
      by (cases c) (auto simp: releaseRouteTable_def route_write_def split: if_splits)
  qed
qed

lemma shows_route_entry:
  assumes "shows_route R rt" and "T (RouteTableId rt) = az"
  shows "entry_of R T az (route_table_entry az rt)"
proof -
  have "InstanceID (route_table_entry az rt) = InstanceID (route_table_entry '''' rt)"
    and "NatGatewayID (route_table_entry az rt) = NatGatewayID (route_table_entry '''' rt)"
    and "ID (route_table_entry az rt) = RouteTableId rt" and "rt_AZ (route_table_entry az rt) = az"
    by (simp_all add: route_table_entry_def)
  with assms show ?thesis unfolding shows_route_def entry_of_def by metis
qed

lemma discover_entries:
  assumes ok: "ec2_api_ok A (tagPrefix c) RV T" and run: "run (discoverRouteTables A c az) e = (d, e')"
  shows "RV e' = RV e \<and> (\<forall>ts rt. d = Inr ts \<longrightarrow> rt \<in> set ts \<longrightarrow> entry_of (RV e) T az rt)"
proof -
  let ?fs = "[managed_filter c, (''tag:'' @ tagPrefix c @ ''/az'', [az])]"
  obtain x e1 where c: "DescribeRouteTables A ?fs e = (x, e1)" by fastforce
  have keep: "RV e1 = RV e" by (rule ec2_api_okD(4) [OF ok c])
  show ?thesis
  proof (cases x)
    case (Inl err)
    with run c have "e' = e1" and "\<nexists>ts. d = Inr ts" by (auto simp: discoverRouteTables_def)
    with keep show ?thesis by simp
  next
    case (Inr ts)
    with run c have e': "e' = e1" and d: "d = Inr (map (route_table_entry az) ts)"
      by (simp_all add: discoverRouteTables_def)
    have "entry_of (RV e) T az (route_table_entry az rt)" if rt: "rt \<in> set ts" for rt
    proof (rule shows_route_entry)
      show "shows_route (RV e) rt" by (rule ec2_api_okD(5) [OF ok c [unfolded Inr] rt])
      show "T (RouteTableId rt) = az"
        by (rule ec2_api_okD(6) [OF ok c [unfolded Inr] rt]) simp
    qed
    then show ?thesis using keep by (auto simp: e' d)
  qed
qed

lemma lookup_keeps_routes:
  assumes ok: "ec2_api_ok A p RV T" and run: "run (lookupNatGateway A vpc az) e = (l, e')"
  shows "RV e' = RV e"
proof -
  obtain x e1 where c: "DescribeNatGateways A [(''vpc-id'', [vpc]), (''state'', [''available''])] e = (x, e1)"
    by fastforce
  have 1: "RV e1 = RV e" by (rule ec2_api_okD(7) [OF ok c])
  show ?thesis
  proof (cases "\<exists>n ns. x = Inr (n # ns)")
    case True
    then obtain n ns where x: "x = Inr (n # ns)" by blast
    obtain ids m where m: "nat_by_subnet (n # ns) ([], Map.empty) = (ids, m)" by fastforce
    obtain y e2 where d: "DescribeSubnets A [(''subnet-id'', ids)] e1 = (y, e2)" by fastforce
    have "e' = e2"
      using run c x m d by (cases y) (auto simp: lookupNatGateway_def simp del: nat_by_subnet.simps)
    with 1 ec2_api_okD(8) [OF ok d] show ?thesis by simp
  next
    case False
    with run c 1 show ?thesis
      by (auto simp: lookupNatGateway_def split: sum.splits list.splits)
  qed
qed

interpretation ec2_real: ec2_laws "realEC2Client A c" RV T "ec2_api_ok A (tagPrefix c) RV T"
  for A :: "'e ec2_api" and c RV T
  by unfold_locales (simp_all add: claim_route_write release_route_write discover_entries lookup_keeps_routes)

section \<open>Which gateway is chosen\<close>

text \<open>
  Reference reading of the two loops: the gateway of a subnet is that of the last NAT
  gateway listed for it; a gateway in the preferred AZ wins over the first one found.
\<close>

lemma nat_by_subnet_ran:
  "snd (nat_by_subnet ns (ids, m)) sn = Some gw \<Longrightarrow>
   m sn = Some gw \<or> (\<exists>n \<in> set ns. n_NatGatewayId n = Some gw \<and> n_SubnetId n = Some sn)"
proof (induction ns arbitrary: ids m)
  case (Cons n ns)
  show ?case
  proof (cases "n_NatGatewayId n = None \<or> n_SubnetId n = None")
    case True
    then have "nat_by_subnet (n # ns) (ids, m) = nat_by_subnet ns (ids, m)"
      by (auto split: option.split)
    with Cons.IH [of ids m] Cons.prems show ?thesis by simp blast
  next
    case False
    then obtain g s where g: "n_NatGatewayId n = Some g" "n_SubnetId n = Some s" by auto
    with Cons.prems have "snd (nat_by_subnet ns (ids @ [s], m(s \<mapsto> g))) sn = Some gw" by simp
    from Cons.IH [OF this] g show ?thesis by (auto split: if_splits)
  qed
qed simp

text \<open>A subnet whose gateway is known, in a given AZ.\<close>

definition gateway_in :: "(string \<rightharpoonup> string) \<Rightarrow> string \<Rightarrow> sdk_subnet list \<Rightarrow> string \<Rightarrow> bool" where
  "gateway_in m az ss gw \<longleftrightarrow> (\<exists>s \<in> set ss. \<exists>sn. s_SubnetId s = Some sn \<and>
     AvailabilityZone s = Some az \<and> lookup_str m sn = gw)"

lemma pick_gateway_spec:
  "pick_gateway m az anyGW ss = Some gw \<Longrightarrow>
   gateway_in m az ss gw \<or>
   (\<nexists>g. gateway_in m az ss g) \<and> (gw = anyGW \<or> (\<exists>z. gateway_in m z ss gw)) \<and> gw \<noteq> ''''"
proof (induction ss arbitrary: anyGW)
  case Nil
  then show ?case by (simp add: gateway_in_def split: if_splits)
next
  case (Cons s ss)
  show ?case
  proof (cases "s_SubnetId s = None \<or> AvailabilityZone s = None")
    case True
    then have "pick_gateway m az anyGW (s # ss) = pick_gateway m az anyGW ss"
      and "\<And>z g. gateway_in m z (s # ss) g \<longleftrightarrow> gateway_in m z ss g"
      by (auto simp: gateway_in_def split: option.split)
    with Cons.IH [of anyGW] Cons.prems show ?thesis by simp
  next
    case False
    then obtain sn z where s: "s_SubnetId s = Some sn" "AvailabilityZone s = Some z" by auto
    have g: "gateway_in m y (s # ss) g \<longleftrightarrow> (y = z \<and> g = lookup_str m sn) \<or> gateway_in m y ss g" for y g
      by (auto simp: gateway_in_def s)
    show ?thesis
    proof (cases "z = az")
      case True
      with Cons.prems s show ?thesis by (simp add: Let_def g)
    next
      case False
      let ?any = "if anyGW = '''' then lookup_str m sn else anyGW"
      have "pick_gateway m az ?any ss = Some gw"
        using Cons.prems s False by (simp add: Let_def)
      from Cons.IH [OF this] False show ?thesis unfolding g by (auto split: if_splits)
    qed
  qed
qed

end
