(* ===== verification/Nat_Manager.thy ===== *)
theory Nat_Manager
  imports Go_Base
begin

text \<open>
  \<open>internal/nat/manager.go\<close> and \<open>internal/nat/sysctl.go\<close>: the rules and kernel settings
  of a NAT node. The go-iptables library and the kernel's files are the outside world:
  \<open>'e iptables_api\<close> holds the calls of \<open>iptablesAPI\<close> and \<open>os.WriteFile\<close>, and
  \<open>iptables_ok\<close> says what they do to the chains and files seen through a view. The Go
  interface \<open>nat.Manager\<close> is the record \<open>nat_manager\<close>, implemented by \<open>iptablesManager\<close>.
\<close>

section \<open>The interfaces\<close>

record 'e iptables_api =
  ipt_Exists :: "string \<Rightarrow> string \<Rightarrow> string list \<Rightarrow> 'e \<Rightarrow> bool result \<times> 'e"
  ipt_Append :: "string \<Rightarrow> string \<Rightarrow> string list \<Rightarrow> 'e \<Rightarrow> status \<times> 'e"
  ipt_Insert :: "string \<Rightarrow> string \<Rightarrow> int \<Rightarrow> string list \<Rightarrow> 'e \<Rightarrow> status \<times> 'e"
  ipt_Delete :: "string \<Rightarrow> string \<Rightarrow> string list \<Rightarrow> 'e \<Rightarrow> status \<times> 'e"
  ipt_List :: "string \<Rightarrow> string \<Rightarrow> 'e \<Rightarrow> string list result \<times> 'e"
  WriteFile :: "string \<Rightarrow> string \<Rightarrow> 'e \<Rightarrow> status \<times> 'e"

record 'e nat_manager =
  EnsureMasquerade :: "string \<Rightarrow> ('e, status) prog"
  MasqueradeExists :: "string \<Rightarrow> ('e, bool result) prog"
  EnableIPForward :: "('e, status) prog"
  SetConntrackMax :: "int \<Rightarrow> ('e, status) prog"
  EnsureStaleFlowReset :: "string \<Rightarrow> ('e, status) prog"

section \<open>Sysctls\<close>

definition writeSysctl :: "'e iptables_api \<Rightarrow> string \<Rightarrow> string \<Rightarrow> ('e, status) prog" where
  "writeSysctl I path value =
     bind (call (WriteFile I path value)) (\<lambda>err.
       Ret (map_option (Wrap (''sysctl '' @ path @ ''='' @ value)) err))"

definition procSysRoot :: string where
  "procSysRoot = ''/host/proc/sys''"

definition SetPortRange :: "'e iptables_api \<Rightarrow> string \<Rightarrow> ('e, status) prog" where
  "SetPortRange I portRange =
     (if portRange = '''' then Ret None
      else writeSysctl I ''/host/proc/sys/net/ipv4/ip_local_port_range'' portRange)"

definition ip_forward_path :: string where
  "ip_forward_path = ''/host/proc/sys/net/ipv4/ip_forward''"

definition tcp_loose_path :: string where
  "tcp_loose_path = procSysRoot @ ''/net/netfilter/nf_conntrack_tcp_loose''"

section \<open>The manager\<close>

definition masqueradeRule :: "string \<Rightarrow> string list" where
  "masqueradeRule iface = [''-o'', iface, ''-j'', ''MASQUERADE'',
     ''-m'', ''comment'', ''--comment'', ''kube-nat managed rule'']"

definition ensureMasquerade :: "'e iptables_api \<Rightarrow> string \<Rightarrow> ('e, status) prog" where
  "ensureMasquerade I iface =
     bind (call (ipt_Exists I ''nat'' ''POSTROUTING'' (masqueradeRule iface))) (\<lambda>r.
       case r of
         Inl e \<Rightarrow> Ret (Some (Wrap ''check rule'' e))
       | Inr True \<Rightarrow> Ret None
       | Inr False \<Rightarrow> call (ipt_Append I ''nat'' ''POSTROUTING'' (masqueradeRule iface)))"

definition masqueradeExists :: "'e iptables_api \<Rightarrow> string \<Rightarrow> ('e, bool result) prog" where
  "masqueradeExists I iface = call (ipt_Exists I ''nat'' ''POSTROUTING'' (masqueradeRule iface))"

definition enableIPForward :: "'e iptables_api \<Rightarrow> ('e, status) prog" where
  "enableIPForward I = writeSysctl I ip_forward_path ''1''"

definition setConntrackMax :: "'e iptables_api \<Rightarrow> int \<Rightarrow> ('e, status) prog" where
  "setConntrackMax I mx =
     (if mx \<le> 0 then Ret None
      else writeSysctl I ''/host/proc/sys/net/netfilter/nf_conntrack_max'' (Itoa mx))"

definition staleFlowResetComment :: string where
  "staleFlowResetComment = ''kube-nat stale flow reset''"

definition staleFlowResetRule :: "string \<Rightarrow> string list" where
  "staleFlowResetRule iface = [''-o'', iface, ''-p'', ''tcp'',
     ''-m'', ''conntrack'', ''--ctstate'', ''INVALID'',
     ''-m'', ''comment'', ''--comment'', staleFlowResetComment,
     ''-j'', ''REJECT'', ''--reject-with'', ''tcp-reset'']"

fun first_rule_is_reset :: "string list \<Rightarrow> bool" where
  "first_rule_is_reset [] = False"
| "first_rule_is_reset (r # rs) =
     (if HasPrefix r ''-P '' then first_rule_is_reset rs else Contains r staleFlowResetComment)"

definition isFirstForwardRule :: "'e iptables_api \<Rightarrow> ('e, bool result) prog" where
  "isFirstForwardRule I =
     bind (call (ipt_List I ''filter'' ''FORWARD'')) (\<lambda>r.
       Ret (case r of
         Inl e \<Rightarrow> Inl (Wrap ''list FORWARD'' e)
       | Inr rules \<Rightarrow> Inr (first_rule_is_reset rules)))"

definition ensureStaleFlowReset :: "'e iptables_api \<Rightarrow> string \<Rightarrow> ('e, status) prog" where
  "ensureStaleFlowReset I iface =
     (let rule = staleFlowResetRule iface;
          insert_rule = bind (call (ipt_Insert I ''filter'' ''FORWARD'' 1 rule)) (\<lambda>err.
            case err of
              Some e \<Rightarrow> Ret (Some (Wrap ''insert stale flow rule'' e))
            | None \<Rightarrow> writeSysctl I tcp_loose_path ''0'')
      in bind (isFirstForwardRule I) (\<lambda>first.
        case first of
          Inl e \<Rightarrow> Ret (Some e)
        | Inr True \<Rightarrow> writeSysctl I tcp_loose_path ''0''
        | Inr False \<Rightarrow>
            bind (call (ipt_Exists I ''filter'' ''FORWARD'' rule)) (\<lambda>ex.
              case ex of
                Inl e \<Rightarrow> Ret (Some (Wrap ''check stale flow rule'' e))
              | Inr True \<Rightarrow>
                  bind (call (ipt_Delete I ''filter'' ''FORWARD'' rule)) (\<lambda>err.
                    case err of
                      Some e \<Rightarrow> Ret (Some (Wrap ''move stale flow rule'' e))
                    | None \<Rightarrow> insert_rule)
              | Inr False \<Rightarrow> insert_rule)))"

definition iptablesManager :: "'e iptables_api \<Rightarrow> 'e nat_manager" where
  "iptablesManager I =
     \<lparr>EnsureMasquerade = ensureMasquerade I, MasqueradeExists = masqueradeExists I,
      EnableIPForward = enableIPForward I, SetConntrackMax = setConntrackMax I,
      EnsureStaleFlowReset = ensureStaleFlowReset I\<rparr>"

lemma iptablesManager_simps [simp]:
  "EnsureMasquerade (iptablesManager I) = ensureMasquerade I"
  "MasqueradeExists (iptablesManager I) = masqueradeExists I"
  "EnableIPForward (iptablesManager I) = enableIPForward I"
  "SetConntrackMax (iptablesManager I) = setConntrackMax I"
  "EnsureStaleFlowReset (iptablesManager I) = ensureStaleFlowReset I"
  by (simp_all add: iptablesManager_def)

section \<open>The kernel behind the calls\<close>

text \<open>
  The rules of each chain, in order, and the contents of the kernel's files. A failed
  command leaves both alone. \<open>List\<close> prints the policy lines and then each rule; a rule's
  line contains its comment, and no other rule's line contains that comment unless the rule
  has it.
\<close>

record kernel =
  chain_rules :: "string \<times> string \<Rightarrow> string list list"
  files :: "string \<Rightarrow> string option"

definition has_reset_comment :: "string list \<Rightarrow> bool" where
  "has_reset_comment rule \<longleftrightarrow> staleFlowResetComment \<in> set rule"

definition list_shows :: "string list list \<Rightarrow> string list \<Rightarrow> bool" where
  "list_shows rules ls \<longleftrightarrow>
     list_all2 (\<lambda>rule l. Contains l staleFlowResetComment \<longleftrightarrow> has_reset_comment rule) rules
       (filter (\<lambda>l. \<not> HasPrefix l ''-P '') ls)"

definition ipt_done :: "status \<Rightarrow> kernel \<Rightarrow> kernel \<Rightarrow> kernel \<Rightarrow> bool" where
  "ipt_done err k' k dn \<longleftrightarrow> (if err = None then k' = dn else k' = k)"

definition iptables_ok :: "'e iptables_api \<Rightarrow> ('e \<Rightarrow> kernel) \<Rightarrow> bool" where
  "iptables_ok I N \<longleftrightarrow>
     (\<forall>t c r e x e'. ipt_Exists I t c r e = (x, e') \<longrightarrow>
        N e' = N e \<and> (\<forall>b. x = Inr b \<longrightarrow> (b \<longleftrightarrow> r \<in> set (chain_rules (N e) (t, c))))) \<and>
     (\<forall>t c r e x e'. ipt_Append I t c r e = (x, e') \<longrightarrow> ipt_done x (N e') (N e)
        ((N e)\<lparr>chain_rules := (chain_rules (N e))((t, c) := chain_rules (N e) (t, c) @ [r])\<rparr>)) \<and>
     (\<forall>t c r e x e'. ipt_Insert I t c 1 r e = (x, e') \<longrightarrow> ipt_done x (N e') (N e)
        ((N e)\<lparr>chain_rules := (chain_rules (N e))((t, c) := r # chain_rules (N e) (t, c))\<rparr>)) \<and>
     (\<forall>t c r e x e'. ipt_Delete I t c r e = (x, e') \<longrightarrow> ipt_done x (N e') (N e)
        ((N e)\<lparr>chain_rules := (chain_rules (N e))((t, c) := remove1 r (chain_rules (N e) (t, c)))\<rparr>)) \<and>
     (\<forall>t c e x e'. ipt_List I t c e = (x, e') \<longrightarrow>
        N e' = N e \<and> (\<forall>ls. x = Inr ls \<longrightarrow> list_shows (chain_rules (N e) (t, c)) ls)) \<and>
     (\<forall>p v e x e'. WriteFile I p v e = (x, e') \<longrightarrow> ipt_done x (N e') (N e)
        ((N e)\<lparr>files := (files (N e))(p \<mapsto> v)\<rparr>))"

lemma Exists_spec: "iptables_ok I N \<Longrightarrow> ipt_Exists I t c r e = (x, e') \<Longrightarrow>
    N e' = N e \<and> (\<forall>b. x = Inr b \<longrightarrow> (b \<longleftrightarrow> r \<in> set (chain_rules (N e) (t, c))))"
  unfolding iptables_ok_def by simp

lemma Append_spec: "iptables_ok I N \<Longrightarrow> ipt_Append I t c r e = (x, e') \<Longrightarrow> ipt_done x (N e') (N e)
    ((N e)\<lparr>chain_rules := (chain_rules (N e))((t, c) := chain_rules (N e) (t, c) @ [r])\<rparr>)"
  unfolding iptables_ok_def by simp

lemma Insert_spec: "iptables_ok I N \<Longrightarrow> ipt_Insert I t c 1 r e = (x, e') \<Longrightarrow> ipt_done x (N e') (N e)
    ((N e)\<lparr>chain_rules := (chain_rules (N e))((t, c) := r # chain_rules (N e) (t, c))\<rparr>)"
  unfolding iptables_ok_def by simp

lemma Delete_spec: "iptables_ok I N \<Longrightarrow> ipt_Delete I t c r e = (x, e') \<Longrightarrow> ipt_done x (N e') (N e)
    ((N e)\<lparr>chain_rules := (chain_rules (N e))((t, c) := remove1 r (chain_rules (N e) (t, c)))\<rparr>)"
  unfolding iptables_ok_def by simp

lemma List_spec: "iptables_ok I N \<Longrightarrow> ipt_List I t c e = (x, e') \<Longrightarrow>
    N e' = N e \<and> (\<forall>ls. x = Inr ls \<longrightarrow> list_shows (chain_rules (N e) (t, c)) ls)"
  unfolding iptables_ok_def by simp

lemma WriteFile_spec: "iptables_ok I N \<Longrightarrow> WriteFile I p v e = (x, e') \<Longrightarrow> ipt_done x (N e') (N e)
    ((N e)\<lparr>files := (files (N e))(p \<mapsto> v)\<rparr>)"
  unfolding iptables_ok_def by simp

section \<open>What each operation does\<close>

lemma first_rule_is_reset_shows:
  "list_shows rules ls \<Longrightarrow> first_rule_is_reset ls \<longleftrightarrow> rules \<noteq> [] \<and> has_reset_comment (hd rules)"
  by (induction ls) (auto simp: list_shows_def list_all2_Cons2)

lemma run_writeSysctl:
  assumes "iptables_ok I N" and "run (writeSysctl I p v) e = (r, e')"
  shows "ipt_done r (N e') (N e) ((N e)\<lparr>files := (files (N e))(p \<mapsto> v)\<rparr>)"
proof -
  obtain x e1 where c: "WriteFile I p v e = (x, e1)" by fastforce
  with assms(2) have "e' = e1" "r = None \<longleftrightarrow> x = None" by (auto simp: writeSysctl_def)
  with WriteFile_spec [OF assms(1) c] show ?thesis by (simp add: ipt_done_def)
qed

lemma run_ensureMasquerade:
  assumes "iptables_ok I N" and "run (ensureMasquerade I i) e = (r, e')"
  shows "ipt_done r (N e') (N e)
    (if masqueradeRule i \<in> set (chain_rules (N e) (''nat'', ''POSTROUTING'')) then N e
     else (N e)\<lparr>chain_rules := (chain_rules (N e))((''nat'', ''POSTROUTING'') :=
       chain_rules (N e) (''nat'', ''POSTROUTING'') @ [masqueradeRule i])\<rparr>)"
proof -
  obtain x e1 where c: "ipt_Exists I ''nat'' ''POSTROUTING'' (masqueradeRule i) e = (x, e1)" by fastforce
  note ex = Exists_spec [OF assms(1) c]
  show ?thesis
  proof (cases x)
    case (Inl err)
    with c ex assms(2) show ?thesis by (auto simp: ensureMasquerade_def ipt_done_def)
  next
    case (Inr b)
    then show ?thesis
    proof (cases b)
      case True
      with Inr c ex assms(2) show ?thesis by (auto simp: ensureMasquerade_def ipt_done_def)
    next
      case False
      with Inr c assms(2) have "ipt_Append I ''nat'' ''POSTROUTING'' (masqueradeRule i) e1 = (r, e')"
        by (simp add: ensureMasquerade_def)
      from Append_spec [OF assms(1) this] ex Inr False show ?thesis by auto
    qed
  qed
qed

lemma run_isFirstForwardRule:
  assumes "iptables_ok I N" and "run (isFirstForwardRule I) e = (r, e')"
  shows "N e' = N e \<and> (\<forall>b. r = Inr b \<longrightarrow>
    (b \<longleftrightarrow> chain_rules (N e) (''filter'', ''FORWARD'') \<noteq> [] \<and>
      has_reset_comment (hd (chain_rules (N e) (''filter'', ''FORWARD'')))))"
proof -
  obtain x e1 where c: "ipt_List I ''filter'' ''FORWARD'' e = (x, e1)" by fastforce
  with List_spec [OF assms(1) c] assms(2) first_rule_is_reset_shows show ?thesis
    by (cases x) (auto simp: isFirstForwardRule_def)
qed

text \<open>The chain after the reset rule has been put first, and the setting written.\<close>

definition reset_first :: "string \<Rightarrow> kernel \<Rightarrow> kernel" where
  "reset_first iface k =
     (let fw = chain_rules k (''filter'', ''FORWARD''); rule = staleFlowResetRule iface in
      if fw \<noteq> [] \<and> has_reset_comment (hd fw) then k
      else k\<lparr>chain_rules := (chain_rules k)((''filter'', ''FORWARD'') := rule # remove1 rule fw)\<rparr>)"


lemma reset_first_front:
  "\<exists>rule rest. chain_rules (reset_first iface k) (''filter'', ''FORWARD'') = rule # rest \<and> has_reset_comment rule"
proof (cases "chain_rules k (''filter'', ''FORWARD'')")
  case (Cons r rs)
  then show ?thesis
    by (cases "has_reset_comment r")
      (auto simp: reset_first_def Let_def has_reset_comment_def staleFlowResetRule_def)
qed (simp add: reset_first_def has_reset_comment_def staleFlowResetRule_def)

lemma reset_first_idem: "reset_first iface (reset_first iface k) = reset_first iface k"
proof -
  obtain rule rest where "chain_rules (reset_first iface k) (''filter'', ''FORWARD'') = rule # rest"
    and "has_reset_comment rule"
    using reset_first_front by blast
  then show ?thesis unfolding reset_first_def [of iface "reset_first iface k"] by simp
qed

lemma run_insert_then_write:
  assumes ok: "iptables_ok I N"
    and run: "run (bind (call (ipt_Insert I ''filter'' ''FORWARD'' 1 rule)) (\<lambda>err.
      case err of Some e \<Rightarrow> Ret (Some (Wrap ''insert stale flow rule'' e))
      | None \<Rightarrow> writeSysctl I tcp_loose_path ''0'')) e = (r, e')"
  shows "if r = None then N e' = (N e)\<lparr>chain_rules := (chain_rules (N e))((''filter'', ''FORWARD'') :=
      rule # chain_rules (N e) (''filter'', ''FORWARD'')), files := (files (N e))(tcp_loose_path \<mapsto> ''0'')\<rparr>
    else files (N e') = files (N e) \<and> (\<forall>c. chain_rules (N e') (''nat'', c) = chain_rules (N e) (''nat'', c))"
proof -
  obtain x e1 where c: "ipt_Insert I ''filter'' ''FORWARD'' 1 rule e = (x, e1)" by fastforce
  note spec = Insert_spec [OF ok c]
  show ?thesis
  proof (cases x)
    case None
    with run c have "run (writeSysctl I tcp_loose_path ''0'') e1 = (r, e')" by simp
    from run_writeSysctl [OF ok this] spec None show ?thesis by (auto simp: ipt_done_def)
  next
    case (Some err)
    with run c spec show ?thesis by (auto simp: ipt_done_def)
  qed
qed

lemma run_ensureStaleFlowReset:
  assumes ok: "iptables_ok I N" and run: "run (ensureStaleFlowReset I iface) e = (r, e')"
  shows "if r = None
    then N e' = (reset_first iface (N e))\<lparr>files := (files (N e))(tcp_loose_path \<mapsto> ''0'')\<rparr>
    else files (N e') = files (N e) \<and> (\<forall>c. chain_rules (N e') (''nat'', c) = chain_rules (N e) (''nat'', c))"
proof -
  let ?rule = "staleFlowResetRule iface"
  let ?fw = "\<lambda>e. chain_rules (N e) (''filter'', ''FORWARD'')"
  obtain first e1 where f: "run (isFirstForwardRule I) e = (first, e1)" by fastforce
  note first = run_isFirstForwardRule [OF ok f]
  show ?thesis
  proof (cases first)
    case (Inl err)
    with run f first show ?thesis by (auto simp: ensureStaleFlowReset_def Let_def)
  next
    case (Inr b)
    show ?thesis
    proof (cases b)
      case True
      with Inr run f have "run (writeSysctl I tcp_loose_path ''0'') e1 = (r, e')"
        by (simp add: ensureStaleFlowReset_def Let_def)
      from run_writeSysctl [OF ok this] first Inr True show ?thesis
        by (auto simp: ipt_done_def reset_first_def Let_def)
    next
      case False
      have not_first: "\<not> (?fw e \<noteq> [] \<and> has_reset_comment (hd (?fw e)))" and N1: "N e1 = N e"
        using first Inr False by auto
      obtain ex e2 where x: "ipt_Exists I ''filter'' ''FORWARD'' ?rule e1 = (ex, e2)" by fastforce
      note exists = Exists_spec [OF ok x]
      show ?thesis
      proof (cases ex)
        case (Inl err)
        with Inr False run f x exists N1 show ?thesis by (auto simp: ensureStaleFlowReset_def Let_def)
      next
        case there: (Inr c)
        show ?thesis
        proof (cases c)
          case True
          obtain d e3 where dl: "ipt_Delete I ''filter'' ''FORWARD'' ?rule e2 = (d, e3)" by fastforce
          note del = Delete_spec [OF ok dl]
          show ?thesis
          proof (cases d)
            case None
            with True there Inr False run f x dl have "run (bind (call (ipt_Insert I ''filter'' ''FORWARD'' 1 ?rule)) (\<lambda>err.
                case err of Some e \<Rightarrow> Ret (Some (Wrap ''insert stale flow rule'' e))
                | None \<Rightarrow> writeSysctl I tcp_loose_path ''0'')) e3 = (r, e')"
              by (simp add: ensureStaleFlowReset_def Let_def)
            from run_insert_then_write [OF ok this] del None exists N1 not_first show ?thesis
              by (auto simp: ipt_done_def reset_first_def Let_def)
          next
            case (Some err)
            with True there Inr False run f x dl del exists N1 show ?thesis
              by (auto simp: ensureStaleFlowReset_def Let_def ipt_done_def)
          qed
        next
          case absent: False
          with there Inr False run f x have "run (bind (call (ipt_Insert I ''filter'' ''FORWARD'' 1 ?rule)) (\<lambda>err.
              case err of Some e \<Rightarrow> Ret (Some (Wrap ''insert stale flow rule'' e))
              | None \<Rightarrow> writeSysctl I tcp_loose_path ''0'')) e2 = (r, e')"
            by (simp add: ensureStaleFlowReset_def Let_def)
          moreover have "?rule \<notin> set (?fw e)" using exists there absent N1 by auto
          ultimately show ?thesis
            using run_insert_then_write [OF ok] exists N1 not_first
            by (auto simp: reset_first_def Let_def remove1_idem)
        qed
      qed
    qed
  qed
qed

section \<open>The contract of the interface\<close>

definition masqueraded :: "string \<Rightarrow> kernel \<Rightarrow> bool" where
  "masqueraded iface k \<longleftrightarrow> masqueradeRule iface \<in> set (chain_rules k (''nat'', ''POSTROUTING''))"

definition forwarding :: "kernel \<Rightarrow> bool" where
  "forwarding k \<longleftrightarrow> files k ip_forward_path = Some ''1''"

locale nat_laws =
  fixes M :: "'e nat_manager" and N :: "'e \<Rightarrow> kernel" and ok :: bool
  assumes masquerade_done:
      "ok \<Longrightarrow> run (EnsureMasquerade M i) e = (None, e') \<Longrightarrow> masqueraded i (N e')"
    and forward_done: "ok \<Longrightarrow> run (EnableIPForward M) e = (None, e') \<Longrightarrow> forwarding (N e')"
    and forward_keeps: "ok \<Longrightarrow> run (EnableIPForward M) e = (r, e') \<Longrightarrow> masqueraded i (N e) \<Longrightarrow>
      masqueraded i (N e')"
    and reset_keeps: "ok \<Longrightarrow> run (EnsureStaleFlowReset M j) e = (r, e') \<Longrightarrow>
      (masqueraded i (N e) \<longrightarrow> masqueraded i (N e')) \<and> (forwarding (N e) \<longrightarrow> forwarding (N e'))"
    and exists_reads: "ok \<Longrightarrow> run (MasqueradeExists M i) e = (x, e') \<Longrightarrow>
      N e' = N e \<and> (\<forall>b. x = Inr b \<longrightarrow> (b \<longleftrightarrow> masqueraded i (N e)))"
begin

text \<open>The order \<open>SetupDataPlane\<close> applies them in ends with both in place.\<close>

lemma data_plane_order:
  assumes ok and "run (EnsureMasquerade M i) e = (None, e1)" and "run (EnableIPForward M) e1 = (None, e2)"
  shows "masqueraded i (N e2) \<and> forwarding (N e2)"
  using masquerade_done [OF assms(1,2)] forward_keeps [OF assms(1,3)] forward_done [OF assms(1,3)] by blast

end

interpretation nat_real: nat_laws "iptablesManager I" N "iptables_ok I N" for I :: "'e iptables_api" and N
proof
  fix i e e' assume "iptables_ok I N" "run (EnsureMasquerade (iptablesManager I) i) e = (None, e')"
  with run_ensureMasquerade [of I N i e None e'] show "masqueraded i (N e')"
    by (auto simp: ipt_done_def masqueraded_def split: if_splits)
next
  fix e e' assume "iptables_ok I N" "run (EnableIPForward (iptablesManager I)) e = (None, e')"
  with run_writeSysctl [of I N ip_forward_path "''1''" e None e'] show "forwarding (N e')"
    by (simp add: enableIPForward_def ipt_done_def forwarding_def)
next
  fix e r e' i assume "iptables_ok I N" "run (EnableIPForward (iptablesManager I)) e = (r, e')"
    "masqueraded i (N e)"
  with run_writeSysctl [of I N ip_forward_path "''1''" e r e'] show "masqueraded i (N e')"
    by (auto simp: enableIPForward_def ipt_done_def masqueraded_def split: if_splits)
next
  fix j e r e' i assume "iptables_ok I N" "run (EnsureStaleFlowReset (iptablesManager I) j) e = (r, e')"
  then have "run (ensureStaleFlowReset I j) e = (r, e')" by simp
  from run_ensureStaleFlowReset [OF \<open>iptables_ok I N\<close> this]
  have "(\<forall>c. chain_rules (N e') (''nat'', c) = chain_rules (N e) (''nat'', c)) \<and>
      files (N e') ip_forward_path = files (N e) ip_forward_path"
    by (auto simp: reset_first_def Let_def tcp_loose_path_def procSysRoot_def ip_forward_path_def split: if_splits)
  then show "(masqueraded i (N e) \<longrightarrow> masqueraded i (N e')) \<and> (forwarding (N e) \<longrightarrow> forwarding (N e'))"
    by (simp add: masqueraded_def forwarding_def)
next
  fix i e r e' assume "iptables_ok I N" "run (MasqueradeExists (iptablesManager I) i) e = (r, e')"
  with Exists_spec [of I N "''nat''" "''POSTROUTING''" "masqueradeRule i" e r e']
  show "N e' = N e \<and> (\<forall>b. r = Inr b \<longrightarrow> (b \<longleftrightarrow> masqueraded i (N e)))"
    by (simp add: masqueradeExists_def masqueraded_def)
qed

section \<open>A kernel in memory\<close>

text \<open>Chains kept as lists, like \<open>fakeIPT\<close> of the tests; it shows that \<open>iptables_ok\<close> can hold.\<close>

definition fake_line :: "string list \<Rightarrow> string" where
  "fake_line rule = ''-A '' @ (if has_reset_comment rule then staleFlowResetComment else '''')"

definition fakeIPT :: "kernel iptables_api" where
  "fakeIPT =
     \<lparr>ipt_Exists = (\<lambda>t c r k. (Inr (r \<in> set (chain_rules k (t, c))), k)),
      ipt_Append = (\<lambda>t c r k. (None, k\<lparr>chain_rules := (chain_rules k)((t, c) := chain_rules k (t, c) @ [r])\<rparr>)),
      ipt_Insert = (\<lambda>t c pos r k. (None, k\<lparr>chain_rules := (chain_rules k)((t, c) :=
        take (nat (pos - 1)) (chain_rules k (t, c)) @ r # drop (nat (pos - 1)) (chain_rules k (t, c)))\<rparr>)),
      ipt_Delete = (\<lambda>t c r k. (None, k\<lparr>chain_rules := (chain_rules k)((t, c) := remove1 r (chain_rules k (t, c)))\<rparr>)),
      ipt_List = (\<lambda>t c k. (Inr ((''-P '' @ c @ '' ACCEPT'') # map fake_line (chain_rules k (t, c))), k)),
      WriteFile = (\<lambda>p v k. (None, k\<lparr>files := (files k)(p \<mapsto> v)\<rparr>))\<rparr>"

lemma fake_line_shows:
  "\<not> HasPrefix (fake_line rule) ''-P '' \<and>
   (Contains (fake_line rule) staleFlowResetComment \<longleftrightarrow> has_reset_comment rule)"
  by (auto simp: fake_line_def HasPrefix_def staleFlowResetComment_def)

lemma fakeIPT_ok: "iptables_ok fakeIPT (\<lambda>k. k)"
proof -
  have P: "HasPrefix (''-P '' @ c @ '' ACCEPT'') ''-P ''" for c by (simp add: HasPrefix_def)
  have "filter (\<lambda>l. \<not> HasPrefix l ''-P '') (map fake_line rs) = map fake_line rs" for rs
    by (induction rs) (simp_all add: fake_line_shows)
  then have "list_shows rs ((''-P '' @ c @ '' ACCEPT'') # map fake_line rs)" for rs c
    using P [of c] by (simp add: list_shows_def list_all2_map2 list_all2_same fake_line_shows)
  then show ?thesis
    unfolding iptables_ok_def fakeIPT_def by (simp add: ipt_done_def)
qed

section \<open>Properties\<close>

text \<open>
  C22: When \<open>EnsureStaleFlowReset\<close> succeeds, the reset rule is the first rule of FORWARD,
  every other rule keeps its place, loose pickup is off, and doing it again changes nothing.
  When it fails, loose pickup is left as it was: it is never turned off before the rule is in
  front.
\<close>

theorem stale_flow_reset_first:
  assumes "iptables_ok I N" and "run (ensureStaleFlowReset I iface) e = (r, e')"
  shows "(r \<noteq> None \<longrightarrow> files (N e') = files (N e)) \<and>
    (r = None \<longrightarrow>
      files (N e') tcp_loose_path = Some ''0'' \<and>
      (\<exists>rule rest. chain_rules (N e') (''filter'', ''FORWARD'') = rule # rest \<and> has_reset_comment rule) \<and>
      filter (\<lambda>x. x \<noteq> staleFlowResetRule iface) (chain_rules (N e') (''filter'', ''FORWARD'')) =
        filter (\<lambda>x. x \<noteq> staleFlowResetRule iface) (chain_rules (N e) (''filter'', ''FORWARD'')) \<and>
      (\<forall>r2 e2. run (ensureStaleFlowReset I iface) e' = (r2, e2) \<longrightarrow> r2 = None \<longrightarrow> N e2 = N e'))"
proof (cases r)
  case None
  let ?k = "(reset_first iface (N e))\<lparr>files := (files (N e))(tcp_loose_path \<mapsto> ''0'')\<rparr>"
  have N': "N e' = ?k" using run_ensureStaleFlowReset [OF assms] None by simp
  have other: "filter (\<lambda>x. x \<noteq> rule) (remove1 rule xs) = filter (\<lambda>x. x \<noteq> rule) xs" for rule and xs :: "string list list"
    by (induction xs) auto
  have again: "reset_first iface (k\<lparr>files := f\<rparr>) = (reset_first iface k)\<lparr>files := f\<rparr>" for k f
    by (simp add: reset_first_def Let_def)
  have "N e2 = N e'" if "run (ensureStaleFlowReset I iface) e' = (None, e2)" for e2
    using run_ensureStaleFlowReset [OF assms(1) that] by (simp add: N' again reset_first_idem)
  moreover have "filter (\<lambda>x. x \<noteq> staleFlowResetRule iface) (chain_rules ?k (''filter'', ''FORWARD'')) =
      filter (\<lambda>x. x \<noteq> staleFlowResetRule iface) (chain_rules (N e) (''filter'', ''FORWARD''))"
    by (simp add: reset_first_def Let_def other)
  ultimately show ?thesis using None reset_first_front [of iface "N e"] by (simp add: N')
next
  case (Some err)
  then show ?thesis using run_ensureStaleFlowReset [OF assms] by simp
qed

definition kube_proxy_kernel :: kernel where
  "kube_proxy_kernel = \<lparr>chain_rules = (\<lambda>_. [])((''filter'', ''FORWARD'') := [[''-j'', ''KUBE-FORWARD'']]), files = (\<lambda>_. None)\<rparr>"

theorem stale_flow_reset_first_witness:
  "\<exists>k. run (ensureStaleFlowReset fakeIPT ''eth0'') kube_proxy_kernel = (None, k) \<and>
     files k tcp_loose_path = Some ''0'' \<and> [''-j'', ''KUBE-FORWARD''] \<in> set (chain_rules k (''filter'', ''FORWARD''))"
proof -
  obtain r k where run: "run (ensureStaleFlowReset fakeIPT ''eth0'') kube_proxy_kernel = (r, k)" by fastforce
  have "r = None"
  proof -
    obtain v k1 where "run (isFirstForwardRule fakeIPT) kube_proxy_kernel = (Inr v, k1)"
      by (simp add: isFirstForwardRule_def fakeIPT_def)
    with run show ?thesis
      by (cases v) (auto simp: ensureStaleFlowReset_def Let_def fakeIPT_def writeSysctl_def split: if_splits bool.splits)
  qed
  with stale_flow_reset_first [OF fakeIPT_ok run] have "files k tcp_loose_path = Some ''0''"
    and "[''-j'', ''KUBE-FORWARD''] \<in> set (filter (\<lambda>x. x \<noteq> staleFlowResetRule ''eth0'') (chain_rules k (''filter'', ''FORWARD'')))"
    by (simp_all add: kube_proxy_kernel_def staleFlowResetRule_def)
  with run \<open>r = None\<close> show ?thesis by simp
qed

end
