(* ===== verification/Reconciler.thy ===== *)
theory Reconciler
  imports Ec2_Routes Nat_Manager
begin

text \<open>
  \<open>internal/reconciler/reconciler.go\<close>: the bookkeeping of claimed route tables and the
  operations that claim, hand over and release them. The reconciler's fields are
  \<open>rec_state\<close>; a locked section is one atomic action on them, and a call to EC2 or to the
  NAT manager goes through the interfaces of the configuration. The world is an extensible
  record, so that the same programs run inside the agent. Log lines are left out.
\<close>

section \<open>State and configuration\<close>

record rec_state =
  ownedTables :: "string list"
  foreignOwnedTables :: "string \<rightharpoonup> string"
  originalNatGW :: "string \<rightharpoonup> string"
  rtbVpcID :: "string \<rightharpoonup> string"

record 'e rec_config =
  NATManager :: "'e nat_manager"
  EC2Client :: "'e ec2_client"
  cfg_Iface :: string
  cfg_AZ :: string
  cfg_InstanceID :: string
  cfg_Mode :: string
  cfg_ResetStaleFlows :: bool

record 'e recw =
  rec_st :: rec_state
  outside :: 'e

definition new_rec_state :: rec_state where
  "new_rec_state = \<lparr>ownedTables = [], foreignOwnedTables = Map.empty, originalNatGW = Map.empty,
     rtbVpcID = Map.empty\<rparr>"

definition locked :: "(rec_state \<Rightarrow> 'r \<times> rec_state) \<Rightarrow> (('e, 'x) recw_scheme, 'r) prog" where
  "locked f = call (\<lambda>w. case f (rec_st w) of (r, s) \<Rightarrow> (r, w\<lparr>rec_st := s\<rparr>))"

definition out :: "('e, 'a) prog \<Rightarrow> (('e, 'x) recw_scheme, 'a) prog" where
  "out p = zoom outside (\<lambda>v w. w\<lparr>outside := v\<rparr>) p"

lemma run_locked [simp]:
  "run (locked f) w = (case f (rec_st w) of (r, s) \<Rightarrow> (r, w\<lparr>rec_st := s\<rparr>))"
  by (simp add: locked_def)

lemma run_out [simp]:
  "run (out p) w = (case run p (outside w) of (a, v) \<Rightarrow> (a, w\<lparr>outside := v\<rparr>))"
  unfolding out_def by (rule run_zoom) simp_all

section \<open>Bookkeeping\<close>

definition OwnedTables :: "(('e, 'x) recw_scheme, string list) prog" where
  "OwnedTables = locked (\<lambda>s. (ownedTables s, s))"

definition DropOwnTables :: "(('e, 'x) recw_scheme, string list) prog" where
  "DropOwnTables = locked (\<lambda>s. (ownedTables s, s\<lparr>ownedTables := []\<rparr>))"

definition own_claim_pending :: "string \<Rightarrow> rec_state \<Rightarrow> bool" where
  "own_claim_pending mode s \<longleftrightarrow> mode \<noteq> ''manual'' \<and> ownedTables s = []"

definition OwnClaimPending :: "'e rec_config \<Rightarrow> (('e, 'x) recw_scheme, bool) prog" where
  "OwnClaimPending cfg = locked (\<lambda>s. (own_claim_pending (cfg_Mode cfg) s, s))"

definition can_fallback :: "rec_state \<Rightarrow> bool" where
  "can_fallback s \<longleftrightarrow>
     ownedTables s \<noteq> [] \<and> list_all (\<lambda>rtbID. lookup_str (originalNatGW s) rtbID \<noteq> '''') (ownedTables s)"

definition CanFallbackToNAT :: "(('e, 'x) recw_scheme, bool) prog" where
  "CanFallbackToNAT = locked (\<lambda>s. (can_fallback s, s))"

definition add_foreign :: "string \<Rightarrow> string list \<Rightarrow> rec_state \<Rightarrow> rec_state" where
  "add_foreign deadAZ rtbIDs s =
     s\<lparr>foreignOwnedTables := fold (\<lambda>id m. m(id \<mapsto> deadAZ)) rtbIDs (foreignOwnedTables s)\<rparr>"

definition AddForeignTables :: "string \<Rightarrow> string list \<Rightarrow> (('e, 'x) recw_scheme, unit) prog" where
  "AddForeignTables deadAZ rtbIDs = locked (\<lambda>s. ((), add_foreign deadAZ rtbIDs s))"

text \<open>
  The order in which Go ranges over a map's keys, and over the keys of the set built from its
  values, is a parameter \<open>ko\<close>: it lists the elements of a set.
\<close>

type_synonym order = "string set \<Rightarrow> string list"

definition ForeignAZs :: "order \<Rightarrow> (('e, 'x) recw_scheme, string list) prog" where
  "ForeignAZs ko = locked (\<lambda>s. (ko (ran (foreignOwnedTables s)), s))"

definition release_foreign :: "order \<Rightarrow> string \<Rightarrow> rec_state \<Rightarrow> string list \<times> rec_state" where
  "release_foreign ko az s =
     (let m = foreignOwnedTables s; released = filter (\<lambda>id. m id = Some az) (ko (dom m)) in
      (released, s\<lparr>foreignOwnedTables := m |` (- set released)\<rparr>))"

definition ReleaseForeignAZ :: "order \<Rightarrow> string \<Rightarrow> (('e, 'x) recw_scheme, string list) prog" where
  "ReleaseForeignAZ ko az = locked (release_foreign ko az)"

definition covers :: "string \<Rightarrow> rec_state \<Rightarrow> bool" where
  "covers az s \<longleftrightarrow> az \<in> ran (foreignOwnedTables s)"

definition CoversAZ :: "string \<Rightarrow> (('e, 'x) recw_scheme, bool) prog" where
  "CoversAZ az = locked (\<lambda>s. (covers az s, s))"

section \<open>Fallback targets\<close>

text \<open>The first locked section: what is known of the table, and the VPC to look up, if any.\<close>

definition note_vpc :: "route_table \<Rightarrow> rec_state \<Rightarrow> rec_state" where
  "note_vpc rt s = (if VpcID rt \<noteq> '''' then s\<lparr>rtbVpcID := (rtbVpcID s)(ID rt \<mapsto> VpcID rt)\<rparr> else s)"

definition cache_first :: "route_table \<Rightarrow> rec_state \<Rightarrow> string option \<times> rec_state" where
  "cache_first rt s0 =
     (let s = note_vpc rt s0 in
      if NatGatewayID rt \<noteq> '''' then
        (None, if originalNatGW s (ID rt) = None
               then s\<lparr>originalNatGW := (originalNatGW s)(ID rt \<mapsto> NatGatewayID rt)\<rparr> else s)
      else if lookup_str (originalNatGW s) (ID rt) \<noteq> '''' \<or> lookup_str (rtbVpcID s) (ID rt) = ''''
      then (None, s)
      else (Some (lookup_str (rtbVpcID s) (ID rt)), s))"

definition cache_found :: "route_table \<Rightarrow> string \<Rightarrow> rec_state \<Rightarrow> rec_state" where
  "cache_found rt found s =
     (if lookup_str (originalNatGW s) (ID rt) = ''''
      then s\<lparr>originalNatGW := (originalNatGW s)(ID rt \<mapsto> found)\<rparr> else s)"

definition cache_one :: "'e rec_config \<Rightarrow> route_table \<Rightarrow> (('e, 'x) recw_scheme, unit) prog" where
  "cache_one cfg rt =
     bind (locked (cache_first rt)) (\<lambda>vpc.
       case vpc of
         None \<Rightarrow> Ret ()
       | Some vpcID \<Rightarrow>
           bind (out (LookupNatGateway (EC2Client cfg) vpcID (cfg_AZ cfg))) (\<lambda>r.
             case r of
               Inl _ \<Rightarrow> Ret ()
             | Inr found \<Rightarrow> locked (\<lambda>s. ((), cache_found rt found s))))"

definition cacheFallbackTargets ::
  "'e rec_config \<Rightarrow> route_table list \<Rightarrow> (('e, 'x) recw_scheme, unit) prog" where
  "cacheFallbackTargets cfg tables = for_each (cache_one cfg) tables"

section \<open>The data plane\<close>

definition SetupDataPlane :: "'e rec_config \<Rightarrow> (('e, 'x) recw_scheme, status) prog" where
  "SetupDataPlane cfg =
     bind (out (EnsureMasquerade (NATManager cfg) (cfg_Iface cfg))) (\<lambda>err.
       case err of
         Some e \<Rightarrow> Ret (Some (Wrap ''ensure masquerade'' e))
       | None \<Rightarrow>
           bind (out (EnableIPForward (NATManager cfg))) (\<lambda>err.
             case err of
               Some e \<Rightarrow> Ret (Some (Wrap ''ip_forward'' e))
             | None \<Rightarrow>
                 if cfg_ResetStaleFlows cfg
                 then bind (out (EnsureStaleFlowReset (NATManager cfg) (cfg_Iface cfg))) (\<lambda>_. Ret None)
                 else Ret None))"

section \<open>Claiming and releasing\<close>

text \<open>The loop of \<open>ClaimOwnRouteTables\<close>: the confirmed tables, or the first error.\<close>

fun claim_own_loop ::
  "'e rec_config \<Rightarrow> string list \<Rightarrow> route_table list \<Rightarrow> (('e, 'x) recw_scheme, string list result) prog" where
  "claim_own_loop cfg confirmed [] = Ret (Inr confirmed)"
| "claim_own_loop cfg confirmed (rt # rts) =
     (if cfg_Mode cfg = ''manual'' then claim_own_loop cfg confirmed rts
      else if InstanceID rt = cfg_InstanceID cfg then claim_own_loop cfg (confirmed @ [ID rt]) rts
      else bind (out (ClaimRouteTable (EC2Client cfg) (ID rt) (cfg_InstanceID cfg))) (\<lambda>err.
        case err of
          Some e \<Rightarrow> Ret (Inl (Errorf ''claim route table '' (ID rt) e))
        | None \<Rightarrow> claim_own_loop cfg (confirmed @ [ID rt]) rts))"

definition claim_discovered ::
  "'e rec_config \<Rightarrow> route_table list \<Rightarrow> (('e, 'x) recw_scheme, status) prog" where
  "claim_discovered cfg tables =
     bind (claim_own_loop cfg [] tables) (\<lambda>c.
       case c of
         Inl e \<Rightarrow> Ret (Some e)
       | Inr confirmed \<Rightarrow>
           bind (cacheFallbackTargets cfg tables) (\<lambda>_.
           bind (locked (\<lambda>s. ((),
             if cfg_Mode cfg \<noteq> ''manual'' then s\<lparr>ownedTables := confirmed\<rparr> else s))) (\<lambda>_.
           Ret None)))"

definition ClaimOwnRouteTables :: "'e rec_config \<Rightarrow> (('e, 'x) recw_scheme, status) prog" where
  "ClaimOwnRouteTables cfg =
     bind (out (DiscoverRouteTables (EC2Client cfg) (cfg_AZ cfg))) (\<lambda>r.
       case r of
         Inl e \<Rightarrow> Ret (Some (Wrap ''discover route tables'' e))
       | Inr tables \<Rightarrow> if tables = [] then Ret None else claim_discovered cfg tables)"

definition Reconcile :: "'e rec_config \<Rightarrow> (('e, 'x) recw_scheme, status) prog" where
  "Reconcile cfg =
     bind (SetupDataPlane cfg) (\<lambda>err.
       case err of
         Some e \<Rightarrow> Ret (Some e)
       | None \<Rightarrow> ClaimOwnRouteTables cfg)"

fun claim_all_loop ::
  "'e rec_config \<Rightarrow> string list \<Rightarrow> route_table list \<Rightarrow> (('e, 'x) recw_scheme, string list result) prog" where
  "claim_all_loop cfg owned [] = Ret (Inr owned)"
| "claim_all_loop cfg owned (rt # rts) =
     bind (out (ClaimRouteTable (EC2Client cfg) (ID rt) (cfg_InstanceID cfg))) (\<lambda>err.
       case err of
         Some e \<Rightarrow> Ret (Inl (Errorf ''claim route table '' (ID rt) e))
       | None \<Rightarrow> claim_all_loop cfg (owned @ [ID rt]) rts)"

definition ClaimRouteTables :: "'e rec_config \<Rightarrow> (('e, 'x) recw_scheme, status) prog" where
  "ClaimRouteTables cfg =
     bind (out (DiscoverRouteTables (EC2Client cfg) (cfg_AZ cfg))) (\<lambda>r.
       case r of
         Inl e \<Rightarrow> Ret (Some (Wrap ''discover route tables'' e))
       | Inr tables \<Rightarrow>
           if tables = [] then Ret (Some (Msg (''no route tables found for az='' @ cfg_AZ cfg)))
           else bind (claim_all_loop cfg [] tables) (\<lambda>c.
             case c of
               Inl e \<Rightarrow> Ret (Some e)
             | Inr owned \<Rightarrow>
                 bind (locked (\<lambda>s. ((), s\<lparr>ownedTables := owned\<rparr>))) (\<lambda>_.
                 bind (cacheFallbackTargets cfg tables) (\<lambda>_.
                 Ret None))))"

text \<open>
  The loop of \<open>ReleaseRouteTables\<close> works on the copies taken at its start: the gateways and
  the VPCs. A table with neither is skipped.
\<close>

fun release_loop ::
  "'e rec_config \<Rightarrow> (string \<rightharpoonup> string) \<Rightarrow> (string \<rightharpoonup> string) \<Rightarrow> string list \<Rightarrow>
   (('e, 'x) recw_scheme, status) prog" where
  "release_loop cfg natGWs vpcIDs [] = Ret None"
| "release_loop cfg natGWs vpcIDs (rtbID # ids) =
     (let release = (\<lambda>natGwID.
        bind (out (ReleaseRouteTable (EC2Client cfg) rtbID natGwID)) (\<lambda>err.
          case err of
            Some e \<Rightarrow> Ret (Some (Errorf ''release route table '' rtbID e))
          | None \<Rightarrow> release_loop cfg natGWs vpcIDs ids)) in
      if lookup_str natGWs rtbID \<noteq> '''' then release (lookup_str natGWs rtbID)
      else if lookup_str vpcIDs rtbID = '''' then release_loop cfg natGWs vpcIDs ids
      else bind (out (LookupNatGateway (EC2Client cfg) (lookup_str vpcIDs rtbID) (cfg_AZ cfg))) (\<lambda>r.
        case r of
          Inl e \<Rightarrow> Ret (Some (Errorf ''lookup nat gateway for '' rtbID e))
        | Inr found \<Rightarrow> release found))"

definition ReleaseRouteTables :: "'e rec_config \<Rightarrow> (('e, 'x) recw_scheme, status) prog" where
  "ReleaseRouteTables cfg =
     bind (locked (\<lambda>s. (s, s))) (\<lambda>s.
       if ownedTables s = [] then Ret None
       else bind (release_loop cfg (originalNatGW s) (rtbVpcID s) (ownedTables s)) (\<lambda>err.
         case err of
           Some e \<Rightarrow> Ret (Some e)
         | None \<Rightarrow> bind (locked (\<lambda>s. ((), s\<lparr>ownedTables := []\<rparr>))) (\<lambda>_. Ret None)))"

section \<open>Tables taken back by their owner\<close>

fun vacate_loop ::
  "'e rec_config \<Rightarrow> (string \<rightharpoonup> string) \<Rightarrow> string list \<Rightarrow> route_table list \<Rightarrow>
   (('e, 'x) recw_scheme, string list) prog" where
  "vacate_loop cfg foreign vacated [] = Ret vacated"
| "vacate_loop cfg foreign vacated (rt # rts) =
     (if foreign (ID rt) \<noteq> None \<and> InstanceID rt \<noteq> cfg_InstanceID cfg
      then bind (locked (\<lambda>s. ((), s\<lparr>foreignOwnedTables := (foreignOwnedTables s)(ID rt := None)\<rparr>))) (\<lambda>_.
        vacate_loop cfg foreign (vacated @ [ID rt]) rts)
      else vacate_loop cfg foreign vacated rts)"

fun foreign_loop ::
  "'e rec_config \<Rightarrow> (string \<rightharpoonup> string) \<Rightarrow> string list \<Rightarrow> string list \<Rightarrow>
   (('e, 'x) recw_scheme, string list) prog" where
  "foreign_loop cfg foreign vacated [] = Ret vacated"
| "foreign_loop cfg foreign vacated (az # azs) =
     bind (out (DiscoverRouteTables (EC2Client cfg) az)) (\<lambda>r.
       case r of
         Inl _ \<Rightarrow> foreign_loop cfg foreign vacated azs
       | Inr tables \<Rightarrow>
           bind (vacate_loop cfg foreign vacated tables) (\<lambda>vacated.
             foreign_loop cfg foreign vacated azs))"

definition ReconcileForeign ::
  "'e rec_config \<Rightarrow> order \<Rightarrow> (('e, 'x) recw_scheme, string list result) prog" where
  "ReconcileForeign cfg ko =
     bind (locked (\<lambda>s. (foreignOwnedTables s, s))) (\<lambda>foreign.
       if foreign = Map.empty then Ret (Inr [])
       else bind (foreign_loop cfg foreign [] (ko (ran foreign))) (\<lambda>vacated. Ret (Inr vacated)))"

end
