(* ===== verification/Drain.thy ===== *)
theory Drain
  imports Reconciler
begin

text \<open>
  \<open>internal/agent/drain.go\<close>: the monitor that notices that the agent's node is being
  drained. Its two fields live in the world \<open>drainw\<close>, which extends the reconciler's, so
  that the callback \<open>onDrain\<close> can be any program of the agent. The Kubernetes client's
  answers (the node, the pod list) are functions of the outside world.
\<close>

record taint =
  taint_key :: string

record node =
  Unschedulable :: bool
  Taints :: "taint list"

record 'e drainw = "'e recw" +
  nodeName :: string
  draining :: bool

definition disruptionTaint :: string where
  "disruptionTaint = ''karpenter.sh/disrupted''"

fun has_disruption_taint :: "taint list \<Rightarrow> bool" where
  "has_disruption_taint [] = False"
| "has_disruption_taint (t # ts) = (if taint_key t = disruptionTaint then True else has_disruption_taint ts)"

definition NodeIsDraining :: "node \<Rightarrow> bool" where
  "NodeIsDraining n = (if Unschedulable n then True else has_disruption_taint (Taints n))"

text \<open>The interval of \<open>NewDrainMonitor\<close>.\<close>

definition monitor_interval :: "int \<Rightarrow> int" where
  "monitor_interval interval = (if interval \<le> 0 then 5000000000 else interval)"

definition IsDraining :: "(('e, 'x) drainw_scheme, bool) prog" where
  "IsDraining = call (\<lambda>w. (draining w, w))"

definition set_draining :: "bool \<Rightarrow> (('e, 'x) drainw_scheme, unit) prog" where
  "set_draining b = call (\<lambda>w. ((), w\<lparr>draining := b\<rparr>))"

definition drain_check ::
  "(string \<Rightarrow> 'e \<Rightarrow> node result \<times> 'e) \<Rightarrow> (('e, 'x) drainw_scheme, unit) prog \<Rightarrow>
   (('e, 'x) drainw_scheme, unit) prog" where
  "drain_check node_get onDrain =
     bind (call (\<lambda>w. (nodeName w, w))) (\<lambda>name.
     bind (out (call (node_get name))) (\<lambda>r.
       case r of
         Inl _ \<Rightarrow> Ret ()
       | Inr n \<Rightarrow>
           bind IsDraining (\<lambda>was.
             if NodeIsDraining n = was then Ret ()
             else if NodeIsDraining n
             then bind (set_draining True) (\<lambda>_. onDrain)
             else set_draining False)))"

text \<open>
  \<open>resolveNode\<close>: the \<open>NODE_NAME\<close> variable, or the node of the pod found by its name; the
  pod list is given by the \<open>spec.nodeName\<close> of its items.
\<close>

definition resolveNode ::
  "string \<Rightarrow> (string \<Rightarrow> 'e \<Rightarrow> string list result \<times> 'e) \<Rightarrow> string \<Rightarrow>
   (('e, 'x) drainw_scheme, bool) prog" where
  "resolveNode node_env pods_of podName =
     bind (call (\<lambda>w. (nodeName w, w))) (\<lambda>known.
       if known \<noteq> '''' then Ret True
       else if node_env \<noteq> ''''
       then bind (call (\<lambda>w. ((), w\<lparr>nodeName := node_env\<rparr>))) (\<lambda>_. Ret True)
       else bind (out (call (pods_of podName))) (\<lambda>r.
         case r of
           Inr (n # _) \<Rightarrow>
             if n = '''' then Ret False
             else bind (call (\<lambda>w. ((), w\<lparr>nodeName := n\<rparr>))) (\<lambda>_. Ret True)
         | _ \<Rightarrow> Ret False))"

definition Prime ::
  "string \<Rightarrow> (string \<Rightarrow> 'e \<Rightarrow> string list result \<times> 'e) \<Rightarrow> string \<Rightarrow>
   (string \<Rightarrow> 'e \<Rightarrow> node result \<times> 'e) \<Rightarrow> (('e, 'x) drainw_scheme, unit) prog \<Rightarrow>
   (('e, 'x) drainw_scheme, bool) prog" where
  "Prime node_env pods_of podName node_get onDrain =
     bind (resolveNode node_env pods_of podName) (\<lambda>found.
       if \<not> found then Ret False
       else bind (drain_check node_get onDrain) (\<lambda>_. Ret True))"

text \<open>The polling loop: a check per tick until the context is done (\<open>False\<close>).\<close>

fun drain_loop ::
  "(string \<Rightarrow> 'e \<Rightarrow> node result \<times> 'e) \<Rightarrow> (('e, 'x) drainw_scheme, unit) prog \<Rightarrow> bool list \<Rightarrow>
   (('e, 'x) drainw_scheme, unit) prog" where
  "drain_loop node_get onDrain [] = Ret ()"
| "drain_loop node_get onDrain (False # ticks) = Ret ()"
| "drain_loop node_get onDrain (True # ticks) =
     bind (drain_check node_get onDrain) (\<lambda>_. drain_loop node_get onDrain ticks)"

text \<open>\<open>resolveNode\<close> returns at once when the name is known, so the test of \<open>Run\<close> is its first.\<close>

definition drain_run ::
  "string \<Rightarrow> (string \<Rightarrow> 'e \<Rightarrow> string list result \<times> 'e) \<Rightarrow> string \<Rightarrow>
   (string \<Rightarrow> 'e \<Rightarrow> node result \<times> 'e) \<Rightarrow> (('e, 'x) drainw_scheme, unit) prog \<Rightarrow> bool list \<Rightarrow>
   (('e, 'x) drainw_scheme, unit) prog" where
  "drain_run node_env pods_of podName node_get onDrain ticks =
     bind (resolveNode node_env pods_of podName) (\<lambda>found.
       if \<not> found then Ret () else drain_loop node_get onDrain ticks)"

section \<open>Facts\<close>

lemma NodeIsDraining_iff:
  "NodeIsDraining n \<longleftrightarrow> Unschedulable n \<or> (\<exists>t \<in> set (Taints n). taint_key t = disruptionTaint)"
proof -
  have "has_disruption_taint ts \<longleftrightarrow> (\<exists>t \<in> set ts. taint_key t = disruptionTaint)" for ts
    by (induction ts) auto
  then show ?thesis by (simp add: NodeIsDraining_def)
qed

text \<open>
  What a check does by what the node says: nothing on an error or without a change; the
  callback runs exactly on the transition into draining, with the flag already set.
\<close>

lemma run_drain_check:
  assumes "node_get (nodeName w) (outside w) = (r, e1)"
  shows "run (drain_check node_get onDrain) w =
    (case r of
       Inl _ \<Rightarrow> ((), w\<lparr>outside := e1\<rparr>)
     | Inr n \<Rightarrow>
         if NodeIsDraining n \<and> \<not> draining w then run onDrain (w\<lparr>outside := e1, draining := True\<rparr>)
         else ((), w\<lparr>outside := e1, draining := NodeIsDraining n\<rparr>))"
  using assms
  by (cases r) (auto simp: drain_check_def IsDraining_def set_draining_def)

end
