(* ===== verification/Agent.thy ===== *)
theory Agent
  imports Drain Lease Peer_Session Sysinfo
begin

text \<open>
  \<open>internal/agent/agent.go\<close>: one agent. Its world extends the drain monitor's with the
  readiness flag, the metrics and the peer watcher's maps; everything else it uses is in the
  environment \<open>'e agent_env\<close>, fixed at start-up. Each goroutine of \<open>Run\<close> is a program: a
  tick of the lease loop, a tick of the reconcile loop, the takeover a peer connection starts,
  the HTTP handlers, the shutdown. Gauges hold reals.
\<close>

section \<open>The agent's world\<close>

datatype traffic = TrafficBytesTX | TrafficBytesRX | TrafficPacketsTX | TrafficPacketsRX

record metrics =
  RouteTableOwned :: "string \<rightharpoonup> real"
  Standby :: real
  PeerStatus :: "string \<times> string \<rightharpoonup> real"
  FailoverTotal :: "string \<times> string \<rightharpoonup> real"
  LastFailover :: "string \<rightharpoonup> real"
  RulePresent :: "string \<rightharpoonup> real"
  ConntrackEntries :: real
  ConntrackLimit :: real
  ConntrackUsageRatio :: real
  FallbackAvailable :: real
  SpotInterruptionPending :: real
  SrcDstCheckDisabled :: real
  MaxBandwidthGauge :: real
  InstanceInfo :: "string \<times> string \<rightharpoonup> real"
  TrafficSeries :: "traffic \<Rightarrow> string \<times> string \<times> string \<rightharpoonup> real"
  TxBytesPerSec :: "string \<times> string \<rightharpoonup> real"
  RxBytesPerSec :: "string \<times> string \<rightharpoonup> real"
  CPUUsageRatio :: real
  MemUsedBytes :: real
  MemTotalBytes :: real

record 'e agentw = "'e drainw" +
  ready :: bool
  reg :: metrics
  connectedAZs :: "string set"
  staleInstances :: "string \<rightharpoonup> string"
  peerClients :: "(string \<times> string \<times> string) list"

record 'e agent_env =
  leases :: "'e lease_api"
  leaseMgr :: manager
  rcfg :: "'e rec_config"
  podName :: string
  AZLabelKey :: string
  peerPort :: int
  standDownOnDrain :: bool
  node_get :: "string \<Rightarrow> 'e \<Rightarrow> node result \<times> 'e"
  list_pods :: "'e \<Rightarrow> pod list result \<times> 'e"
  read_file :: "string \<Rightarrow> 'e \<Rightarrow> string result \<times> 'e"
  read_lines :: "string \<Rightarrow> 'e \<Rightarrow> string list result \<times> 'e"
  link_stats :: "string \<Rightarrow> 'e \<Rightarrow> if_stats option result \<times> 'e"
  peer_send :: "string \<times> string \<times> string \<Rightarrow> byte list \<Rightarrow> 'e \<Rightarrow> unit \<times> 'e"
  key_order_of :: order

definition az_of :: "'e agent_env \<Rightarrow> string" where
  "az_of E = cfg_AZ (rcfg E)"

definition metric :: "(metrics \<Rightarrow> metrics) \<Rightarrow> (('e, 'x) agentw_scheme, unit) prog" where
  "metric f = call (\<lambda>w. ((), w\<lparr>reg := f (reg w)\<rparr>))"

definition set_owned :: "string \<Rightarrow> real \<Rightarrow> (('e, 'x) agentw_scheme, unit) prog" where
  "set_owned rtbID v = metric (\<lambda>m. m\<lparr>RouteTableOwned := (RouteTableOwned m)(rtbID \<mapsto> v)\<rparr>)"

definition boolToFloat :: "bool \<Rightarrow> real" where
  "boolToFloat b = (if b then 1 else 0)"

definition set_standby :: "bool \<Rightarrow> (('e, 'x) agentw_scheme, unit) prog" where
  "set_standby b = metric (\<lambda>m. m\<lparr>Standby := boolToFloat b\<rparr>)"

definition set_ready :: "bool \<Rightarrow> (('e, 'x) agentw_scheme, unit) prog" where
  "set_ready b = call (\<lambda>w. ((), w\<lparr>ready := b\<rparr>))"

definition podNameOrInstanceID :: "string \<Rightarrow> string \<Rightarrow> string" where
  "podNameOrInstanceID pod_env instanceID = (if pod_env \<noteq> '''' then pod_env else instanceID)"

definition isDraining :: "'e agent_env \<Rightarrow> (('e, 'x) agentw_scheme, bool) prog" where
  "isDraining E = (if standDownOnDrain E then IsDraining else Ret False)"

section \<open>Serving the own AZ\<close>

definition acquireOwnLease :: "'e agent_env \<Rightarrow> (('e, 'x) agentw_scheme, bool result) prog" where
  "acquireOwnLease E =
     bind (out (Acquire (leases E) (leaseMgr E) (az_of E) (podName E))) (\<lambda>(ok, aerr).
       case aerr of
         Some e \<Rightarrow> Ret (Inl (Errorf ''acquire own lease az='' (az_of E) e))
       | None \<Rightarrow> Ret (Inr ok))"

definition ensureOwnLease :: "'e agent_env \<Rightarrow> (('e, 'x) agentw_scheme, bool result) prog" where
  "ensureOwnLease E =
     bind (out (Renew (leases E) (leaseMgr E) (az_of E) (podName E))) (\<lambda>(held, _).
       if held then Ret (Inr True) else acquireOwnLease E)"

definition serveOwnAZ :: "'e agent_env \<Rightarrow> (('e, 'x) agentw_scheme, bool \<times> status) prog" where
  "serveOwnAZ E =
     bind (ensureOwnLease E) (\<lambda>held.
       case held of
         Inl e \<Rightarrow> Ret (False, Some e)
       | Inr False \<Rightarrow> Ret (False, None)
       | Inr True \<Rightarrow>
           bind (ClaimOwnRouteTables (rcfg E)) (\<lambda>err.
             Ret (True, map_option (Errorf ''claim own route tables az='' (az_of E)) err)))"

definition renewOwnLease :: "'e agent_env \<Rightarrow> (('e, 'x) agentw_scheme, status) prog" where
  "renewOwnLease E =
     bind (ensureOwnLease E) (\<lambda>held.
       case held of
         Inl e \<Rightarrow> Ret (Some e)
       | Inr False \<Rightarrow> Ret None
       | Inr True \<Rightarrow>
           bind (OwnClaimPending (rcfg E)) (\<lambda>pending.
             if \<not> pending then Ret None
             else bind (ClaimOwnRouteTables (rcfg E)) (\<lambda>err.
               Ret (map_option (Errorf ''claim own route tables az='' (az_of E)) err))))"

text \<open>The first service of \<open>Run\<close>, after the drain monitor was primed.\<close>

definition firstService :: "'e agent_env \<Rightarrow> (('e, 'x) agentw_scheme, unit) prog" where
  "firstService E =
     bind (isDraining E) (\<lambda>d.
     bind (if d then Ret (False, None) else serveOwnAZ E) (\<lambda>(serving, _).
     set_standby (\<not> serving)))"

section \<open>Takeover of another AZ\<close>

fun takeover_loop ::
  "'e agent_env \<Rightarrow> string list \<Rightarrow> route_table list \<Rightarrow> (('e, 'x) agentw_scheme, string list) prog" where
  "takeover_loop E claimed [] = Ret claimed"
| "takeover_loop E claimed (rt # rts) =
     (if cfg_Mode (rcfg E) = ''manual'' then takeover_loop E claimed rts
      else bind (out (ClaimRouteTable (EC2Client (rcfg E)) (ID rt) (cfg_InstanceID (rcfg E)))) (\<lambda>err.
        case err of
          Some _ \<Rightarrow> takeover_loop E claimed rts
        | None \<Rightarrow> bind (set_owned (ID rt) 1) (\<lambda>_. takeover_loop E (claimed @ [ID rt]) rts)))"

definition count_failover :: "string \<Rightarrow> string \<Rightarrow> (('e, 'x) agentw_scheme, unit) prog" where
  "count_failover deadAZ az = metric (\<lambda>m. m\<lparr>FailoverTotal := (FailoverTotal m)((deadAZ, az) \<mapsto>
     (case FailoverTotal m (deadAZ, az) of None \<Rightarrow> 0 | Some n \<Rightarrow> n) + 1)\<rparr>)"

definition takeover_tail :: "'e agent_env \<Rightarrow> string \<Rightarrow> route_table list \<Rightarrow> (('e, 'x) agentw_scheme, unit) prog" where
  "takeover_tail E deadAZ tables =
     bind (takeover_loop E [] tables) (\<lambda>claimed.
     bind (if claimed \<noteq> [] then AddForeignTables deadAZ claimed else Ret ()) (\<lambda>_.
     bind (count_failover deadAZ (az_of E)) (\<lambda>_.
     bind (out (call (time_now (leases E)))) (\<lambda>t.
     metric (\<lambda>m. m\<lparr>LastFailover := (LastFailover m)(deadAZ \<mapsto> real_of_int (t div 1000000000))\<rparr>)))))"

definition takeover :: "'e agent_env \<Rightarrow> string \<Rightarrow> (('e, 'x) agentw_scheme, unit) prog" where
  "takeover E deadAZ =
     bind (isDraining E) (\<lambda>d.
       if d then Ret ()
       else bind (out (Acquire (leases E) (leaseMgr E) deadAZ (podName E))) (\<lambda>(acquired, err).
         case err of
           Some _ \<Rightarrow> Ret ()
         | None \<Rightarrow>
             if \<not> acquired then Ret ()
             else bind (out (DiscoverRouteTables (EC2Client (rcfg E)) deadAZ)) (\<lambda>r.
               case r of
                 Inl _ \<Rightarrow> Ret ()
               | Inr tables \<Rightarrow> takeover_tail E deadAZ tables)))"

section \<open>The lease loop and the reconcile loop\<close>

definition clear_owned :: "string list \<Rightarrow> (('e, 'x) agentw_scheme, unit) prog" where
  "clear_owned ids = for_each (\<lambda>rtbID. set_owned rtbID 0) ids"

definition renewForeign :: "'e agent_env \<Rightarrow> string \<Rightarrow> (('e, 'x) agentw_scheme, unit) prog" where
  "renewForeign E az =
     bind (out (Renew (leases E) (leaseMgr E) az (podName E))) (\<lambda>(ok, rerr).
       case rerr of
         Some _ \<Rightarrow> Ret ()
       | None \<Rightarrow>
           if ok then Ret ()
           else bind (ReleaseForeignAZ (key_order_of E) az) clear_owned)"

definition leaseTick :: "'e agent_env \<Rightarrow> (('e, 'x) agentw_scheme, unit) prog" where
  "leaseTick E =
     bind (isDraining E) (\<lambda>d.
       if d then Ret ()
       else bind (renewOwnLease E) (\<lambda>_.
            bind (ForeignAZs (key_order_of E)) (for_each (renewForeign E))))"

definition coverExpired :: "'e agent_env \<Rightarrow> string \<Rightarrow> (('e, 'x) agentw_scheme, unit) prog" where
  "coverExpired E az =
     bind (CoversAZ az) (\<lambda>covered. if covered then Ret () else takeover E az)"

text \<open>\<open>iface.ConntrackStats\<close>: the second file is read only when the first gave a number.\<close>

definition conntrackStats :: "'e agent_env \<Rightarrow> (('e, 'x) agentw_scheme, (int \<times> int) result) prog" where
  "conntrackStats E =
     bind (out (call (read_file E defaultConntrackCountPath))) (\<lambda>n.
       if \<not> is_ok (readIntFile defaultConntrackCountPath n) then Ret (ConntrackStats n n)
       else bind (out (call (read_file E defaultConntrackMaxPath))) (\<lambda>mx. Ret (ConntrackStats n mx)))"

definition updateMetrics :: "'e agent_env \<Rightarrow> (('e, 'x) agentw_scheme, unit) prog" where
  "updateMetrics E =
     bind (out (MasqueradeExists (NATManager (rcfg E)) (cfg_Iface (rcfg E)))) (\<lambda>r.
     bind (case r of Inl _ \<Rightarrow> Ret ()
       | Inr ex \<Rightarrow> metric (\<lambda>m. m\<lparr>RulePresent := (RulePresent m)(''MASQUERADE'' \<mapsto> boolToFloat ex)\<rparr>)) (\<lambda>_.
     bind (conntrackStats E) (\<lambda>c.
     bind (case c of Inl _ \<Rightarrow> Ret ()
       | Inr (n, mx) \<Rightarrow> if mx > 0 then metric (\<lambda>m. m\<lparr>ConntrackEntries := real_of_int n,
           ConntrackLimit := real_of_int mx, ConntrackUsageRatio := real_of_int n / real_of_int mx\<rparr>)
           else Ret ()) (\<lambda>_.
     bind OwnedTables (\<lambda>owned.
     bind (for_each (\<lambda>rtbID. set_owned rtbID 1) owned) (\<lambda>_.
     bind CanFallbackToNAT (\<lambda>can.
     metric (\<lambda>m. m\<lparr>FallbackAvailable := boolToFloat can\<rparr>))))))))"

text \<open>The part of a reconcile tick after the data plane: serve or stand by, then the sweep.\<close>

definition serveStep :: "'e agent_env \<Rightarrow> (('e, 'x) agentw_scheme, unit) prog" where
  "serveStep E =
     bind (isDraining E) (\<lambda>d.
     bind (if d then Ret False else bind (serveOwnAZ E) (\<lambda>(s, _). Ret s)) (\<lambda>serving.
     bind (if serving then Ret () else bind DropOwnTables clear_owned) (\<lambda>_.
     set_standby (\<not> serving))))"

definition vacateStep :: "'e agent_env \<Rightarrow> (('e, 'x) agentw_scheme, unit) prog" where
  "vacateStep E =
     bind (ReconcileForeign (rcfg E) (key_order_of E)) (\<lambda>r.
       case r of Inl _ \<Rightarrow> Ret () | Inr vacated \<Rightarrow> clear_owned vacated)"

definition sweepStep :: "'e agent_env \<Rightarrow> (('e, 'x) agentw_scheme, unit) prog" where
  "sweepStep E =
     bind (isDraining E) (\<lambda>d.
       if d then Ret ()
       else bind (out (ListExpiredAZs (leases E) (leaseMgr E) (az_of E))) (\<lambda>r.
         case r of Inl _ \<Rightarrow> Ret () | Inr expired \<Rightarrow> for_each (coverExpired E) expired))"

definition reconcileTick :: "'e agent_env \<Rightarrow> (('e, 'x) agentw_scheme, unit) prog" where
  "reconcileTick E =
     bind (SetupDataPlane (rcfg E)) (\<lambda>err.
       case err of
         Some _ \<Rightarrow> set_ready False
       | None \<Rightarrow>
           bind (set_ready True) (\<lambda>_.
           bind (serveStep E) (\<lambda>_.
           bind (vacateStep E) (\<lambda>_.
           bind (sweepStep E) (\<lambda>_.
           updateMetrics E)))))"

section \<open>The sampler\<close>

text \<open>
  One tick of the sampler at the ticker's time \<open>now\<close>. Its variable \<open>prev\<close> belongs to the
  goroutine; the new value is the result of the tick. A panic ends the process.
\<close>

definition set_rates :: "'e agent_env \<Rightarrow> samplerState \<Rightarrow> (('e, 'x) agentw_scheme, unit) prog" where
  "set_rates E s = metric (\<lambda>m. m\<lparr>
     TxBytesPerSec := (TxBytesPerSec m)((az_of E, cfg_InstanceID (rcfg E)) \<mapsto> txEMA s),
     RxBytesPerSec := (RxBytesPerSec m)((az_of E, cfg_InstanceID (rcfg E)) \<mapsto> rxEMA s)\<rparr>)"

definition rates_due :: "if_stats result \<Rightarrow> samplerState \<Rightarrow> bool" where
  "rates_due ifStats prev =
     (sp_ts prev \<noteq> None \<and> (case ifStats of Inr st \<Rightarrow> counters_grew st prev | Inl _ \<Rightarrow> False))"

definition set_memory :: "MemStat result \<Rightarrow> (('e, 'x) agentw_scheme, unit) prog" where
  "set_memory r = (case r of Inl _ \<Rightarrow> Ret ()
     | Inr mem \<Rightarrow> metric (\<lambda>m. m\<lparr>MemUsedBytes := float (UsedBytes mem), MemTotalBytes := float (TotalBytes mem)\<rparr>))"

definition sampleTick ::
  "'e agent_env \<Rightarrow> samplerState \<Rightarrow> int \<Rightarrow> (('e, 'x) agentw_scheme, samplerState go_outcome) prog" where
  "sampleTick E prev now =
     bind (out (call (link_stats E (cfg_Iface (rcfg E))))) (\<lambda>link.
     bind (out (call (read_lines E hostProcStat))) (\<lambda>file.
       case ReadCPUStat file of
         Panic \<Rightarrow> Ret Panic
       | Done curCPU \<Rightarrow>
           let ifStats = GetStats (cfg_Iface (rcfg E)) link; s = sampler_tick now ifStats curCPU prev in
           bind (if rates_due ifStats prev then set_rates E s else Ret ()) (\<lambda>_.
           bind (if sp_ts prev \<noteq> None \<and> is_ok curCPU then metric (\<lambda>m. m\<lparr>CPUUsageRatio := cpuEMA s\<rparr>) else Ret ()) (\<lambda>_.
           bind (out (call (read_lines E hostProcMeminfo))) (\<lambda>mem.
           bind (set_memory (ReadMemStat mem)) (\<lambda>_. Ret (Done s)))))))"

fun sampleTicks ::
  "'e agent_env \<Rightarrow> samplerState \<Rightarrow> int list \<Rightarrow> (('e, 'x) agentw_scheme, unit) prog" where
  "sampleTicks E prev [] = Ret ()"
| "sampleTicks E prev (now # ts) = bind (sampleTick E prev now) (\<lambda>r.
     case r of Panic \<Rightarrow> Ret () | Done s \<Rightarrow> sampleTicks E s ts)"

definition zeroSampler :: samplerState where
  "zeroSampler = \<lparr>sp_bytesTX = 0, sp_bytesRX = 0, txEMA = 0, rxEMA = 0, cpuEMA = 0, sp_ts = None,
     sp_cpu = \<lparr>User = 0, Nice = 0, System = 0, Idle = 0, IOWait = 0, IRQ = 0, SoftIRQ = 0, Steal = 0\<rparr>\<rparr>"

text \<open>The goroutine: the first CPU reading, then the ticks at the times of the ticker.\<close>

definition sampler :: "'e agent_env \<Rightarrow> int list \<Rightarrow> (('e, 'x) agentw_scheme, unit) prog" where
  "sampler E ts =
     bind (out (call (read_lines E hostProcStat))) (\<lambda>file.
       case ReadCPUStat file of
         Panic \<Rightarrow> Ret ()
       | Done (Inr c) \<Rightarrow> sampleTicks E (zeroSampler\<lparr>sp_cpu := c\<rparr>) ts
       | Done (Inl _) \<Rightarrow> sampleTicks E zeroSampler ts)"

section \<open>Drain and shutdown\<close>

text \<open>The callback given to the drain monitor.\<close>

definition onDrain :: "'e agent_env \<Rightarrow> (('e, 'x) agentw_scheme, unit) prog" where
  "onDrain E = bind (out (Release (leases E) (leaseMgr E) (az_of E) (podName E))) (\<lambda>_. Ret ())"

definition drainTick :: "'e agent_env \<Rightarrow> (('e, 'x) agentw_scheme, unit) prog" where
  "drainTick E = drain_check (node_get E) (onDrain E)"

text \<open>
  The step-down message to one peer. \<open>peer_send\<close> is the socket's \<open>Write\<close> on the client's
  current connection, and does nothing when there is none.
\<close>

definition stepDownPeer :: "'e agent_env \<Rightarrow> string \<times> string \<times> string \<Rightarrow> (('e, 'x) agentw_scheme, unit) prog" where
  "stepDownPeer E c =
     bind (out (call (time_now (leases E)))) (\<lambda>t.
     out (call (peer_send E c (Encode \<lparr>Type = MsgStepDown, Timestamp = word_of_int t\<rparr>))))"

definition shutdown :: "'e agent_env \<Rightarrow> (('e, 'x) agentw_scheme, unit) prog" where
  "shutdown E =
     bind (set_ready False) (\<lambda>_.
     bind (out (Release (leases E) (leaseMgr E) (az_of E) (podName E))) (\<lambda>_.
     bind (bind (ForeignAZs (key_order_of E)) (for_each (\<lambda>az.
       bind (out (Release (leases E) (leaseMgr E) az (podName E))) (\<lambda>_. Ret ())))) (\<lambda>_.
     bind (call (\<lambda>w. (peerClients w, w))) (for_each (stepDownPeer E)))))"

definition readyFn :: "(('e, 'x) agentw_scheme, status) prog" where
  "readyFn = call (\<lambda>w. (if ready w then None else Some (Msg ''not ready''), w))"

definition onSpotNotice :: "(('e, 'x) agentw_scheme, unit) prog" where
  "onSpotNotice = metric (\<lambda>m. m\<lparr>SpotInterruptionPending := 1\<rparr>)"

section \<open>The peer watcher\<close>

definition forget_stale :: "string \<Rightarrow> string \<Rightarrow> ('e, 'x) agentw_scheme \<Rightarrow> ('e, 'x) agentw_scheme" where
  "forget_stale podAZ node w =
     (let staleID = lookup_str (staleInstances w) podAZ in
      if staleID \<noteq> '''' \<and> staleID \<noteq> node
      then w\<lparr>reg := (reg w)\<lparr>PeerStatus := (PeerStatus (reg w))((podAZ, staleID) := None)\<rparr>,
             staleInstances := (staleInstances w)(podAZ := None)\<rparr>
      else w)"

text \<open>The section under \<open>azMu\<close>: whether the AZ already had a client.\<close>

definition mark_connected :: "string \<Rightarrow> string \<Rightarrow> (('e, 'x) agentw_scheme, bool) prog" where
  "mark_connected podAZ node =
     call (\<lambda>w. if podAZ \<in> connectedAZs w then (True, w)
       else (False, forget_stale podAZ node (w\<lparr>connectedAZs := insert podAZ (connectedAZs w)\<rparr>)))"

definition touch :: "string \<times> string \<Rightarrow> (string \<times> string \<rightharpoonup> real) \<Rightarrow> (string \<times> string \<rightharpoonup> real)" where
  "touch k m = (case m k of None \<Rightarrow> m(k \<mapsto> 0) | Some _ \<Rightarrow> m)"

definition discover_pod :: "'e agent_env \<Rightarrow> pod \<Rightarrow> (('e, 'x) agentw_scheme, unit) prog" where
  "discover_pod E p =
     (let podAZ = lookup_str (pod_labels p) (AZLabelKey E) in
      if podAZ = az_of E \<or> PodIP p = '''' then Ret ()
      else bind (mark_connected podAZ (pod_NodeName p)) (\<lambda>already.
        if already then Ret ()
        else bind (metric (\<lambda>m. m\<lparr>PeerStatus := (PeerStatus m)((podAZ, pod_NodeName p) \<mapsto> 1),
               FailoverTotal := touch (az_of E, podAZ) (touch (podAZ, az_of E) (FailoverTotal m))\<rparr>)) (\<lambda>_.
             call (\<lambda>w. ((), w\<lparr>peerClients := peerClients w @
               [(podAZ, pod_NodeName p, PodIP p @ '':'' @ Itoa (peerPort E))]\<rparr>)))))"

definition discover :: "'e agent_env \<Rightarrow> (('e, 'x) agentw_scheme, unit) prog" where
  "discover E =
     bind (out (call (list_pods E))) (\<lambda>r.
       case r of Inl _ \<Rightarrow> Ret () | Inr pods \<Rightarrow> for_each (discover_pod E) pods)"

text \<open>The two callbacks of a client, for the AZ and the instance it was made for.\<close>

definition forget_peer :: "string \<Rightarrow> string \<Rightarrow> (('e, 'x) agentw_scheme, unit) prog" where
  "forget_peer az inst = call (\<lambda>w. ((), w\<lparr>connectedAZs := connectedAZs w - {az},
     staleInstances := (staleInstances w)(az \<mapsto> inst)\<rparr>))"

definition peerFailure :: "'e agent_env \<Rightarrow> string \<Rightarrow> string \<Rightarrow> (('e, 'x) agentw_scheme, unit) prog" where
  "peerFailure E az inst =
     bind (metric (\<lambda>m. m\<lparr>PeerStatus := (PeerStatus m)((az, inst) \<mapsto> 0)\<rparr>)) (\<lambda>_.
     bind (forget_peer az inst) (\<lambda>_. takeover E az))"

definition peerStepDown :: "'e agent_env \<Rightarrow> string \<Rightarrow> string \<Rightarrow> (('e, 'x) agentw_scheme, unit) prog" where
  "peerStepDown E az inst = bind (forget_peer az inst) (\<lambda>_. takeover E az)"

text \<open>What a client does when \<open>Connect\<close> ends as the events of its connection say.\<close>

definition peerSession ::
  "'e agent_env \<Rightarrow> int \<Rightarrow> string \<Rightarrow> string \<Rightarrow> attempt list \<Rightarrow> (('e, 'x) agentw_scheme, unit) prog" where
  "peerSession E pf az inst as =
     (case Connect pf as of
        Some OnFailure \<Rightarrow> peerFailure E az inst
      | Some OnStepDown \<Rightarrow> peerStepDown E az inst
      | _ \<Rightarrow> Ret ())"

end
