(* ===== verification/Rely_Guarantee.thy ===== *)
theory Rely_Guarantee
  imports Effects
begin

text \<open>
  Reasoning about a program under interference, step by step: \<open>triple R G I P p Q\<close> says that
  from a world with \<open>I\<close> and \<open>P\<close> every step of \<open>p\<close> satisfies \<open>G\<close>, whatever steps of \<open>R\<close>
  come between, and that a result \<open>a\<close> leaves \<open>I\<close> and \<open>Q a\<close>. The rules are proved once in
  the locale \<open>rg\<close>, whose assumptions are what a rely, a guarantee and an invariant need.
\<close>

definition stable :: "('w \<Rightarrow> 'w \<Rightarrow> bool) \<Rightarrow> ('w \<Rightarrow> bool) \<Rightarrow> bool" where
  "stable R P \<longleftrightarrow> (\<forall>w w'. P w \<longrightarrow> R w w' \<longrightarrow> P w')"

definition triple ::
  "('w \<Rightarrow> 'w \<Rightarrow> bool) \<Rightarrow> ('w \<Rightarrow> 'w \<Rightarrow> bool) \<Rightarrow> ('w \<Rightarrow> bool) \<Rightarrow> ('w \<Rightarrow> bool) \<Rightarrow> ('w, 'a) prog \<Rightarrow>
   ('a \<Rightarrow> 'w \<Rightarrow> bool) \<Rightarrow> bool" where
  "triple R G I P p Q \<longleftrightarrow> (\<forall>w. I w \<and> P w \<longrightarrow> safe R G (\<lambda>a w. I w \<and> Q a w) p w)"

text \<open>Every step of the program satisfies \<open>G\<close> and its result \<open>Q\<close>, whatever the others do.\<close>

definition anyhow :: "('w \<Rightarrow> 'w \<Rightarrow> bool) \<Rightarrow> ('a \<Rightarrow> bool) \<Rightarrow> ('w, 'a) prog \<Rightarrow> bool" where
  "anyhow G Q p \<longleftrightarrow> (\<forall>w. safe (\<lambda>_ _. True) G (\<lambda>a _. Q a) p w)"

lemma anyhow_Ret [simp]: "anyhow G Q (Ret a) \<longleftrightarrow> Q a"
  by (auto simp: anyhow_def intro: safe_Ret elim: safe_RetE)

lemma anyhow_call: "(\<And>w r w'. f w = (r, w') \<Longrightarrow> G w w' \<and> Q r) \<Longrightarrow> anyhow G Q (call f)"
  by (simp add: anyhow_def safe_call)

lemma anyhow_bind: "anyhow G Q p \<Longrightarrow> (\<And>a. Q a \<Longrightarrow> anyhow G S (k a)) \<Longrightarrow> anyhow G S (bind p k)"
  unfolding anyhow_def by (blast intro: safe_bind)

lemma anyhow_call_bind:
  "(\<And>w r w'. f w = (r, w') \<Longrightarrow> G w w' \<and> anyhow G S (k r)) \<Longrightarrow> anyhow G S (bind (call f) k)"
  unfolding anyhow_def by (auto intro!: safe_call_bind)

lemma anyhow_weaken: "anyhow G Q p \<Longrightarrow> (\<And>a. Q a \<Longrightarrow> S a) \<Longrightarrow> anyhow G S p"
  unfolding anyhow_def by (blast intro: safe_weaken)

lemma anyhow_for_each:
  "(\<And>x. x \<in> set xs \<Longrightarrow> anyhow G (\<lambda>_. True) (b x)) \<Longrightarrow> anyhow G (\<lambda>_. True) (for_each b xs)"
  by (induction xs) (auto intro: anyhow_bind)

lemma anyhow_any: "anyhow (\<lambda>_ _. True) (\<lambda>_. True) p"
proof (induction p)
  case (Act f)
  have "anyhow (\<lambda>_ _. True) (\<lambda>_. True) q" if "f w = (q, v)" for w q v
    using Act.IH [of "f w" q] rangeI [of f w] that by (simp add: fsts.simps)
  then show ?case unfolding anyhow_def by (auto intro!: safe.safe_Act)
qed simp

lemma safe_mono:
  assumes "safe R G Q p w" and "\<And>x y. R' x y \<Longrightarrow> R x y" and "\<And>x y. G x y \<Longrightarrow> G' x y"
  shows "safe R' G' Q p w"
  using assms(1)
proof (induction rule: safe.induct)
  case (safe_Ret w a)
  then show ?case by (auto intro!: safe.safe_Ret assms(2))
next
  case (safe_Act w f)
  show ?case by (rule safe.safe_Act) (use safe_Act assms(2,3) in blast)
qed

lemma safe_both:
  assumes "safe R G Q p w" and "safe R G' Q' p w" and "\<And>x. R x x"
  shows "safe R (\<lambda>x y. G x y \<and> G' x y) (\<lambda>a x. Q a x \<and> Q' a x) p w"
  using assms(1,2)
proof (induction rule: safe.induct)
  case (safe_Ret w a)
  then show ?case by (auto intro!: safe.safe_Ret elim: safe_RetE)
next
  case (safe_Act w f)
  show ?case
  proof (rule safe.safe_Act)
    fix w' p w'' assume s: "R w w'" "f w' = (p, w'')"
    then have "G' w' w'' \<and> safe R G' Q' p w''" using safe_Act.prems by (auto elim: safe_ActE)
    with safe_Act.IH [OF s]
    show "(G w' w'' \<and> G' w' w'') \<and> safe R (\<lambda>x y. G x y \<and> G' x y) (\<lambda>a x. Q a x \<and> Q' a x) p w''" by blast
  qed
qed

text \<open>A program over a part of the world; others may change the rest of it.\<close>

lemma safe_zoom:
  assumes "safe R G Q q (g w)"
    and gp: "\<And>v w. g (p v w) = v"
    and R: "\<And>x y. R' x y \<Longrightarrow> R (g x) (g y)"
    and G: "\<And>x v. G (g x) v \<Longrightarrow> G' x (p v x)"
  shows "safe R' G' (\<lambda>a x. Q a (g x)) (zoom g p q) w"
  using assms(1)
proof (induction "g w" arbitrary: w rule: safe.induct)
  case (safe_Ret a)
  then show ?case by (auto intro!: safe.safe_Ret R)
next
  case (safe_Act f)
  show ?case
  proof (simp, rule safe.safe_Act)
    fix x r y assume x: "R' w x" and y: "map_prod (\<lambda>q. zoom g p q) (\<lambda>v. p v x) (f (g x)) = (r, y)"
    obtain q v where f: "f (g x) = (q, v)" by fastforce
    with y have r: "r = zoom g p q" "y = p v x" by simp_all
    from safe_Act.hyps [OF R [OF x] f] have "G (g x) v" and "safe R' G' (\<lambda>a x. Q a (g x)) (zoom g p q) (p v x)"
      using gp by auto
    with G r show "G' x y \<and> safe R' G' (\<lambda>a x. Q a (g x)) r y" by blast
  qed
qed

text \<open>Alone, a program keeps whatever its steps keep.\<close>

lemma safe_run:
  assumes "safe (\<lambda>_ _. True) G Q p w" and "J w" and "\<And>x y. G x y \<Longrightarrow> J x \<Longrightarrow> J y"
  shows "J (snd (run p w)) \<and> Q (fst (run p w)) (snd (run p w))"
  using assms(1,2)
proof (induction rule: safe.induct)
  case (safe_Act w f)
  obtain p w' where f: "f w = (p, w')" by fastforce
  note IH = safe_Act.IH [OF TrueI f]
  have "J w'" using IH safe_Act.prems assms(3) by blast
  with IH show ?case by (simp add: run_Act f)
qed simp

lemma anyhow_run: "anyhow G Q p \<Longrightarrow> J w \<Longrightarrow> (\<And>x y. G x y \<Longrightarrow> J x \<Longrightarrow> J y) \<Longrightarrow>
    run p w = (r, w') \<Longrightarrow> J w' \<and> Q r"
  unfolding anyhow_def using safe_run [of G "\<lambda>a _. Q a" p w J] by auto

text \<open>Threads whose steps all satisfy a preorder satisfy it together.\<close>

lemma anyhow_reach:
  assumes "\<And>i. anyhow G (\<lambda>_. True) (P i)" and "par_reach (P, w) (P', w')"
    and refl: "\<And>x. G x x" and trans: "\<And>x y z. G x y \<Longrightarrow> G y z \<Longrightarrow> G x z"
  shows "G w w'"
proof -
  let ?safe = "all_safe (\<lambda>_ _ _. True) (\<lambda>_. G) (\<lambda>_ _ _. True)"
  have init: "?safe (P, w)"
    using assms(1) by (simp add: all_safe_def anyhow_def)
  have "?safe d \<and> G w (snd d)" if "par_reach (P, w) d" for d
    using that
  proof (induction "(P, w)" d rule: par_reach.induct)
    case par_refl
    with init refl show ?case by simp
  next
    case (par_trans d i e)
    then have "G (snd d) (snd e) \<and> ?safe e" by (intro par_step_safe [where i = i]) auto
    with par_trans trans show ?case by blast
  qed
  from this [OF assms(2)] show ?thesis by simp
qed

locale rg =
  fixes R :: "'w \<Rightarrow> 'w \<Rightarrow> bool" and G :: "'w \<Rightarrow> 'w \<Rightarrow> bool" and I :: "'w \<Rightarrow> bool"
  assumes R_refl: "R w w" and G_R: "G x y \<Longrightarrow> R x y" and I_stable: "I w \<Longrightarrow> R w w' \<Longrightarrow> I w'"
begin

text \<open>What the others cannot destroy, the program's own steps cannot destroy either.\<close>

lemma safe_frame:
  assumes "safe R G Q p w" and "F w" and "stable R F"
  shows "safe R G (\<lambda>a w. F w \<and> Q a w) p w"
  using assms(1,2)
proof (induction rule: safe.induct)
  case (safe_Ret w a)
  then show ?case using assms(3) by (auto intro!: safe.safe_Ret simp: stable_def)
next
  case (safe_Act w f)
  show ?case
  proof (rule safe.safe_Act)
    fix w' p w'' assume s: "R w w'" "f w' = (p, w'')"
    note IH = safe_Act.IH [OF s]
    have "F w''" using safe_Act.prems assms(3) s(1) G_R IH unfolding stable_def by blast
    with IH show "G w' w'' \<and> safe R G (\<lambda>a w. F w \<and> Q a w) p w''" by blast
  qed
qed

text \<open>Run alone, a program that satisfies its triple keeps whatever its guarantee keeps.\<close>

lemma run_keeps:
  assumes "triple R G I P p Q" and "I w" and "P w" and "J w" and "\<And>x y. G x y \<Longrightarrow> J x \<Longrightarrow> J y"
    and "run p w = (a, w')"
  shows "J w' \<and> I w' \<and> Q a w'"
proof -
  have "safe R G (\<lambda>a w. I w \<and> Q a w) p w" using assms(1-3) by (simp add: triple_def)
  then have "J (snd (run p w)) \<and> I (snd (run p w)) \<and> Q (fst (run p w)) (snd (run p w))"
    using assms(4)
  proof (induction rule: safe.induct)
    case (safe_Act w f)
    obtain q v where f: "f w = (q, v)" by fastforce
    note IH = safe_Act.IH [OF R_refl f]
    have "J v" using IH safe_Act.prems assms(5) by blast
    with IH show ?case by (simp add: run_Act f)
  qed (auto intro: R_refl)
  with assms(6) show ?thesis by simp
qed

lemma I_stable': "stable R I"
  using I_stable by (auto simp: stable_def)

lemma tripleI: "(\<And>w. I w \<Longrightarrow> P w \<Longrightarrow> safe R G Q p w) \<Longrightarrow> triple R G I P p Q"
  unfolding triple_def by (auto intro: safe_frame I_stable')

lemma triple_frame:
  assumes "triple R G I P p Q" and "stable R F"
  shows "triple R G I (\<lambda>w. F w \<and> P w) p (\<lambda>a w. F w \<and> Q a w)"
proof (rule tripleI)
  fix w assume "I w" and "F w \<and> P w"
  then have "safe R G (\<lambda>a w. I w \<and> Q a w) p w" using assms(1) by (simp add: triple_def)
  then have "safe R G Q p w" by (rule safe_weaken) simp
  then show "safe R G (\<lambda>a w. F w \<and> Q a w) p w"
    using \<open>F w \<and> P w\<close> assms(2) by (intro safe_frame) auto
qed

lemma triple_Ret: "stable R (Q a) \<Longrightarrow> (\<And>w. P w \<Longrightarrow> Q a w) \<Longrightarrow> triple R G I P (Ret a) Q"
  by (rule tripleI) (auto intro!: safe_Ret simp: stable_def)

lemma triple_bind:
  assumes "triple R G I P p Q" and "\<And>a. triple R G I (Q a) (k a) S"
  shows "triple R G I P (bind p k) S"
  unfolding triple_def
proof (intro allI impI)
  fix w assume "I w \<and> P w"
  then have "safe R G (\<lambda>a w. I w \<and> Q a w) p w" using assms(1) by (simp add: triple_def)
  then show "safe R G (\<lambda>a w. I w \<and> S a w) (bind p k) w"
    by (rule safe_bind) (use assms(2) R_refl in \<open>auto simp: triple_def\<close>)
qed

lemma triple_pre: "triple R G I P p Q \<Longrightarrow> (\<And>w. P' w \<Longrightarrow> P w) \<Longrightarrow> triple R G I P' p Q"
  unfolding triple_def by blast

lemma triple_post: "triple R G I P p Q \<Longrightarrow> (\<And>a w. Q a w \<Longrightarrow> Q' a w) \<Longrightarrow> triple R G I P p Q'"
  unfolding triple_def by (blast intro: safe_weaken)

text \<open>Programs that need and promise nothing but their guarantee.\<close>

definition harmless :: "('w, 'a) prog \<Rightarrow> bool" where
  "harmless p \<longleftrightarrow> triple R G I (\<lambda>_. True) p (\<lambda>_ _. True)"

lemma harmless_Ret: "harmless (Ret a)"
  unfolding harmless_def by (rule triple_Ret) (simp_all add: stable_def)

lemma harmless_call: "(\<And>w r w'. f w = (r, w') \<Longrightarrow> G w w') \<Longrightarrow> harmless (call f)"
  unfolding harmless_def by (rule tripleI) (auto intro!: safe_call)

lemma harmless_bind: "harmless p \<Longrightarrow> (\<And>a. harmless (k a)) \<Longrightarrow> harmless (bind p k)"
  unfolding harmless_def by (rule triple_bind)

lemma harmless_for_each: "(\<And>x. x \<in> set xs \<Longrightarrow> harmless (b x)) \<Longrightarrow> harmless (for_each b xs)"
  by (induction xs) (auto intro: harmless_Ret harmless_bind)

lemma harmless_triple: "triple R G I P p Q \<Longrightarrow> (\<And>w. P w) \<Longrightarrow> harmless p"
  unfolding harmless_def triple_def by (blast intro: safe_weaken)

lemma harmless_keeps: "harmless p \<Longrightarrow> stable R P \<Longrightarrow> triple R G I P p (\<lambda>_. P)"
  unfolding harmless_def using triple_frame [of "\<lambda>_. True" p "\<lambda>_ _. True" P] by simp

text \<open>First a harmless program, then one that still needs the precondition.\<close>

lemma triple_after: "harmless p \<Longrightarrow> stable R P \<Longrightarrow> (\<And>a. triple R G I P (k a) S) \<Longrightarrow> triple R G I P (bind p k) S"
  by (rule triple_bind [OF harmless_keeps])

lemma harmless_then: "triple R G I (\<lambda>_. True) p Q \<Longrightarrow> (\<And>a. triple R G I (Q a) (k a) (\<lambda>_ _. True)) \<Longrightarrow>
    harmless (bind p k)"
  unfolding harmless_def by (rule triple_bind)

lemma harmless_any: "harmless p \<Longrightarrow> triple R G I P p (\<lambda>_ _. True)"
  unfolding harmless_def by (erule triple_pre) simp

end

end
