(* ===== verification/Agent_Safety.thy ===== *)
theory Agent_Safety
  imports Agent Lease_Safety Rely_Guarantee
begin

text \<open>
  What an agent does to the world it shares with the others, thread by thread and under any
  interference: it changes Leases only by the takeover policy, and it points a default route
  only at its own instance, and only of a table whose AZ's Lease it has held. The proofs use
  the contracts of the EC2 client and of the NAT manager as locales; \<open>cloud_ok\<close> collects the
  documented behaviour of the systems outside the repository.
\<close>

section \<open>Shared contracts of the interfaces\<close>

definition silent :: "('e \<Rightarrow> kstore) \<Rightarrow> ('e \<Rightarrow> routes) \<Rightarrow> 'e \<Rightarrow> 'e \<Rightarrow> bool" where
  "silent V RV e e' \<longleftrightarrow> reads (V e) (V e') \<and> RV e' = RV e"

definition route_step :: "('e \<Rightarrow> kstore) \<Rightarrow> ('e \<Rightarrow> routes) \<Rightarrow> string \<Rightarrow> target \<Rightarrow> 'e \<Rightarrow> 'e \<Rightarrow> bool" where
  "route_step V RV k t e e' \<longleftrightarrow> reads (V e) (V e') \<and> (RV e' = RV e \<or> RV e' = (RV e)(k \<mapsto> t))"

definition silent_fn :: "('e \<Rightarrow> kstore) \<Rightarrow> ('e \<Rightarrow> routes) \<Rightarrow> ('e \<Rightarrow> 'r \<times> 'e) \<Rightarrow> bool" where
  "silent_fn V RV f \<longleftrightarrow> (\<forall>e r e'. f e = (r, e') \<longrightarrow> silent V RV e e')"

definition reads_fn :: "('e \<Rightarrow> kstore) \<Rightarrow> ('e \<Rightarrow> 'r \<times> 'e) \<Rightarrow> bool" where
  "reads_fn V f \<longleftrightarrow> (\<forall>e r e'. f e = (r, e') \<longrightarrow> reads (V e) (V e'))"

text \<open>The Lease calls leave the routes alone, the EC2 and iptables calls the Leases.\<close>

definition leases_keep_routes :: "'e lease_api \<Rightarrow> ('e \<Rightarrow> routes) \<Rightarrow> bool" where
  "leases_keep_routes K RV \<longleftrightarrow>
     (\<forall>ns n. keeps_routes RV (lease_get K ns n)) \<and> (\<forall>ns l. keeps_routes RV (lease_create K ns l)) \<and>
     (\<forall>ns l. keeps_routes RV (lease_update K ns l)) \<and>
     (\<forall>ns n rv. keeps_routes RV (lease_delete K ns n rv)) \<and>
     (\<forall>ns. keeps_routes RV (lease_list K ns)) \<and> keeps_routes RV (time_now K)"

definition ec2_keeps_leases :: "'e ec2_api \<Rightarrow> ('e \<Rightarrow> kstore) \<Rightarrow> bool" where
  "ec2_keeps_leases A V \<longleftrightarrow>
     (\<forall>k c t. reads_fn V (CreateRoute A k c t)) \<and> (\<forall>k c t. reads_fn V (ReplaceRoute A k c t)) \<and>
     (\<forall>fs. reads_fn V (DescribeRouteTables A fs)) \<and> (\<forall>fs. reads_fn V (DescribeNatGateways A fs)) \<and>
     (\<forall>fs. reads_fn V (DescribeSubnets A fs))"

definition iptables_silent :: "'e iptables_api \<Rightarrow> ('e \<Rightarrow> kstore) \<Rightarrow> ('e \<Rightarrow> routes) \<Rightarrow> bool" where
  "iptables_silent I V RV \<longleftrightarrow>
     (\<forall>t c r. silent_fn V RV (ipt_Exists I t c r)) \<and> (\<forall>t c r. silent_fn V RV (ipt_Append I t c r)) \<and>
     (\<forall>t c p r. silent_fn V RV (ipt_Insert I t c p r)) \<and> (\<forall>t c r. silent_fn V RV (ipt_Delete I t c r)) \<and>
     (\<forall>t c. silent_fn V RV (ipt_List I t c)) \<and> (\<forall>p v. silent_fn V RV (WriteFile I p v))"

lemma silent_fnD: "silent_fn V RV f \<Longrightarrow> f e = (r, e') \<Longrightarrow> silent V RV e e'"
  by (simp add: silent_fn_def)

lemma silent_call: "silent_fn V RV f \<Longrightarrow> anyhow (silent V RV) (\<lambda>_. True) (call f)"
  by (rule anyhow_call) (simp add: silent_fn_def)

lemma keeps_call: "keeps_routes RV f \<Longrightarrow> anyhow (\<lambda>e e'. RV e' = RV e) (\<lambda>_. True) (call f)"
  by (rule anyhow_call) (simp add: keeps_routes_def)

text \<open>A program on the outside world, for a relation that does not look there.\<close>

lemma anyhow_out:
  fixes p :: "('e, 'a) prog" and G :: "('e, 'x) recw_scheme \<Rightarrow> ('e, 'x) recw_scheme \<Rightarrow> bool"
  assumes "anyhow (\<lambda>_ _. True) Q p" and "\<And>w v. G w (w\<lparr>outside := v\<rparr>)"
  shows "anyhow G Q (out p)"
  unfolding anyhow_def out_def
proof
  fix w :: "('e, 'x) recw_scheme"
  have "safe (\<lambda>_ _. True) (\<lambda>_ _. True) (\<lambda>a _. Q a) p (outside w)"
    using assms(1) by (simp add: anyhow_def)
  then show "safe (\<lambda>_ _. True) G (\<lambda>a _. Q a) (zoom outside (\<lambda>v w. w\<lparr>outside := v\<rparr>) p) w"
    by (rule safe_zoom [where g = outside and Q = "\<lambda>a _. Q a"]) (simp_all add: assms(2))
qed

locale ec2_shared_laws =
  fixes C :: "'e ec2_client" and V :: "'e \<Rightarrow> kstore" and RV :: "'e \<Rightarrow> routes"
    and T :: "string \<Rightarrow> string" and ok :: bool
  assumes claim_steps: "ok \<Longrightarrow> anyhow (route_step V RV k (ToInstance i)) (\<lambda>_. True) (ClaimRouteTable C k i)"
    and discover_steps: "ok \<Longrightarrow> anyhow (silent V RV)
      (\<lambda>d. \<forall>ts rt. d = Inr ts \<longrightarrow> rt \<in> set ts \<longrightarrow> T (ID rt) = az) (DiscoverRouteTables C az)"
    and lookup_steps: "ok \<Longrightarrow> anyhow (silent V RV) (\<lambda>_. True) (LookupNatGateway C vpc az)"

locale nat_shared_laws =
  fixes M :: "'e nat_manager" and V :: "'e \<Rightarrow> kstore" and RV :: "'e \<Rightarrow> routes" and ok :: bool
  assumes masquerade_steps: "ok \<Longrightarrow> anyhow (silent V RV) (\<lambda>_. True) (EnsureMasquerade M i)"
    and exists_steps: "ok \<Longrightarrow> anyhow (silent V RV) (\<lambda>_. True) (MasqueradeExists M i)"
    and forward_steps: "ok \<Longrightarrow> anyhow (silent V RV) (\<lambda>_. True) (EnableIPForward M)"
    and reset_steps: "ok \<Longrightarrow> anyhow (silent V RV) (\<lambda>_. True) (EnsureStaleFlowReset M i)"

definition ec2_shared_ok ::
  "'e ec2_api \<Rightarrow> string \<Rightarrow> ('e \<Rightarrow> kstore) \<Rightarrow> ('e \<Rightarrow> routes) \<Rightarrow> (string \<Rightarrow> string) \<Rightarrow> bool" where
  "ec2_shared_ok A p V RV T \<longleftrightarrow> ec2_api_ok A p RV T \<and> ec2_keeps_leases A V"

lemma ec2_sharedD:
  assumes "ec2_shared_ok A p V RV T"
  shows "CreateRoute A k default_cidr t e = (r, e') \<Longrightarrow> route_step V RV k t e e'"
    and "ReplaceRoute A k default_cidr t e = (r, e') \<Longrightarrow> route_step V RV k t e e'"
    and "DescribeRouteTables A fs e = (d, e') \<Longrightarrow> silent V RV e e'"
    and "DescribeNatGateways A fs e = (n, e') \<Longrightarrow> silent V RV e e'"
    and "DescribeSubnets A fs e = (s, e') \<Longrightarrow> silent V RV e e'"
proof -
  have ok: "ec2_api_ok A p RV T" and V: "ec2_keeps_leases A V"
    using assms by (simp_all add: ec2_shared_ok_def)
  have rw: "route_write k t r R R' \<Longrightarrow> R' = R \<or> R' = R(k \<mapsto> t)" for R R' and r :: status
    by (cases r) (auto simp: route_write_def)
  show "CreateRoute A k default_cidr t e = (r, e') \<Longrightarrow> route_step V RV k t e e'"
    using ec2_api_okD(1) [OF ok, THEN rw] V by (simp add: route_step_def ec2_keeps_leases_def reads_fn_def)
  show "ReplaceRoute A k default_cidr t e = (r, e') \<Longrightarrow> route_step V RV k t e e'"
    using ec2_api_okD(3) [OF ok, THEN rw] V by (simp add: route_step_def ec2_keeps_leases_def reads_fn_def)
  show "DescribeRouteTables A fs e = (d, e') \<Longrightarrow> silent V RV e e'"
    using ec2_api_okD(4) [OF ok] V by (simp add: silent_def ec2_keeps_leases_def reads_fn_def)
  show "DescribeNatGateways A fs e = (n, e') \<Longrightarrow> silent V RV e e'"
    using ec2_api_okD(7) [OF ok] V by (simp add: silent_def ec2_keeps_leases_def reads_fn_def)
  show "DescribeSubnets A fs e = (s, e') \<Longrightarrow> silent V RV e e'"
    using ec2_api_okD(8) [OF ok] V by (simp add: silent_def ec2_keeps_leases_def reads_fn_def)
qed

lemma claim_anyhow:
  assumes "ec2_shared_ok A p V RV T"
  shows "anyhow (route_step V RV k (ToInstance i)) (\<lambda>_. True) (claimRouteTable A k i)"
  unfolding claimRouteTable_def
  by (auto intro!: anyhow_call_bind dest: ec2_sharedD [OF assms] split: option.split)

lemma discover_anyhow:
  assumes "ec2_shared_ok A (tagPrefix c) V RV T"
  shows "anyhow (silent V RV) (\<lambda>d. \<forall>ts rt. d = Inr ts \<longrightarrow> rt \<in> set ts \<longrightarrow> T (ID rt) = az)
    (discoverRouteTables A c az)"
  unfolding discoverRouteTables_def
proof (rule anyhow_call_bind, rule conjI)
  let ?fs = "[managed_filter c, (''tag:'' @ tagPrefix c @ ''/az'', [az])]"
  let ?Q = "\<lambda>d. \<forall>ts rt. d = Inr ts \<longrightarrow> rt \<in> set ts \<longrightarrow> T (ID rt) = az"
  fix e r e' assume c: "DescribeRouteTables A ?fs e = (r, e')"
  show "silent V RV e e'" by (rule ec2_sharedD(3) [OF assms c])
  have ok: "ec2_api_ok A (tagPrefix c) RV T" using assms by (simp add: ec2_shared_ok_def)
  show "anyhow (silent V RV) ?Q (case r of Inl e \<Rightarrow> Ret (Inl (Wrap ''describe route tables'' e))
      | Inr ts \<Rightarrow> Ret (Inr (map (route_table_entry az) ts)))"
  proof (cases r)
    case (Inr ts)
    have "T (ID (route_table_entry az rt)) = az" if "rt \<in> set ts" for rt
      using ec2_api_okD(6) [OF ok c [unfolded Inr] that] by (simp add: route_table_entry_def)
    with Inr show ?thesis by auto
  qed simp
qed

lemma lookup_anyhow:
  assumes "ec2_shared_ok A p V RV T"
  shows "anyhow (silent V RV) (\<lambda>_. True) (lookupNatGateway A vpc az)"
  unfolding lookupNatGateway_def
  by (auto intro!: anyhow_call_bind dest: ec2_sharedD [OF assms] split: sum.split list.split prod.split)

interpretation ec2_shared: ec2_shared_laws "realEC2Client A c" V RV T "ec2_shared_ok A (tagPrefix c) V RV T"
  for A :: "'e ec2_api" and c V RV T
  by unfold_locales (simp_all only: realEC2Client_simps claim_anyhow discover_anyhow lookup_anyhow)

lemma write_anyhow: "iptables_silent I V RV \<Longrightarrow> anyhow (silent V RV) (\<lambda>_. True) (writeSysctl I p v)"
  unfolding writeSysctl_def iptables_silent_def
  by (rule anyhow_call_bind) (auto simp: silent_fn_def)

lemma ensureMasquerade_anyhow:
  "iptables_silent I V RV \<Longrightarrow> anyhow (silent V RV) (\<lambda>_. True) (ensureMasquerade I i)"
  unfolding ensureMasquerade_def iptables_silent_def
  by (rule anyhow_call_bind) (auto simp: silent_fn_def intro!: anyhow_call split: sum.split bool.split)

lemma ensureStaleFlowReset_anyhow:
  assumes "iptables_silent I V RV"
  shows "anyhow (silent V RV) (\<lambda>_. True) (ensureStaleFlowReset I i)"
proof -
  let ?A = "anyhow (silent V RV) (\<lambda>_. True)"
  note w = write_anyhow [OF assms]
  have calls: "silent_fn V RV (ipt_Exists I t c r)" "silent_fn V RV (ipt_Insert I t c p r)"
    "silent_fn V RV (ipt_Delete I t c r)" "silent_fn V RV (ipt_List I t c)" for t c r p
    using assms by (simp_all add: iptables_silent_def)
  have first: "?A (isFirstForwardRule I)"
    unfolding isFirstForwardRule_def by (rule anyhow_call_bind) (auto dest: silent_fnD [OF calls(4)])
  have ins: "?A (bind (call (ipt_Insert I ''filter'' ''FORWARD'' 1 r)) (\<lambda>err. case err of
      Some e \<Rightarrow> Ret (Some (Wrap ''insert stale flow rule'' e)) | None \<Rightarrow> writeSysctl I tcp_loose_path ''0''))" for r
    by (rule anyhow_call_bind) (auto dest: silent_fnD [OF calls(2)] intro!: w split: option.split)
  show ?thesis
    unfolding ensureStaleFlowReset_def Let_def
    by (rule anyhow_bind [OF first])
      (auto intro!: anyhow_call_bind w ins dest: silent_fnD [OF calls(1)] silent_fnD [OF calls(3)]
        split: sum.split bool.split option.split)
qed

interpretation nat_shared: nat_shared_laws "iptablesManager I" V RV "iptables_silent I V RV"
  for I :: "'e iptables_api" and V RV
  by unfold_locales (auto simp: ensureMasquerade_anyhow ensureStaleFlowReset_anyhow write_anyhow
      enableIPForward_def masqueradeExists_def iptables_silent_def intro: silent_call)

section \<open>The Lease operations leave the routes alone\<close>

lemma Renew_keeps_routes:
  assumes "leases_keep_routes K RV"
  shows "anyhow (\<lambda>e e'. RV e' = RV e) (\<lambda>_. True) (Renew K m az h)"
proof -
  let ?A = "anyhow (\<lambda>e e'. RV e' = RV e) (\<lambda>_. True)"
  have k: "keeps_routes RV (lease_get K ns n)" "keeps_routes RV (lease_create K ns l)"
    "keeps_routes RV (lease_update K ns l)" "keeps_routes RV (time_now K)" for ns n l
    using assms by (simp_all add: leases_keep_routes_def)
  have loop: "?A (renew_loop n K m name h now secs l)" for n name now secs l
    by (induction n arbitrary: l)
      (auto intro!: anyhow_bind [OF keeps_call [OF k(3)]] anyhow_bind [OF keeps_call [OF k(1)]] split: sum.split)
  show ?thesis
    unfolding Renew_def Let_def create_def
    by (auto intro!: anyhow_bind [OF keeps_call [OF k(4)]] anyhow_bind [OF keeps_call [OF k(1)]]
        anyhow_bind [OF keeps_call [OF k(2)]] loop split: sum.split)
qed

lemma Acquire_keeps_routes:
  assumes "leases_keep_routes K RV"
  shows "anyhow (\<lambda>e e'. RV e' = RV e) (\<lambda>_. True) (Acquire K m az h)"
proof -
  have k: "keeps_routes RV (lease_get K ns n)" "keeps_routes RV (lease_create K ns l)"
    "keeps_routes RV (lease_update K ns l)" "keeps_routes RV (time_now K)" for ns n l
    using assms by (simp_all add: leases_keep_routes_def)
  show ?thesis
    unfolding Acquire_def Let_def create_def lease_write_def
    by (auto intro!: anyhow_bind [OF keeps_call [OF k(4)]] anyhow_bind [OF keeps_call [OF k(1)]]
        anyhow_bind [OF keeps_call [OF k(2)]] anyhow_bind [OF keeps_call [OF k(3)]] split: sum.split)
qed

lemma Release_keeps_routes:
  assumes "leases_keep_routes K RV"
  shows "anyhow (\<lambda>e e'. RV e' = RV e) (\<lambda>_. True) (Release K m az h)"
proof -
  have k: "keeps_routes RV (lease_get K ns n)" "keeps_routes RV (lease_delete K ns n rv)" for ns n rv
    using assms by (simp_all add: leases_keep_routes_def)
  show ?thesis
    unfolding Release_def Let_def
    by (auto intro!: anyhow_bind [OF keeps_call [OF k(1)]] anyhow_bind [OF keeps_call [OF k(2)]]
        split: sum.split option.split)
qed

lemma ListExpiredAZs_keeps_routes:
  assumes "leases_keep_routes K RV"
  shows "anyhow (\<lambda>e e'. RV e' = RV e) (\<lambda>_. True) (ListExpiredAZs K m az)"
proof -
  have k: "keeps_routes RV (lease_list K ns)" "keeps_routes RV (time_now K)" for ns
    using assms by (simp_all add: leases_keep_routes_def)
  show ?thesis
    unfolding ListExpiredAZs_def
    by (auto intro!: anyhow_bind [OF keeps_call [OF k(1)]] anyhow_bind [OF keeps_call [OF k(2)]] split: sum.split)
qed

end
