(* ===== verification/Agent_Threads.thy ===== *)
theory Agent_Threads
  imports Agent_Safety
begin

text \<open>
  Every goroutine of an agent keeps the shared guarantee \<open>agent_guar\<close>. The environment may
  be one that any number of agents and threads share: the rely only says that committed
  Lease versions stay committed and that time does not run backwards.
\<close>

section \<open>The guarantee of an agent\<close>

definition lease_key_of :: "'e agent_env \<Rightarrow> string \<Rightarrow> lease_key" where
  "lease_key_of E az = (namespace (leaseMgr E), leaseName az)"

definition pol_of :: "'e agent_env \<Rightarrow> policy" where
  "pol_of E = takeover_policy (podName E) (homeAZ (leaseMgr E))"

text \<open>The agent has been the committed holder of the Lease of the AZ.\<close>

definition served :: "'e agent_env \<Rightarrow> ('e \<Rightarrow> kstore) \<Rightarrow> string \<Rightarrow> 'e \<Rightarrow> bool" where
  "served E V az e \<longleftrightarrow> has_held V (lease_key_of E az) (podName E) e"

definition lease_part :: "'e agent_env \<Rightarrow> ('e \<Rightarrow> kstore) \<Rightarrow> 'e \<Rightarrow> 'e \<Rightarrow> bool" where
  "lease_part E V = lease_guar V (pol_of E) (podName E) (homeAZ (leaseMgr E)) (namespace (leaseMgr E))"

definition route_part ::
  "'e agent_env \<Rightarrow> ('e \<Rightarrow> kstore) \<Rightarrow> ('e \<Rightarrow> routes) \<Rightarrow> (string \<Rightarrow> string) \<Rightarrow> 'e \<Rightarrow> 'e \<Rightarrow> bool" where
  "route_part E V RV T e e' \<longleftrightarrow> RV e' = RV e \<or>
     (\<exists>k. RV e' = (RV e)(k \<mapsto> ToInstance (cfg_InstanceID (rcfg E))) \<and> served E V (T k) e)"

definition agent_guar ::
  "'e agent_env \<Rightarrow> ('e \<Rightarrow> kstore) \<Rightarrow> ('e \<Rightarrow> routes) \<Rightarrow> (string \<Rightarrow> string) \<Rightarrow> 'e \<Rightarrow> 'e \<Rightarrow> bool" where
  "agent_guar E V RV T e e' \<longleftrightarrow> lease_part E V e e' \<and> route_part E V RV T e e'"

text \<open>What the code relies on outside the repository, for the environment of one agent.\<close>

definition cloud_ok ::
  "'e agent_env \<Rightarrow> 'e ec2_api \<Rightarrow> ec2_settings \<Rightarrow> 'e iptables_api \<Rightarrow>
   ('e \<Rightarrow> kstore) \<Rightarrow> ('e \<Rightarrow> routes) \<Rightarrow> (string \<Rightarrow> string) \<Rightarrow> bool" where
  "cloud_ok E A c I V RV T \<longleftrightarrow>
     EC2Client (rcfg E) = realEC2Client A c \<and> NATManager (rcfg E) = iptablesManager I \<and>
     lease_api_ok (leases E) V \<and> leases_keep_routes (leases E) RV \<and>
     ec2_shared_ok A (tagPrefix c) V RV T \<and> iptables_silent I V RV \<and>
     (\<forall>n. silent_fn V RV (node_get E n)) \<and> silent_fn V RV (list_pods E) \<and> (\<forall>p. silent_fn V RV (read_file E p)) \<and>
     (\<forall>p. silent_fn V RV (read_lines E p)) \<and> (\<forall>i. silent_fn V RV (link_stats E i)) \<and>
     (\<forall>p m. silent_fn V RV (peer_send E p m))"

section \<open>Threads on the agent's world\<close>

definition agent_rely :: "('e \<Rightarrow> kstore) \<Rightarrow> ('e, 'x) recw_scheme \<Rightarrow> ('e, 'x) recw_scheme \<Rightarrow> bool" where
  "agent_rely V w w' \<longleftrightarrow> lease_rely V (outside w) (outside w')"

definition agent_step where
  "agent_step E V RV T w w' \<longleftrightarrow> agent_guar E V RV T (outside w) (outside w')"

definition stored_wf :: "('e \<Rightarrow> kstore) \<Rightarrow> ('e, 'x) recw_scheme \<Rightarrow> bool" where
  "stored_wf V w \<longleftrightarrow> kstore_wf (V (outside w))"

lemma agent_guar_rely: "agent_guar E V RV T e e' \<Longrightarrow> lease_rely V e e'"
  by (auto simp: agent_guar_def lease_part_def dest: guar_imp_rely)

interpretation agent_rg: rg "agent_rely V" "agent_step E V RV T" "stored_wf V"
  for E :: "'e agent_env" and V :: "'e \<Rightarrow> kstore" and RV and T
  by unfold_locales (auto simp: agent_rely_def agent_step_def stored_wf_def
      intro: agent_guar_rely rely_wf)

lemma silent_guar: "silent V RV e e' \<Longrightarrow> agent_guar E V RV T e e'"
  by (simp add: silent_def agent_guar_def lease_part_def route_part_def reads_guar)

lemma same_guar: "agent_guar E V RV T e e"
  by (rule silent_guar) (simp add: silent_def reads_def quiet_def)

lemma stable_served: "stable (agent_rely V) (\<lambda>w. served E V az (outside w))"
  by (auto simp: stable_def agent_rely_def served_def intro: has_held_stable)

lemma stable_True: "stable R (\<lambda>_. True)"
  by (simp add: stable_def)

lemma stable_if: "stable R P \<Longrightarrow> stable R (\<lambda>w. b \<longrightarrow> P w)"
  by (auto simp: stable_def)

text \<open>The three ways a thread acts: on its own fields, silently outside, on a Lease or a route.\<close>

lemma harmless_local: "(\<And>w r w'. f w = (r, w') \<Longrightarrow> outside w' = outside w) \<Longrightarrow>
    agent_rg.harmless V E RV T (call f)"
  by (rule agent_rg.harmless_call) (auto simp: agent_step_def same_guar)

lemma harmless_locked: "agent_rg.harmless V E RV T (locked f)"
  unfolding locked_def by (rule harmless_local) (auto split: prod.splits)

lemma safe_out:
  assumes "safe (lease_rely V) (agent_guar E V RV T) Q p (outside w)"
  shows "safe (agent_rely V) (agent_step E V RV T) (\<lambda>a w. Q a (outside w)) (out p) w"
  unfolding out_def
  by (rule safe_zoom [where g = outside, OF assms]) (simp_all add: agent_rely_def agent_step_def)

lemma harmless_out:
  assumes "anyhow (silent V RV) Q p"
  shows "agent_rg.harmless V E RV T (out p)"
  unfolding agent_rg.harmless_def
proof (rule agent_rg.tripleI)
  fix w
  have "safe (\<lambda>_ _. True) (silent V RV) (\<lambda>a _. Q a) p (outside w)"
    using assms by (simp add: anyhow_def)
  then have "safe (lease_rely V) (agent_guar E V RV T) (\<lambda>a _. Q a) p (outside w)"
    by (rule safe_mono) (simp_all add: silent_guar)
  from safe_out [OF this]
  show "safe (agent_rely V) (agent_step E V RV T) (\<lambda>_ _. True) (out p) w"
    by (rule safe_weaken) simp
qed

lemma harmless_silent: "anyhow (silent V RV) (\<lambda>_. True) p \<Longrightarrow> agent_rg.harmless V E RV T (out p)"
  by (rule harmless_out)

lemma triple_out_result:
  assumes "anyhow (silent V RV) Q p"
  shows "triple (agent_rely V) (agent_step E V RV T) (stored_wf V) (\<lambda>_. True) (out p) (\<lambda>a _. Q a)"
proof (rule agent_rg.tripleI)
  fix w
  have "safe (\<lambda>_ _. True) (silent V RV) (\<lambda>a _. Q a) p (outside w)"
    using assms by (simp add: anyhow_def)
  then have "safe (lease_rely V) (agent_guar E V RV T) (\<lambda>a _. Q a) p (outside w)"
    by (rule safe_mono) (simp_all add: silent_guar)
  from safe_out [OF this]
  show "safe (agent_rely V) (agent_step E V RV T) (\<lambda>a _. Q a) (out p) w" .
qed

lemma triple_lease:
  assumes "\<And>e. kstore_wf (V e) \<Longrightarrow> safe (lease_rely V) (lease_part E V) Q p e"
    and "anyhow (\<lambda>e e'. RV e' = RV e) (\<lambda>_. True) p"
  shows "triple (agent_rely V) (agent_step E V RV T) (stored_wf V) (\<lambda>_. True) (out p) (\<lambda>a w. Q a (outside w))"
proof (rule agent_rg.tripleI)
  fix w assume "stored_wf V w"
  then have 1: "safe (lease_rely V) (lease_part E V) Q p (outside w)"
    by (intro assms(1)) (simp add: stored_wf_def)
  have "safe (\<lambda>_ _. True) (\<lambda>e e'. RV e' = RV e) (\<lambda>_ _. True) p (outside w)"
    using assms(2) by (simp add: anyhow_def)
  then have 2: "safe (lease_rely V) (\<lambda>e e'. RV e' = RV e) (\<lambda>_ _. True) p (outside w)"
    by (rule safe_mono) simp_all
  have "safe (lease_rely V) (agent_guar E V RV T) (\<lambda>a x. Q a x \<and> True) p (outside w)"
    by (rule safe_mono [OF safe_both [OF 1 2]]) (simp_all add: agent_guar_def route_part_def)
  from safe_out [OF this]
  show "safe (agent_rely V) (agent_step E V RV T) (\<lambda>a w. Q a (outside w)) (out p) w" by simp
qed

text \<open>A claim of a table whose AZ the agent has served.\<close>

lemma triple_claim:
  assumes "anyhow (route_step V RV k (ToInstance (cfg_InstanceID (rcfg E)))) Q p"
  shows "triple (agent_rely V) (agent_step E V RV T) (stored_wf V) (\<lambda>w. served E V (T k) (outside w)) (out p)
    (\<lambda>a w. served E V (T k) (outside w))"
proof (rule agent_rg.triple_post [OF agent_rg.tripleI])
  let ?R = "lease_rely V" and ?F = "\<lambda>e. served E V (T k) e"
  fix w assume F: "served E V (T k) (outside w)"
  have st: "stable (lease_rely V) (\<lambda>e. served E V (T k) e)"
    by (auto simp: stable_def served_def intro: has_held_stable)
  have step: "safe ?R (\<lambda>e e'. ?F e \<longrightarrow> agent_guar E V RV T e e') (\<lambda>_ _. True) p (outside w)"
  proof (rule safe_weaken [OF safe_mono])
    show "safe (\<lambda>_ _. True) (route_step V RV k (ToInstance (cfg_InstanceID (rcfg E)))) (\<lambda>a _. Q a) p (outside w)"
      using assms by (simp add: anyhow_def)
  qed (auto simp: route_step_def agent_guar_def lease_part_def route_part_def reads_guar)
  have keep: "safe ?R (\<lambda>e e'. ?R e e') (\<lambda>_ _. True) p (outside w)"
  proof (rule safe_weaken [OF safe_mono])
    show "safe (\<lambda>_ _. True) (route_step V RV k (ToInstance (cfg_InstanceID (rcfg E)))) (\<lambda>a _. Q a) p (outside w)"
      using assms by (simp add: anyhow_def)
  qed (auto simp: route_step_def lease_rely_def intro: reads_evolves)
  have "safe ?R (agent_guar E V RV T) (\<lambda>a e. ?F e) p (outside w)"
    using safe_both [OF step keep lease_rely_refl] F
  proof (induction rule: safe.induct)
    case (safe_Ret e a)
    then show ?case using st by (auto intro!: safe.safe_Ret simp: stable_def)
  next
    case (safe_Act e f)
    show ?case
    proof (rule safe.safe_Act)
      fix e1 q e2 assume s: "lease_rely V e e1" "f e1 = (q, e2)"
      note IH = safe_Act.IH [OF s]
      have F1: "?F e1" using safe_Act.prems s(1) st by (auto simp: stable_def)
      with IH have "?F e2" using st unfolding stable_def by blast
      with IH F1 show "agent_guar E V RV T e1 e2 \<and> safe ?R (agent_guar E V RV T) (\<lambda>a e. ?F e) q e2" by blast
    qed
  qed
  from safe_out [OF this]
  show "safe (agent_rely V) (agent_step E V RV T) (\<lambda>a w. ?F (outside w)) (out p) w" .
qed

end
