(* ===== verification/Agent_Guarantee.thy ===== *)
theory Agent_Guarantee
  imports Agent_Threads
begin

text \<open>
  The goroutines of \<open>Run\<close>, one by one: all of them keep \<open>agent_guar\<close> under any
  interference. Routes are written in two places only, and both come after a Lease operation
  that answered \<open>true\<close>: the claim of the own AZ and the takeover of another.
\<close>

lemmas cloud_parts = cloud_ok_def [THEN iffD1]

lemma cloudD:
  assumes "cloud_ok E A c I V RV T"
  shows "EC2Client (rcfg E) = realEC2Client A c" and "NATManager (rcfg E) = iptablesManager I"
    and "lease_api_ok (leases E) V" and "leases_keep_routes (leases E) RV"
    and "ec2_shared_ok A (tagPrefix c) V RV T" and "iptables_silent I V RV"
    and "silent_fn V RV (node_get E n)" and "silent_fn V RV (list_pods E)" and "silent_fn V RV (read_file E f)"
    and "silent_fn V RV (peer_send E p m)" and "silent_fn V RV (read_lines E f)" and "silent_fn V RV (link_stats E l)"
  using assms unfolding cloud_ok_def by blast+

lemmas harmless_rules = agent_rg.harmless_Ret agent_rg.harmless_bind agent_rg.harmless_for_each
  harmless_locked harmless_local

lemma harmless_metric: "agent_rg.harmless V E RV T (metric f)"
  unfolding metric_def by (rule harmless_local) auto

lemma harmless_set_owned: "agent_rg.harmless V E RV T (set_owned k v)"
  unfolding set_owned_def by (rule harmless_metric)

lemma harmless_clear_owned: "agent_rg.harmless V E RV T (clear_owned ids)"
  unfolding clear_owned_def by (rule agent_rg.harmless_for_each) (rule harmless_set_owned)

lemma harmless_isDraining: "agent_rg.harmless V E RV T (isDraining E')"
  unfolding isDraining_def IsDraining_def by (auto intro: agent_rg.harmless_Ret harmless_local)

lemma harmless_outside:
  assumes "cloud_ok E A c I V RV T"
  shows "agent_rg.harmless V E RV T (out (LookupNatGateway (EC2Client (rcfg E)) vpc az))"
    and "agent_rg.harmless V E RV T (out (DiscoverRouteTables (EC2Client (rcfg E)) az))"
    and "agent_rg.harmless V E RV T (out (EnsureMasquerade (NATManager (rcfg E)) i))"
    and "agent_rg.harmless V E RV T (out (MasqueradeExists (NATManager (rcfg E)) i))"
    and "agent_rg.harmless V E RV T (out (EnableIPForward (NATManager (rcfg E))))"
    and "agent_rg.harmless V E RV T (out (EnsureStaleFlowReset (NATManager (rcfg E)) i))"
    and "agent_rg.harmless V E RV T (out (call (node_get E n)))"
    and "agent_rg.harmless V E RV T (out (call (list_pods E)))"
    and "agent_rg.harmless V E RV T (out (call (read_file E f)))"
    and "agent_rg.harmless V E RV T (out (call (peer_send E p m)))"
    and "agent_rg.harmless V E RV T (out (call (read_lines E f)))"
    and "agent_rg.harmless V E RV T (out (call (link_stats E l)))"
    and "agent_rg.harmless V E RV T (out (call (time_now (leases E))))"
proof -
  note C = cloudD(1) [OF assms] and M = cloudD(2) [OF assms]
  note ec2 = cloudD(5) [OF assms] and ipt = cloudD(6) [OF assms]
  show "agent_rg.harmless V E RV T (out (LookupNatGateway (EC2Client (rcfg E)) vpc az))"
    unfolding C by (rule harmless_out [OF ec2_shared.lookup_steps [OF ec2]])
  show "agent_rg.harmless V E RV T (out (DiscoverRouteTables (EC2Client (rcfg E)) az))"
    unfolding C by (rule harmless_out [OF ec2_shared.discover_steps [OF ec2]])
  show "agent_rg.harmless V E RV T (out (EnsureMasquerade (NATManager (rcfg E)) i))"
    unfolding M by (rule harmless_out [OF nat_shared.masquerade_steps [OF ipt]])
  show "agent_rg.harmless V E RV T (out (MasqueradeExists (NATManager (rcfg E)) i))"
    unfolding M by (rule harmless_out [OF nat_shared.exists_steps [OF ipt]])
  show "agent_rg.harmless V E RV T (out (EnableIPForward (NATManager (rcfg E))))"
    unfolding M by (rule harmless_out [OF nat_shared.forward_steps [OF ipt]])
  show "agent_rg.harmless V E RV T (out (EnsureStaleFlowReset (NATManager (rcfg E)) i))"
    unfolding M by (rule harmless_out [OF nat_shared.reset_steps [OF ipt]])
  show "agent_rg.harmless V E RV T (out (call (node_get E n)))"
    by (rule harmless_out [OF silent_call [OF cloudD(7) [OF assms]]])
  show "agent_rg.harmless V E RV T (out (call (list_pods E)))"
    by (rule harmless_out [OF silent_call [OF cloudD(8) [OF assms]]])
  show "agent_rg.harmless V E RV T (out (call (read_file E f)))"
    by (rule harmless_out [OF silent_call [OF cloudD(9) [OF assms]]])
  show "agent_rg.harmless V E RV T (out (call (peer_send E p m)))"
    by (rule harmless_out [OF silent_call [OF cloudD(10) [OF assms]]])
  show "agent_rg.harmless V E RV T (out (call (read_lines E f)))"
    by (rule harmless_out [OF silent_call [OF cloudD(11) [OF assms]]])
  show "agent_rg.harmless V E RV T (out (call (link_stats E l)))"
    by (rule harmless_out [OF silent_call [OF cloudD(12) [OF assms]]])
  have "silent_fn V RV (time_now (leases E))"
    using cloudD(3,4) [OF assms] time_now_spec [of "leases E" V]
    by (auto simp: silent_fn_def silent_def leases_keep_routes_def keeps_routes_def)
  then show "agent_rg.harmless V E RV T (out (call (time_now (leases E))))"
    by (intro harmless_out [OF silent_call])
qed

section \<open>The silent parts\<close>

lemma harmless_cache:
  assumes "cloud_ok E A c I V RV T"
  shows "agent_rg.harmless V E RV T (cacheFallbackTargets (rcfg E) rts)"
  unfolding cacheFallbackTargets_def cache_one_def
  by (auto intro!: harmless_rules harmless_outside [OF assms] split: option.split sum.split)

lemma harmless_SetupDataPlane:
  assumes "cloud_ok E A c I V RV T"
  shows "agent_rg.harmless V E RV T (SetupDataPlane (rcfg E))"
  unfolding SetupDataPlane_def
  by (auto intro!: harmless_rules harmless_outside [OF assms] split: option.split)

lemma harmless_vacate_loop: "agent_rg.harmless V E RV T (vacate_loop cfg foreign vac rts)"
  by (induction rts arbitrary: vac) (auto intro: harmless_rules)

lemma harmless_foreign_loop:
  assumes "cloud_ok E A c I V RV T"
  shows "agent_rg.harmless V E RV T (foreign_loop (rcfg E) foreign vac azs)"
  by (induction azs arbitrary: vac)
    (auto intro!: harmless_rules harmless_outside [OF assms] harmless_vacate_loop split: sum.split)

lemma harmless_ReconcileForeign:
  assumes "cloud_ok E A c I V RV T"
  shows "agent_rg.harmless V E RV T (ReconcileForeign (rcfg E) ko)"
  unfolding ReconcileForeign_def
  by (auto intro!: harmless_rules harmless_foreign_loop [OF assms])

lemma harmless_updateMetrics:
  assumes "cloud_ok E A c I V RV T"
  shows "agent_rg.harmless V E RV T (updateMetrics E)"
  unfolding updateMetrics_def conntrackStats_def OwnedTables_def CanFallbackToNAT_def
  by (auto intro!: harmless_rules harmless_metric harmless_set_owned harmless_outside [OF assms]
      split: sum.split)

lemma harmless_discover:
  assumes "cloud_ok E A c I V RV T"
  shows "agent_rg.harmless V E RV T (discover E)"
  unfolding discover_def discover_pod_def mark_connected_def Let_def forget_stale_def
  by (auto intro!: harmless_rules harmless_metric harmless_outside [OF assms] split: sum.split if_splits)

section \<open>Lease operations\<close>

lemma triple_Renew:
  assumes "cloud_ok E A c I V RV T"
  shows "triple (agent_rely V) (agent_step E V RV T) (stored_wf V) (\<lambda>_. True)
    (out (Renew (leases E) (leaseMgr E) az (podName E)))
    (\<lambda>r w. outcome V (lease_key_of E az) (podName E) r (outside w))"
proof (rule triple_lease)
  fix e assume "kstore_wf (V e)"
  from safe_Renew [OF cloudD(3) [OF assms] takeover_policy_ok this]
  show "safe (lease_rely V) (lease_part E V) (outcome V (lease_key_of E az) (podName E))
      (Renew (leases E) (leaseMgr E) az (podName E)) e"
    by (simp add: lease_part_def lease_key_of_def pol_of_def)
qed (rule Renew_keeps_routes [OF cloudD(4) [OF assms]])

lemma triple_Acquire:
  assumes "cloud_ok E A c I V RV T"
  shows "triple (agent_rely V) (agent_step E V RV T) (stored_wf V) (\<lambda>_. True)
    (out (Acquire (leases E) (leaseMgr E) az (podName E)))
    (\<lambda>r w. outcome V (lease_key_of E az) (podName E) r (outside w))"
proof (rule triple_lease)
  fix e assume "kstore_wf (V e)"
  from safe_Acquire [OF cloudD(3) [OF assms] this]
  show "safe (lease_rely V) (lease_part E V) (outcome V (lease_key_of E az) (podName E))
      (Acquire (leases E) (leaseMgr E) az (podName E)) e"
    by (simp add: lease_part_def lease_key_of_def pol_of_def)
qed (rule Acquire_keeps_routes [OF cloudD(4) [OF assms]])

lemma harmless_Release:
  assumes "cloud_ok E A c I V RV T"
  shows "agent_rg.harmless V E RV T (out (Release (leases E) (leaseMgr E) az (podName E)))"
proof (rule agent_rg.harmless_triple [OF triple_lease])
  fix e assume "kstore_wf (V e)"
  from safe_Release [OF cloudD(3) [OF assms] this]
  show "safe (lease_rely V) (lease_part E V) (\<lambda>_ _. True) (Release (leases E) (leaseMgr E) az (podName E)) e"
    by (simp add: lease_part_def)
qed (simp_all add: Release_keeps_routes [OF cloudD(4) [OF assms]])

lemma harmless_ListExpiredAZs:
  assumes "cloud_ok E A c I V RV T"
  shows "agent_rg.harmless V E RV T (out (ListExpiredAZs (leases E) (leaseMgr E) az))"
proof (rule agent_rg.harmless_triple [OF triple_lease])
  fix e assume "kstore_wf (V e)"
  from safe_ListExpiredAZs [OF cloudD(3) [OF assms] this]
  show "safe (lease_rely V) (lease_part E V) (\<lambda>_ _. True) (ListExpiredAZs (leases E) (leaseMgr E) az) e"
    by (simp add: lease_part_def)
qed (simp_all add: ListExpiredAZs_keeps_routes [OF cloudD(4) [OF assms]])

lemma harmless_Renew:
  "cloud_ok E A c I V RV T \<Longrightarrow>
   agent_rg.harmless V E RV T (out (Renew (leases E) (leaseMgr E) az (podName E)))"
  by (rule agent_rg.harmless_triple [OF triple_Renew]) simp_all

text \<open>\<open>ensureOwnLease\<close> answers \<open>true\<close> only when the agent has held its AZ's Lease.\<close>

lemma outcome_served: "outcome V (lease_key_of E az) (podName E) r e \<Longrightarrow> fst r \<Longrightarrow> served E V az e"
  by (simp add: outcome_def served_def)

lemma outcome_won: "outcome V (lease_key_of E az) (podName E) (True, err) e \<Longrightarrow> served E V az e"
  by (simp add: outcome_served)

lemma triple_Ret_served:
  assumes "\<And>w. P w \<Longrightarrow> b \<Longrightarrow> served E V az (outside w)"
  shows "triple (agent_rely V) (agent_step E V RV T) (stored_wf V) P (Ret (Inr b))
    (\<lambda>r w. r = Inr True \<longrightarrow> served E V az (outside w))"
  by (rule agent_rg.triple_Ret) (use assms in \<open>auto intro: stable_if stable_served\<close>)

lemma triple_Ret_error:
  "triple (agent_rely V) (agent_step E V RV T) (stored_wf V) P (Ret (Inl e))
    (\<lambda>r w. r = Inr True \<longrightarrow> served E V az (outside w))"
  by (rule agent_rg.triple_Ret) (auto intro: stable_True)

lemma triple_acquireOwnLease:
  assumes "cloud_ok E A c I V RV T"
  shows "triple (agent_rely V) (agent_step E V RV T) (stored_wf V) (\<lambda>_. True) (acquireOwnLease E)
    (\<lambda>r w. r = Inr True \<longrightarrow> served E V (az_of E) (outside w))"
  unfolding acquireOwnLease_def
  by (rule agent_rg.triple_bind [OF triple_Acquire [OF assms]])
    (auto intro!: triple_Ret_served triple_Ret_error dest: outcome_served split: option.split prod.split)

lemma triple_ensureOwnLease:
  assumes "cloud_ok E A c I V RV T"
  shows "triple (agent_rely V) (agent_step E V RV T) (stored_wf V) (\<lambda>_. True) (ensureOwnLease E)
    (\<lambda>r w. r = Inr True \<longrightarrow> served E V (az_of E) (outside w))"
  unfolding ensureOwnLease_def
  by (rule agent_rg.triple_bind [OF triple_Renew [OF assms]])
    (auto intro!: triple_Ret_served dest: outcome_served split: prod.split
      intro: agent_rg.triple_pre [OF triple_acquireOwnLease [OF assms]])

section \<open>Claims\<close>

lemma triple_claim_served:
  assumes "cloud_ok E A c I V RV T" and "T k = az"
  shows "triple (agent_rely V) (agent_step E V RV T) (stored_wf V) (\<lambda>w. served E V az (outside w))
    (out (ClaimRouteTable (EC2Client (rcfg E)) k (cfg_InstanceID (rcfg E))))
    (\<lambda>_ w. served E V az (outside w))"
proof -
  have "anyhow (route_step V RV k (ToInstance (cfg_InstanceID (rcfg E)))) (\<lambda>_. True)
      (ClaimRouteTable (EC2Client (rcfg E)) k (cfg_InstanceID (rcfg E)))"
    using ec2_shared.claim_steps [OF cloudD(5) [OF assms(1)]] by (simp add: cloudD(1) [OF assms(1)])
  from triple_claim [OF this, where T = T] show ?thesis by (simp add: assms(2))
qed

lemma triple_claim_own_loop:
  assumes cloud: "cloud_ok E A c I V RV T" and "\<And>rt. rt \<in> set rts \<Longrightarrow> T (ID rt) = az_of E"
  shows "triple (agent_rely V) (agent_step E V RV T) (stored_wf V) (\<lambda>w. served E V (az_of E) (outside w))
    (claim_own_loop (rcfg E) conf rts) (\<lambda>_ w. served E V (az_of E) (outside w))"
  using assms(2)
proof (induction rts arbitrary: conf)
  case Nil
  then show ?case by (simp add: agent_rg.triple_Ret stable_served)
next
  case (Cons rt rts)
  have T: "T (ID rt) = az_of E" by (simp add: Cons.prems)
  note IH = Cons.IH [OF Cons.prems [OF list.set_intros(2)]]
  show ?case
    unfolding claim_own_loop.simps
    by (auto intro!: IH agent_rg.triple_bind [OF triple_claim_served [OF cloud T]] agent_rg.triple_Ret
        stable_served split: option.split)
qed

lemma triple_discover:
  assumes "cloud_ok E A c I V RV T"
  shows "triple (agent_rely V) (agent_step E V RV T) (stored_wf V) (\<lambda>w. served E V az' (outside w))
    (out (DiscoverRouteTables (EC2Client (rcfg E)) az))
    (\<lambda>d w. served E V az' (outside w) \<and> (\<forall>ts rt. d = Inr ts \<longrightarrow> rt \<in> set ts \<longrightarrow> T (ID rt) = az))"
  using agent_rg.triple_frame [OF triple_out_result [OF ec2_shared.discover_steps [OF cloudD(5) [OF assms]]]
      stable_served]
  by (simp add: cloudD(1) [OF assms])

lemma triple_claim_discovered:
  assumes "cloud_ok E A c I V RV T"
  shows "triple (agent_rely V) (agent_step E V RV T) (stored_wf V)
    (\<lambda>w. served E V (az_of E) (outside w) \<and> (\<forall>rt \<in> set rts. T (ID rt) = az_of E))
    (claim_discovered (rcfg E) rts) (\<lambda>_ _. True)"
proof (cases "\<forall>rt \<in> set rts. T (ID rt) = az_of E")
  case True
  then have T: "T (ID rt) = az_of E" if "rt \<in> set rts" for rt using that by simp
  show ?thesis
    unfolding claim_discovered_def
    by (rule agent_rg.triple_bind [OF agent_rg.triple_pre [OF triple_claim_own_loop [OF assms T]]])
      (auto intro!: agent_rg.harmless_any harmless_rules harmless_cache [OF assms] split: sum.split)
next
  case False
  then show ?thesis unfolding triple_def by blast
qed

lemma triple_ClaimOwnRouteTables:
  assumes cloud: "cloud_ok E A c I V RV T"
  shows "triple (agent_rely V) (agent_step E V RV T) (stored_wf V) (\<lambda>w. served E V (az_of E) (outside w))
    (ClaimOwnRouteTables (rcfg E)) (\<lambda>_ _. True)"
  unfolding ClaimOwnRouteTables_def
  by (rule agent_rg.triple_bind [OF triple_discover [OF cloud]])
    (auto intro!: agent_rg.harmless_any [OF agent_rg.harmless_Ret]
      agent_rg.triple_pre [OF triple_claim_discovered [OF cloud]] simp: az_of_def split: sum.split)

end
