(* ===== verification/Agent_Cluster.thy ===== *)
theory Agent_Cluster
  imports Agent_Guarantee
begin

text \<open>
  The remaining goroutines of an agent, and the cluster they form: any number of agents, each
  running any number of threads, interleaved action by action on one shared world.
\<close>

section \<open>Serving, renewing, taking over\<close>

lemma harmless_acquire_then:
  assumes "triple (agent_rely V) (agent_step E V RV T) (stored_wf V) (\<lambda>_. True) p
      (\<lambda>r w. r = Inr True \<longrightarrow> served E V az (outside w))"
    and "\<And>b. b \<noteq> Inr True \<Longrightarrow> agent_rg.harmless V E RV T (k b)"
    and "triple (agent_rely V) (agent_step E V RV T) (stored_wf V) (\<lambda>w. served E V az (outside w))
      (k (Inr True)) (\<lambda>_ _. True)"
  shows "agent_rg.harmless V E RV T (bind p k)"
proof (rule agent_rg.harmless_then [OF assms(1)])
  fix a
  show "triple (agent_rely V) (agent_step E V RV T) (stored_wf V)
      (\<lambda>w. a = Inr True \<longrightarrow> served E V az (outside w)) (k a) (\<lambda>_ _. True)"
    by (cases "a = Inr True") (auto intro: assms(3) agent_rg.harmless_any [OF assms(2)])
qed

lemma harmless_serveOwnAZ:
  assumes "cloud_ok E A c I V RV T"
  shows "agent_rg.harmless V E RV T (serveOwnAZ E)"
  unfolding serveOwnAZ_def
  by (rule harmless_acquire_then [OF triple_ensureOwnLease [OF assms]])
    (auto intro!: harmless_rules agent_rg.triple_bind [OF triple_ClaimOwnRouteTables [OF assms]]
      agent_rg.harmless_any [OF agent_rg.harmless_Ret] split: sum.split bool.split)

lemma harmless_renewOwnLease:
  assumes "cloud_ok E A c I V RV T"
  shows "agent_rg.harmless V E RV T (renewOwnLease E)"
  unfolding renewOwnLease_def OwnClaimPending_def
  by (rule harmless_acquire_then [OF triple_ensureOwnLease [OF assms]])
    (auto intro!: harmless_rules agent_rg.triple_after [OF harmless_locked stable_served]
      agent_rg.triple_bind [OF triple_ClaimOwnRouteTables [OF assms]]
      agent_rg.harmless_any [OF agent_rg.harmless_Ret] split: sum.split bool.split)

lemma triple_takeover_loop:
  assumes cloud: "cloud_ok E A c I V RV T" and "\<And>rt. rt \<in> set rts \<Longrightarrow> T (ID rt) = az"
  shows "triple (agent_rely V) (agent_step E V RV T) (stored_wf V) (\<lambda>w. served E V az (outside w))
    (takeover_loop E claimed rts) (\<lambda>_ _. True)"
  using assms(2)
proof (induction rts arbitrary: claimed)
  case Nil
  then show ?case by (simp add: agent_rg.triple_Ret stable_True)
next
  case (Cons rt rts)
  have T: "T (ID rt) = az" by (simp add: Cons.prems)
  note IH = Cons.IH [OF Cons.prems [OF list.set_intros(2)]]
  show ?case
    unfolding takeover_loop.simps
    by (auto intro!: IH agent_rg.triple_bind [OF triple_claim_served [OF cloud T]]
        agent_rg.triple_after [OF harmless_set_owned stable_served] split: option.split)
qed

lemma triple_takeover_tail:
  assumes cloud: "cloud_ok E A c I V RV T"
  shows "triple (agent_rely V) (agent_step E V RV T) (stored_wf V)
    (\<lambda>w. served E V az (outside w) \<and> (\<forall>rt \<in> set rts. T (ID rt) = az)) (takeover_tail E az rts) (\<lambda>_ _. True)"
proof (cases "\<forall>rt \<in> set rts. T (ID rt) = az")
  case True
  then have T: "T (ID rt) = az" if "rt \<in> set rts" for rt using that by simp
  show ?thesis
    unfolding takeover_tail_def AddForeignTables_def count_failover_def
    by (rule agent_rg.triple_bind [OF agent_rg.triple_pre [OF triple_takeover_loop [OF cloud T]]])
      (auto intro!: agent_rg.harmless_any harmless_rules harmless_metric harmless_outside [OF cloud])
next
  case False
  then show ?thesis unfolding triple_def by blast
qed

lemma harmless_takeover:
  assumes cloud: "cloud_ok E A c I V RV T"
  shows "agent_rg.harmless V E RV T (takeover E az)"
proof -
  let ?tail = "\<lambda>r. case r of Inl _ \<Rightarrow> Ret () | Inr tables \<Rightarrow> takeover_tail E az tables"
  let ?disc = "out (DiscoverRouteTables (EC2Client (rcfg E)) az)"
  have tail: "triple (agent_rely V) (agent_step E V RV T) (stored_wf V) (\<lambda>w. served E V az (outside w))
      (bind ?disc ?tail) (\<lambda>_ _. True)"
    by (rule agent_rg.triple_bind [OF triple_discover [OF cloud]])
      (auto intro!: agent_rg.harmless_any [OF agent_rg.harmless_Ret]
        agent_rg.triple_pre [OF triple_takeover_tail [OF cloud]] split: sum.split)
  show ?thesis
    unfolding takeover_def
    by (auto intro!: harmless_rules harmless_isDraining
        agent_rg.harmless_then [OF triple_Acquire [OF cloud]] agent_rg.triple_pre [OF tail]
        agent_rg.harmless_any [OF agent_rg.harmless_Ret] split: option.split)
      (erule outcome_won)
qed

section \<open>The goroutines\<close>

lemma harmless_firstService:
  assumes "cloud_ok E A c I V RV T"
  shows "agent_rg.harmless V E RV T (firstService E)"
  unfolding firstService_def set_standby_def
  by (auto intro!: harmless_rules harmless_isDraining harmless_serveOwnAZ [OF assms] harmless_metric)

lemma harmless_leaseTick:
  assumes "cloud_ok E A c I V RV T"
  shows "agent_rg.harmless V E RV T (leaseTick E)"
  unfolding leaseTick_def ForeignAZs_def renewForeign_def ReleaseForeignAZ_def
  by (auto intro!: harmless_rules harmless_isDraining harmless_renewOwnLease [OF assms]
      harmless_clear_owned agent_rg.harmless_triple [OF triple_Renew [OF assms]] split: option.split)

lemma harmless_serveStep:
  assumes "cloud_ok E A c I V RV T"
  shows "agent_rg.harmless V E RV T (serveStep E)"
  unfolding serveStep_def DropOwnTables_def set_standby_def
  by (auto intro!: harmless_rules harmless_isDraining harmless_serveOwnAZ [OF assms]
      harmless_clear_owned harmless_metric)

lemma harmless_vacateStep:
  assumes "cloud_ok E A c I V RV T"
  shows "agent_rg.harmless V E RV T (vacateStep E)"
  unfolding vacateStep_def
  by (auto intro!: harmless_rules harmless_ReconcileForeign [OF assms] harmless_clear_owned split: sum.split)

lemma harmless_sweepStep:
  assumes "cloud_ok E A c I V RV T"
  shows "agent_rg.harmless V E RV T (sweepStep E)"
  unfolding sweepStep_def coverExpired_def CoversAZ_def
  by (auto intro!: harmless_rules harmless_isDraining harmless_ListExpiredAZs [OF assms]
      harmless_takeover [OF assms] split: sum.split)

lemma harmless_set_ready: "agent_rg.harmless V E RV T (set_ready b)"
  unfolding set_ready_def by (rule harmless_local) auto

lemma harmless_reconcileTick:
  assumes "cloud_ok E A c I V RV T"
  shows "agent_rg.harmless V E RV T (reconcileTick E)"
  unfolding reconcileTick_def
  by (auto intro!: harmless_rules harmless_SetupDataPlane [OF assms] harmless_set_ready
      harmless_serveStep [OF assms] harmless_vacateStep [OF assms] harmless_sweepStep [OF assms]
      harmless_updateMetrics [OF assms] split: option.split)

lemma harmless_drainTick:
  assumes "cloud_ok E A c I V RV T"
  shows "agent_rg.harmless V E RV T (drainTick E)"
  unfolding drainTick_def drain_check_def onDrain_def IsDraining_def set_draining_def
  by (auto intro!: harmless_rules harmless_outside [OF assms] harmless_Release [OF assms] harmless_local split: sum.split)

lemma harmless_shutdown:
  assumes "cloud_ok E A c I V RV T"
  shows "agent_rg.harmless V E RV T (shutdown E)"
  unfolding shutdown_def ForeignAZs_def stepDownPeer_def
  by (auto intro!: harmless_rules harmless_local harmless_outside [OF assms] harmless_set_ready harmless_Release [OF assms])

lemma harmless_peerSession:
  assumes "cloud_ok E A c I V RV T"
  shows "agent_rg.harmless V E RV T (peerSession E pf az inst as)"
  unfolding peerSession_def peerFailure_def peerStepDown_def forget_peer_def
  by (auto intro!: harmless_rules harmless_metric harmless_takeover [OF assms] split: option.split connect_result.split)

lemma harmless_sampleTick:
  assumes "cloud_ok E A c I V RV T"
  shows "agent_rg.harmless V E RV T (sampleTick E s now)"
  unfolding sampleTick_def set_rates_def set_memory_def Let_def
  by (auto intro!: harmless_rules harmless_metric harmless_outside [OF assms] split: go_outcome.split sum.split)

lemma harmless_sampleTicks:
  assumes "cloud_ok E A c I V RV T"
  shows "agent_rg.harmless V E RV T (sampleTicks E s ts)"
  by (induction ts arbitrary: s)
    (auto intro!: harmless_rules harmless_sampleTick [OF assms] split: go_outcome.split)

lemma harmless_sampler:
  assumes "cloud_ok E A c I V RV T"
  shows "agent_rg.harmless V E RV T (sampler E ts)"
  unfolding sampler_def
  by (auto intro!: harmless_rules harmless_sampleTicks [OF assms] harmless_outside [OF assms]
      split: go_outcome.split sum.split)

section \<open>The cluster\<close>

text \<open>
  The agents of a cluster share the outside world and nothing else. A thread of an agent is
  any finite sequence of its goroutines' bodies, with clients for peers of other AZs (those are
  the ones discovery starts); \<open>on_agent\<close> places it on the shared world.
\<close>

type_synonym ('i, 'e) cluster = "('i \<Rightarrow> 'e agentw) \<times> 'e"

definition agent_view :: "'i \<Rightarrow> ('i, 'e) cluster \<Rightarrow> 'e agentw" where
  "agent_view i c = (fst c i)\<lparr>outside := snd c\<rparr>"

definition agent_put :: "'i \<Rightarrow> 'e agentw \<Rightarrow> ('i, 'e) cluster \<Rightarrow> ('i, 'e) cluster" where
  "agent_put i w c = ((fst c)(i := w), outside w)"

definition on_agent :: "'i \<Rightarrow> ('e agentw, 'a) prog \<Rightarrow> (('i, 'e) cluster, 'a) prog" where
  "on_agent i = zoom (agent_view i) (agent_put i)"

inductive goroutine :: "'e agent_env \<Rightarrow> ('e agentw, unit) prog \<Rightarrow> bool" for E :: "'e agent_env" where
  idle: "goroutine E (Ret ())"
| starting: "goroutine E p \<Longrightarrow> goroutine E (bind (firstService E) (\<lambda>_. p))"
| lease_loop: "goroutine E p \<Longrightarrow> goroutine E (bind (leaseTick E) (\<lambda>_. p))"
| reconcile_loop: "goroutine E p \<Longrightarrow> goroutine E (bind (reconcileTick E) (\<lambda>_. p))"
| drain_loop: "goroutine E p \<Longrightarrow> goroutine E (bind (drainTick E) (\<lambda>_. p))"
| peer_discovery: "goroutine E p \<Longrightarrow> goroutine E (bind (discover E) (\<lambda>_. p))"
| sampling: "goroutine E p \<Longrightarrow> goroutine E (bind (sampler E ts) (\<lambda>_. p))"
| peer_client: "az \<noteq> az_of E \<Longrightarrow> goroutine E p \<Longrightarrow> goroutine E (bind (peerSession E pf az inst as) (\<lambda>_. p))"
| spot_notice: "goroutine E p \<Longrightarrow> goroutine E (bind onSpotNotice (\<lambda>_. p))"
| stopping: "goroutine E (shutdown E)"

lemma harmless_goroutine:
  assumes "cloud_ok E A c I V RV T" and "goroutine E p"
  shows "agent_rg.harmless V E RV T p"
  using assms(2)
  by (induction rule: goroutine.induct)
    (auto intro!: agent_rg.harmless_bind agent_rg.harmless_Ret harmless_metric
      harmless_firstService [OF assms(1)] harmless_leaseTick [OF assms(1)] harmless_reconcileTick [OF assms(1)] harmless_drainTick [OF assms(1)]
      harmless_discover [OF assms(1)] harmless_peerSession [OF assms(1)] harmless_sampler [OF assms(1)] harmless_shutdown [OF assms(1)]
      simp: onSpotNotice_def)

text \<open>The threads of a cluster: thread \<open>t\<close> of agent \<open>i\<close> runs \<open>P (i, t)\<close>.\<close>

definition agent_threads ::
  "('i \<Rightarrow> 'e agent_env) \<Rightarrow> ('i \<times> 't \<Rightarrow> ('e agentw, unit) prog) \<Rightarrow>
   ('i \<times> 't \<Rightarrow> (('i, 'e) cluster, unit) prog)" where
  "agent_threads E P = (\<lambda>(i, t). on_agent i (P (i, t)))"

text \<open>
  Threads that each keep their agent's guarantee keep it together, whatever the guarantees are,
  as long as they respect the rely.
\<close>

locale cluster_laws =
  fixes V :: "'e \<Rightarrow> kstore" and G :: "'i \<Rightarrow> 'e \<Rightarrow> 'e \<Rightarrow> bool"
  assumes G_rely: "G i e e' \<Longrightarrow> lease_rely V e e'"
begin

definition keeps_guar :: "'i \<Rightarrow> ('e agentw, unit) prog \<Rightarrow> bool" where
  "keeps_guar i p \<longleftrightarrow> triple (agent_rely V) (\<lambda>w w'. G i (outside w) (outside w')) (stored_wf V)
     (\<lambda>_. True) p (\<lambda>_ _. True)"

lemma safe_on_agent:
  assumes "keeps_guar i p" and "kstore_wf (V (snd c))"
  shows "safe (\<lambda>x y. lease_rely V (snd x) (snd y)) (\<lambda>x y. G i (snd x) (snd y))
    (\<lambda>_ x. kstore_wf (V (snd x))) (on_agent i p) c"
proof -
  have "safe (agent_rely V) (\<lambda>w w'. G i (outside w) (outside w')) (\<lambda>_ w. stored_wf V w \<and> True) p (agent_view i c)"
    using assms by (simp add: keeps_guar_def triple_def stored_wf_def agent_view_def)
  then have "safe (\<lambda>x y. lease_rely V (snd x) (snd y)) (\<lambda>x y. G i (snd x) (snd y))
      (\<lambda>_ x. stored_wf V (agent_view i x) \<and> True) (on_agent i p) c"
    unfolding on_agent_def
    by (rule safe_zoom) (auto simp: agent_view_def agent_put_def agent_rely_def)
  then show ?thesis
    by (rule safe_weaken) (simp add: stored_wf_def agent_view_def)
qed

lemma interleaved_step:
  assumes keep: "\<And>i t. keeps_guar i (P (i, t))" and wf: "kstore_wf (V (snd x0))"
    and reach: "par_reach (agent_threads E P, x0) s" and step: "par_step s (i, t) s'"
  shows "G i (snd (snd s)) (snd (snd s'))"
proof -
  let ?R = "\<lambda>_ x y. lease_rely V (snd x) (snd y)"
  let ?G = "\<lambda>(i, t) x y. G i (snd x) (snd y)"
  let ?Q = "\<lambda>_ _ x. kstore_wf (V (snd x))"
  have init: "all_safe ?R ?G ?Q (agent_threads E P, x0)"
    using safe_on_agent [OF keep wf] by (auto simp: all_safe_def agent_threads_def)
  have inv: "all_safe ?R ?G ?Q s"
    by (rule par_reach_safe [OF reach init]) (auto intro: lease_rely_trans G_rely)
  have "?G (i, t) (snd s) (snd s')"
    by (rule par_step_safe [THEN conjunct1, OF inv step]) (auto intro: lease_rely_trans G_rely)
  then show ?thesis by simp
qed

text \<open>What holds of every step of the threads holds along every interleaving.\<close>

lemma interleaved_reach:
  assumes keep: "\<And>i t. keeps_guar i (P (i, t))" and wf: "kstore_wf (V (snd x0))"
    and reach: "par_reach (agent_threads E P, x0) s" and base: "J (snd x0)"
    and pres: "\<And>i e e'. kstore_wf (V e) \<Longrightarrow> J e \<Longrightarrow> G i e e' \<Longrightarrow> J e'"
  shows "kstore_wf (V (snd (snd s))) \<and> J (snd (snd s))"
  using reach
proof (induction "(agent_threads E P, x0)" s rule: par_reach.induct)
  case par_refl
  then show ?case using wf base by simp
next
  case (par_trans d it e)
  obtain i t where it: "it = (i, t)" by fastforce
  have g: "G i (snd (snd d)) (snd (snd e))"
    by (rule interleaved_step [OF keep wf par_trans.hyps(1)]) (use par_trans.hyps(3) it in auto)
  with par_trans.hyps(2) pres rely_wf [OF G_rely [OF g]] show ?case by blast
qed

end

interpretation cluster: cluster_laws V "\<lambda>i. agent_guar (E i) V RV T"
  for E :: "'i \<Rightarrow> 'e agent_env" and V :: "'e \<Rightarrow> kstore" and RV and T
  by unfold_locales (rule agent_guar_rely)

lemma goroutine_keeps_guar:
  fixes E :: "'i \<Rightarrow> 'e agent_env"
  assumes "cloud_ok (E i) A c I V RV T" and "goroutine (E i) p"
  shows "cluster.keeps_guar V E RV T i p"
  using harmless_goroutine [OF assms]
  unfolding agent_rg.harmless_def unfolding cluster.keeps_guar_def agent_step_def [abs_def] .

lemma cluster_step:
  fixes E :: "'i \<Rightarrow> 'e agent_env"
  assumes "\<And>i. cloud_ok (E i) (A i) (c i) (I i) V RV T" and "\<And>i t. goroutine (E i) (P (i, t))"
    and "kstore_wf (V (snd x0))"
    and "par_reach (agent_threads E P, x0) s" and "par_step s (i, t) s'"
  shows "agent_guar (E i) V RV T (snd (snd s)) (snd (snd s'))"
proof (rule cluster.interleaved_step [where E = E and P = P and Ea = E and V = V, OF _ assms(3-5)])
  show "cluster.keeps_guar V E RV T i (P (i, t))" for i t
    by (rule goroutine_keeps_guar) (rule assms)+
qed

lemma cluster_reach:
  fixes E :: "'i \<Rightarrow> 'e agent_env"
  assumes "\<And>i. cloud_ok (E i) (A i) (c i) (I i) V RV T" and "\<And>i t. goroutine (E i) (P (i, t))"
    and "kstore_wf (V (snd x0))"
    and "par_reach (agent_threads E P, x0) s"
    and "J (snd x0)"
    and "\<And>i e e'. kstore_wf (V e) \<Longrightarrow> J e \<Longrightarrow> agent_guar (E i) V RV T e e' \<Longrightarrow> J e'"
  shows "kstore_wf (V (snd (snd s))) \<and> J (snd (snd s))"
proof (rule cluster.interleaved_reach [where E = E and P = P and Ea = E and V = V and J = J, OF _ assms(3-6)])
  show "cluster.keeps_guar V E RV T i (P (i, t))" for i t
    by (rule goroutine_keeps_guar) (rule assms)+
qed

end
