(* ===== verification/Reconciler_Function.thy ===== *)
theory Reconciler_Function
  imports Reconciler "HOL-Library.List_Lexorder" "HOL-Library.Char_ord"
begin

text \<open>
  What the reconciler's operations do when nobody interferes: which routes they change, what
  they remember, and what an error leaves. The lemmas about routes are proved once from the
  contract of the EC2 client, those about the data plane from that of the NAT manager.
\<close>

section \<open>Foreign tables\<close>

lemma add_foreign_at:
  "foreignOwnedTables (add_foreign az ids s) k =
   (if k \<in> set ids then Some az else foreignOwnedTables s k)"
proof -
  have "fold (\<lambda>id m. m(id \<mapsto> az)) ids m k = (if k \<in> set ids then Some az else m k)" for m
    by (induction ids arbitrary: m) auto
  then show ?thesis by (simp add: add_foreign_def)
qed

lemma covers_iff: "covers az s \<longleftrightarrow> (\<exists>id. foreignOwnedTables s id = Some az)"
  by (auto simp: covers_def ran_def)

lemma release_foreign_spec:
  assumes "lists_keys ko" and "finite (dom (foreignOwnedTables s))"
    and "release_foreign ko az s = (ids, s')"
  shows "set ids = {id. foreignOwnedTables s id = Some az} \<and>
    foreignOwnedTables s' k = (if foreignOwnedTables s k = Some az then None else foreignOwnedTables s k)"
proof -
  have "set ids = {id. foreignOwnedTables s id = Some az}"
    using assms(3) lists_keysD [OF assms(1,2)] by (auto simp: release_foreign_def Let_def)
  moreover have "foreignOwnedTables s' = foreignOwnedTables s |` (- set ids)"
    using assms(3) by (auto simp: release_foreign_def Let_def)
  ultimately show ?thesis by (auto simp: restrict_map_def)
qed

section \<open>Routes that turn towards one instance\<close>

text \<open>Every change between two views of the routes points a table of \<open>K\<close> at the instance.\<close>

definition toward :: "string \<Rightarrow> string set \<Rightarrow> routes \<Rightarrow> routes \<Rightarrow> bool" where
  "toward i K R R' \<longleftrightarrow> (\<forall>k. R' k = R k \<or> k \<in> K \<and> R' k = Some (ToInstance i))"

lemma toward_refl [simp]: "toward i K R R"
  by (simp add: toward_def)

lemma toward_trans: "toward i K R R' \<Longrightarrow> toward i K R' R'' \<Longrightarrow> toward i K R R''"
  unfolding toward_def by metis

lemma toward_mono: "toward i K R R' \<Longrightarrow> K \<subseteq> K' \<Longrightarrow> toward i K' R R'"
  unfolding toward_def by blast

lemma toward_keeps: "toward i K R R' \<Longrightarrow> R k = Some (ToInstance i) \<Longrightarrow> R' k = Some (ToInstance i)"
  unfolding toward_def by metis

lemma route_write_toward: "route_write k (ToInstance i) r R R' \<Longrightarrow> k \<in> K \<Longrightarrow> toward i K R R'"
  by (cases r) (auto simp: route_write_def toward_def split: if_splits)

lemma route_write_done: "route_write k t None R R' \<Longrightarrow> R' k = Some t"
  by (simp add: route_write_def)

text \<open>What the fallback cache leaves alone.\<close>

definition same_tables :: "rec_state \<Rightarrow> rec_state \<Rightarrow> bool" where
  "same_tables s s' \<longleftrightarrow>
     ownedTables s' = ownedTables s \<and> foreignOwnedTables s' = foreignOwnedTables s"

lemma cache_first_same: "cache_first rt s = (x, s') \<Longrightarrow> same_tables s s'"
  by (auto simp: cache_first_def note_vpc_def Let_def same_tables_def split: if_splits)

lemma cache_found_same: "same_tables s (cache_found rt gw s)"
  by (simp add: cache_found_def same_tables_def)

lemma same_tables_refl [simp]: "same_tables s s"
  by (simp add: same_tables_def)

lemma same_tables_trans: "same_tables s t \<Longrightarrow> same_tables t u \<Longrightarrow> same_tables s u"
  by (simp add: same_tables_def)

context ec2_laws
begin

lemma claim_step:
  assumes ok and "EC2Client cfg = C" and "run (out (ClaimRouteTable (EC2Client cfg) k i)) w = (r, w')"
  shows "rec_st w' = rec_st w \<and> route_write k (ToInstance i) r (RV (outside w)) (RV (outside w'))"
  using assms claim_writes [OF assms(1)] by (auto split: prod.splits)

lemma cache_one_keeps:
  assumes ok and "EC2Client cfg = C" and "run (cache_one cfg rt) w = (r, w')"
  shows "RV (outside w') = RV (outside w) \<and> same_tables (rec_st w) (rec_st w')"
proof -
  obtain vpc s where c: "cache_first rt (rec_st w) = (vpc, s)" by fastforce
  show ?thesis
  proof (cases vpc)
    case None
    with assms(3) c cache_first_same [OF c] show ?thesis by (auto simp: cache_one_def)
  next
    case (Some v)
    obtain l e1 where l: "run (LookupNatGateway C v (cfg_AZ cfg)) (outside w) = (l, e1)" by fastforce
    note keep = lookup_reads [OF assms(1) l]
    show ?thesis
    proof (cases l)
      case (Inl err)
      with Some assms(2,3) c l keep cache_first_same [OF c] show ?thesis by (auto simp: cache_one_def)
    next
      case (Inr gw)
      with Some assms(2,3) c l have "w' = w\<lparr>rec_st := cache_found rt gw s, outside := e1\<rparr>"
        by (auto simp: cache_one_def)
      with keep same_tables_trans [OF cache_first_same [OF c] cache_found_same] show ?thesis by simp
    qed
  qed
qed

lemma cache_keeps:
  assumes ok and "EC2Client cfg = C" and "run (cacheFallbackTargets cfg rts) w = (r, w')"
  shows "RV (outside w') = RV (outside w) \<and> same_tables (rec_st w) (rec_st w')"
proof -
  let ?I = "\<lambda>w'. RV (outside w') = RV (outside w) \<and> same_tables (rec_st w) (rec_st w')"
  have "?I (snd (run (for_each (cache_one cfg) rts) w))"
  proof (rule run_for_each_invariant)
    fix x v assume I: "?I v"
    obtain a v' where v: "run (cache_one cfg x) v = (a, v')" by (cases "run (cache_one cfg x) v")
    from cache_one_keeps [OF assms(1,2) v] I same_tables_trans show "?I (snd (run (cache_one cfg x) v))"
      by (auto simp: v)
  qed simp
  with assms(3) show ?thesis by (simp add: cacheFallbackTargets_def)
qed

lemma claim_own_loop_manual:
  assumes "cfg_Mode cfg = ''manual''"
  shows "run (claim_own_loop cfg conf rts) w = (Inr conf, w)"
  using assms by (induction rts arbitrary: conf) auto

lemma claim_own_loop_auto:
  assumes ok and "EC2Client cfg = C" and "cfg_Mode cfg \<noteq> ''manual''"
    and "\<And>rt. rt \<in> set rts \<Longrightarrow> InstanceID rt = cfg_InstanceID cfg \<Longrightarrow>
      RV (outside w) (ID rt) = Some (ToInstance (cfg_InstanceID cfg))"
    and "run (claim_own_loop cfg conf rts) w = (r, w')"
  shows "rec_st w' = rec_st w \<and>
    toward (cfg_InstanceID cfg) (ID ` set rts) (RV (outside w)) (RV (outside w')) \<and>
    (\<forall>ids. r = Inr ids \<longrightarrow> ids = conf @ map ID rts \<and>
      (\<forall>rt \<in> set rts. RV (outside w') (ID rt) = Some (ToInstance (cfg_InstanceID cfg))))"
  using assms(4,5)
proof (induction rts arbitrary: conf w)
  case (Cons rt rts)
  let ?me = "cfg_InstanceID cfg"
  show ?case
  proof (cases "InstanceID rt = ?me")
    case True
    with Cons.prems(2) assms(3) have run: "run (claim_own_loop cfg (conf @ [ID rt]) rts) w = (r, w')" by simp
    from Cons.IH [OF _ run] Cons.prems(1) have IH: "rec_st w' = rec_st w \<and>
        toward ?me (ID ` set rts) (RV (outside w)) (RV (outside w')) \<and>
        (\<forall>ids. r = Inr ids \<longrightarrow> ids = (conf @ [ID rt]) @ map ID rts \<and>
          (\<forall>rt \<in> set rts. RV (outside w') (ID rt) = Some (ToInstance ?me)))" by simp
    have "RV (outside w') (ID rt) = Some (ToInstance ?me)"
      using IH toward_keeps Cons.prems(1) [OF _ True] by (metis list.set_intros(1))
    with IH show ?thesis by (auto intro: toward_mono)
  next
    case False
    obtain e w1 where c: "run (out (ClaimRouteTable (EC2Client cfg) (ID rt) ?me)) w = (e, w1)" by fastforce
    note step = claim_step [OF assms(1,2) c]
    have t1: "toward ?me (ID ` set (rt # rts)) (RV (outside w)) (RV (outside w1))"
      using step by (auto intro: route_write_toward)
    show ?thesis
    proof (cases e)
      case (Some err)
      with False Cons.prems(2) assms(3) c have "r = Inl (Errorf ''claim route table '' (ID rt) err)" "w' = w1"
        by simp_all
      with step t1 show ?thesis by simp
    next
      case None
      with False Cons.prems(2) assms(3) c
      have run: "run (claim_own_loop cfg (conf @ [ID rt]) rts) w1 = (r, w')" by simp
      have "rec_st w' = rec_st w1 \<and> toward ?me (ID ` set rts) (RV (outside w1)) (RV (outside w')) \<and>
        (\<forall>ids. r = Inr ids \<longrightarrow> ids = (conf @ [ID rt]) @ map ID rts \<and>
          (\<forall>rt \<in> set rts. RV (outside w') (ID rt) = Some (ToInstance ?me)))"
        by (rule Cons.IH [OF _ run]) (use Cons.prems(1) toward_keeps [OF t1] in auto)
      moreover have "RV (outside w1) (ID rt) = Some (ToInstance ?me)"
        using step None by (auto dest: route_write_done)
      moreover have "toward ?me (ID ` set (rt # rts)) (RV (outside w)) (RV (outside w'))"
        by (rule toward_trans [OF t1 toward_mono]) (use calculation(1) in auto)
      ultimately show ?thesis
        using step toward_keeps [of ?me "ID ` set rts" "RV (outside w1)" "RV (outside w')" "ID rt"] by simp
    qed
  qed
qed auto

text \<open>\<open>ClaimOwnRouteTables\<close>, given what the discovery at its start returned.\<close>

lemma ClaimOwnRouteTables_run:
  assumes ok and "EC2Client cfg = C" and me: "cfg_InstanceID cfg \<noteq> ''''"
    and d: "run (DiscoverRouteTables C (cfg_AZ cfg)) (outside w) = (d, e1)"
    and run: "run (ClaimOwnRouteTables cfg) w = (r, w')"
  shows "toward (cfg_InstanceID cfg) {k. T k = cfg_AZ cfg} (RV (outside w)) (RV (outside w')) \<and>
    foreignOwnedTables (rec_st w') = foreignOwnedTables (rec_st w) \<and>
    (if cfg_Mode cfg = ''manual'' \<or> r \<noteq> None \<or> d = Inr []
     then ownedTables (rec_st w') = ownedTables (rec_st w) \<and>
       (cfg_Mode cfg = ''manual'' \<longrightarrow> RV (outside w') = RV (outside w))
     else \<exists>ts. d = Inr ts \<and> ownedTables (rec_st w') = map ID ts \<and>
       (\<forall>id \<in> set (ownedTables (rec_st w')). RV (outside w') id = Some (ToInstance (cfg_InstanceID cfg))))"
proof (cases "\<exists>rt rts. d = Inr (rt # rts)")
  case False
  then have nil: "ts = []" if "d = Inr ts" for ts using that by (cases ts) auto
  with assms(2) d run have w': "w' = w\<lparr>outside := e1\<rparr>" and r: "d \<noteq> Inr [] \<Longrightarrow> r \<noteq> None"
    by (auto simp: ClaimOwnRouteTables_def split: sum.splits)
  with discover_reads [OF assms(1) d] False show ?thesis by auto
next
  case True
  then obtain rt rts where dd: "d = Inr (rt # rts)" by blast
  let ?me = "cfg_InstanceID cfg" and ?ts = "rt # rts" and ?w1 = "w\<lparr>outside := e1\<rparr>"
  have reads: "RV e1 = RV (outside w)" and ent: "\<And>x. x \<in> set ?ts \<Longrightarrow> entry_of (RV (outside w)) T (cfg_AZ cfg) x"
    using discover_reads [OF assms(1) d] dd by blast+
  have tag: "T (ID x) = cfg_AZ cfg" if "x \<in> set ?ts" for x
    using ent [OF that] by (simp add: entry_of_def)
  then have tags: "ID ` set ?ts \<subseteq> {k. T k = cfg_AZ cfg}" by blast
  have mine: "RV (outside ?w1) (ID x) = Some (ToInstance ?me)" if "x \<in> set ?ts" "InstanceID x = ?me" for x
  proof -
    have "InstanceID x \<noteq> '''' \<longrightarrow> RV (outside w) (ID x) = Some (ToInstance (InstanceID x))"
      using ent [OF that(1)] unfolding entry_of_def by blast
    with that(2) me reads show ?thesis by simp
  qed
  obtain c w2 where l: "run (claim_own_loop cfg [] ?ts) ?w1 = (c, w2)" by fastforce
  have loop: "rec_st w2 = rec_st w \<and> toward ?me (ID ` set ?ts) (RV (outside w)) (RV (outside w2)) \<and>
      (cfg_Mode cfg = ''manual'' \<longrightarrow> RV (outside w2) = RV (outside w) \<and> c = Inr []) \<and>
      (cfg_Mode cfg \<noteq> ''manual'' \<longrightarrow> (\<forall>ids. c = Inr ids \<longrightarrow> ids = map ID ?ts \<and>
        (\<forall>x \<in> set ?ts. RV (outside w2) (ID x) = Some (ToInstance ?me))))"
  proof (cases "cfg_Mode cfg = ''manual''")
    case True
    with l claim_own_loop_manual [OF True, of "[]" ?ts ?w1] reads show ?thesis by auto
  next
    case False
    from claim_own_loop_auto [OF assms(1,2) False mine l] reads False show ?thesis by simp
  qed
  then have tw: "toward ?me {k. T k = cfg_AZ cfg} (RV (outside w)) (RV (outside w2))"
    using tags by (blast intro: toward_mono)
  show ?thesis
  proof (cases c)
    case (Inl err)
    with assms(2) d dd run l have "r = Some err" "w' = w2"
      by (simp_all add: ClaimOwnRouteTables_def claim_discovered_def del: claim_own_loop.simps)
    with loop tw Inl dd show ?thesis by auto
  next
    case (Inr conf)
    obtain u w3 where k: "run (cacheFallbackTargets cfg ?ts) w2 = (u, w3)"
      by (cases "run (cacheFallbackTargets cfg ?ts) w2")
    note keep = cache_keeps [OF assms(1,2) k]
    from Inr assms(2) d dd run l k have r: "r = None" and w': "w' = w3\<lparr>rec_st :=
        (if cfg_Mode cfg \<noteq> ''manual'' then (rec_st w3)\<lparr>ownedTables := conf\<rparr> else rec_st w3)\<rparr>"
      by (auto simp: ClaimOwnRouteTables_def claim_discovered_def simp del: claim_own_loop.simps)
    show ?thesis
      using keep loop tw Inr dd r by (auto simp: w' same_tables_def)
  qed
qed

end

end
