(* ===== verification/Reconciler_Release.thy ===== *)
theory Reconciler_Release
  imports Reconciler_Function
begin

text \<open>
  The manual operations of the reconciler (claim now, release to the NAT gateways), the
  hand-back of foreign tables and the data plane, and the properties of the component.
\<close>

section \<open>Releasing to the NAT gateways\<close>

text \<open>What the loop promises for a table, from the copies it works on.\<close>

definition released_to :: "(string \<rightharpoonup> string) \<Rightarrow> (string \<rightharpoonup> string) \<Rightarrow> routes \<Rightarrow> routes \<Rightarrow> string \<Rightarrow> bool" where
  "released_to gws vpcs R R' k \<longleftrightarrow>
     (if lookup_str gws k \<noteq> '''' then R' k = Some (ToNatGateway (lookup_str gws k))
      else if lookup_str vpcs k \<noteq> '''' then (\<exists>g. R' k = Some (ToNatGateway g))
      else R' k = R k)"

text \<open>Every change points a table of \<open>K\<close> at a gateway.\<close>

definition to_gateways :: "string set \<Rightarrow> routes \<Rightarrow> routes \<Rightarrow> bool" where
  "to_gateways K R R' \<longleftrightarrow> (\<forall>k. R' k = R k \<or> k \<in> K \<and> (\<exists>g. R' k = Some (ToNatGateway g)))"

lemma to_gateways_refl [simp]: "to_gateways K R R"
  by (simp add: to_gateways_def)

lemma to_gateways_trans: "to_gateways K R R' \<Longrightarrow> to_gateways K' R' R'' \<Longrightarrow> K' \<subseteq> K \<Longrightarrow> to_gateways K R R''"
  unfolding to_gateways_def by (metis subsetD)

lemma route_write_to_gateways: "route_write k (ToNatGateway g) r R R' \<Longrightarrow> k \<in> K \<Longrightarrow> to_gateways K R R'"
  by (cases r) (auto simp: route_write_def to_gateways_def split: if_splits)

lemma released_to_later:
  assumes "released_to gws vpcs R R1 k" and "to_gateways K R1 R2"
    and "k \<in> K \<Longrightarrow> released_to gws vpcs R1 R2 k"
  shows "released_to gws vpcs R R2 k"
proof (cases "k \<in> K")
  case True
  with assms(1,3) show ?thesis by (auto simp: released_to_def split: if_splits)
next
  case False
  then have "R2 k = R1 k" using assms(2) by (auto simp: to_gateways_def)
  with assms(1) show ?thesis by (simp add: released_to_def)
qed

definition skipped :: "(string \<rightharpoonup> string) \<Rightarrow> (string \<rightharpoonup> string) \<Rightarrow> string \<Rightarrow> bool" where
  "skipped gws vpcs k \<longleftrightarrow> lookup_str gws k = '''' \<and> lookup_str vpcs k = ''''"

definition loop_post ::
  "(string \<rightharpoonup> string) \<Rightarrow> (string \<rightharpoonup> string) \<Rightarrow> string list \<Rightarrow> status \<Rightarrow> routes \<Rightarrow> routes \<Rightarrow> bool" where
  "loop_post gws vpcs ids r R R' \<longleftrightarrow>
     to_gateways {k \<in> set ids. \<not> skipped gws vpcs k} R R' \<and>
     (r = None \<longrightarrow> (\<forall>k \<in> set ids. released_to gws vpcs R R' k))"

lemma loop_post_skip:
  assumes "skipped gws vpcs k" and "loop_post gws vpcs ids r R R'"
  shows "loop_post gws vpcs (k # ids) r R R'"
proof -
  have "{j \<in> set (k # ids). \<not> skipped gws vpcs j} = {j \<in> set ids. \<not> skipped gws vpcs j}"
    using assms(1) by auto
  moreover have "R' k = R k"
    using assms by (auto simp: loop_post_def to_gateways_def)
  ultimately show ?thesis
    using assms by (simp add: loop_post_def released_to_def skipped_def)
qed

lemma loop_post_released:
  assumes "route_write k (ToNatGateway g) None R R1" and "\<not> skipped gws vpcs k"
    and "lookup_str gws k \<noteq> '''' \<Longrightarrow> g = lookup_str gws k" and "loop_post gws vpcs ids r R1 R2"
  shows "loop_post gws vpcs (k # ids) r R R2"
proof -
  let ?K = "{j \<in> set (k # ids). \<not> skipped gws vpcs j}" and ?K' = "{j \<in> set ids. \<not> skipped gws vpcs j}"
  have tail: "to_gateways ?K' R1 R2" using assms(4) by (simp add: loop_post_def)
  have "to_gateways ?K R R1" using assms(1,2) by (intro route_write_to_gateways) auto
  then have 1: "to_gateways ?K R R2" by (rule to_gateways_trans [OF _ tail]) auto
  have "released_to gws vpcs R R1 k"
    using assms(1-3) by (auto simp: released_to_def skipped_def route_write_def)
  moreover have "released_to gws vpcs R R1 j" if "j \<noteq> k" "skipped gws vpcs j" for j
    using assms(1) that by (simp add: released_to_def skipped_def route_write_def)
  moreover have "released_to gws vpcs R R2 j" if "r = None" "j \<in> set ids" "\<not> skipped gws vpcs j" for j
    using assms(4) that by (auto simp: loop_post_def released_to_def skipped_def)
  ultimately have "released_to gws vpcs R R2 j" if "r = None" "j \<in> set (k # ids)" for j
    using that released_to_later [of gws vpcs R R1 j ?K' R2, OF _ tail] assms(2,4)
    by (cases "j = k"; cases "skipped gws vpcs j") (auto simp: loop_post_def)
  with 1 show ?thesis by (simp add: loop_post_def)
qed

lemma loop_post_error:
  assumes "route_write k (ToNatGateway g) (Some e) R R'" and "\<not> skipped gws vpcs k"
  shows "loop_post gws vpcs (k # ids) (Some e') R R'"
  using assms by (auto simp: loop_post_def intro!: route_write_to_gateways)

context ec2_laws
begin

lemma release_step:
  assumes ok and "EC2Client cfg = C" and "\<not> skipped gws vpcs k"
    and "lookup_str gws k \<noteq> '''' \<Longrightarrow> g = lookup_str gws k"
    and rest: "\<And>w1. run (release_loop cfg gws vpcs ids) w1 = (r, w') \<Longrightarrow>
      rec_st w' = rec_st w1 \<and> loop_post gws vpcs ids r (RV (outside w1)) (RV (outside w'))"
    and run: "run (bind (out (ReleaseRouteTable (EC2Client cfg) k g)) (\<lambda>err.
      case err of Some e \<Rightarrow> Ret (Some (Errorf ''release route table '' k e))
      | None \<Rightarrow> release_loop cfg gws vpcs ids)) w = (r, w')"
  shows "rec_st w' = rec_st w \<and> loop_post gws vpcs (k # ids) r (RV (outside w)) (RV (outside w'))"
proof -
  obtain x e1 where x: "run (ReleaseRouteTable C k g) (outside w) = (x, e1)" by fastforce
  note rw = release_writes [OF assms(1) x]
  show ?thesis
  proof (cases x)
    case None
    with run x assms(2) have "run (release_loop cfg gws vpcs ids) (w\<lparr>outside := e1\<rparr>) = (r, w')" by simp
    from rest [OF this] loop_post_released [OF rw [unfolded None] assms(3,4)] show ?thesis by simp
  next
    case (Some e)
    with run x assms(2) have "r = Some (Errorf ''release route table '' k e)" "w' = w\<lparr>outside := e1\<rparr>" by auto
    with loop_post_error [OF rw [unfolded Some] assms(3)] show ?thesis by simp
  qed
qed

lemma release_loop_post:
  assumes ok and "EC2Client cfg = C" and "run (release_loop cfg gws vpcs ids) w = (r, w')"
  shows "rec_st w' = rec_st w \<and> loop_post gws vpcs ids r (RV (outside w)) (RV (outside w'))"
  using assms(3)
proof (induction ids arbitrary: w)
  case Nil
  then show ?case by (simp add: loop_post_def)
next
  case (Cons k ids)
  note step = release_step [OF assms(1,2) _ _ Cons.IH]
  show ?case
  proof (cases "lookup_str gws k = ''''")
    case False
    have run: "run (bind (out (ReleaseRouteTable (EC2Client cfg) k (lookup_str gws k))) (\<lambda>err.
        case err of Some e \<Rightarrow> Ret (Some (Errorf ''release route table '' k e))
        | None \<Rightarrow> release_loop cfg gws vpcs ids)) w = (r, w')"
      using Cons.prems unfolding release_loop.simps Let_def by (simp only: False not_False_eq_True if_True)
    show ?thesis by (rule step [OF _ _ _ run]) (use False in \<open>auto simp: skipped_def\<close>)
  next
    case gw: True
    show ?thesis
    proof (cases "lookup_str vpcs k = ''''")
      case True
      with Cons.prems gw have "run (release_loop cfg gws vpcs ids) w = (r, w')" by (simp add: Let_def)
      from Cons.IH [OF this] show ?thesis
        using gw True by (auto intro: loop_post_skip simp: skipped_def)
    next
      case False
      obtain l e1 where l: "run (LookupNatGateway C (lookup_str vpcs k) (cfg_AZ cfg)) (outside w) = (l, e1)"
        by fastforce
      note keep = lookup_reads [OF assms(1) l]
      show ?thesis
      proof (cases l)
        case (Inl err)
        with Cons.prems gw False l assms(2)
        have "r = Some (Errorf ''lookup nat gateway for '' k err)" "w' = w\<lparr>outside := e1\<rparr>"
          by (auto simp: Let_def)
        with keep show ?thesis by (simp add: loop_post_def)
      next
        case (Inr found)
        have run: "run (bind (out (ReleaseRouteTable (EC2Client cfg) k found)) (\<lambda>err.
            case err of Some e \<Rightarrow> Ret (Some (Errorf ''release route table '' k e))
            | None \<Rightarrow> release_loop cfg gws vpcs ids)) (w\<lparr>outside := e1\<rparr>) = (r, w')"
          using Cons.prems gw False l Inr assms(2) by (simp add: Let_def)
        have "rec_st w' = rec_st (w\<lparr>outside := e1\<rparr>) \<and>
            loop_post gws vpcs (k # ids) r (RV (outside (w\<lparr>outside := e1\<rparr>))) (RV (outside w'))"
          by (rule step [OF _ _ _ run]) (use gw False in \<open>auto simp: skipped_def\<close>)
        with keep show ?thesis by simp
      qed
    qed
  qed
qed

lemma ReleaseRouteTables_run:
  assumes ok and "EC2Client cfg = C" and run: "run (ReleaseRouteTables cfg) w = (r, w')"
  shows "to_gateways (set (ownedTables (rec_st w))) (RV (outside w)) (RV (outside w')) \<and>
    foreignOwnedTables (rec_st w') = foreignOwnedTables (rec_st w) \<and>
    ownedTables (rec_st w') = (if r = None then [] else ownedTables (rec_st w)) \<and>
    (r = None \<longrightarrow> (\<forall>k \<in> set (ownedTables (rec_st w)). released_to (originalNatGW (rec_st w))
      (rtbVpcID (rec_st w)) (RV (outside w)) (RV (outside w')) k))"
proof (cases "ownedTables (rec_st w) = []")
  case True
  with run have "r = None" "w' = w" by (auto simp: ReleaseRouteTables_def)
  with True show ?thesis by simp
next
  case False
  let ?s = "rec_st w"
  obtain x w1 where l: "run (release_loop cfg (originalNatGW ?s) (rtbVpcID ?s) (ownedTables ?s)) w = (x, w1)"
    by fastforce
  note post = release_loop_post [OF assms(1,2) l]
  have tg: "to_gateways (set (ownedTables ?s)) (RV (outside w)) (RV (outside w1))"
    using post by (auto simp: loop_post_def to_gateways_def)
  show ?thesis
  proof (cases x)
    case None
    with run l False have "r = None" "w' = w1\<lparr>rec_st := (rec_st w1)\<lparr>ownedTables := []\<rparr>\<rparr>"
      by (auto simp: ReleaseRouteTables_def)
    with post None tg show ?thesis by (simp add: loop_post_def)
  next
    case (Some e)
    with run l False have "r = Some e" "w' = w1" by (auto simp: ReleaseRouteTables_def)
    with post tg show ?thesis by simp
  qed
qed

end

end
