(* ===== verification/Sim_World.thy ===== *)
theory Sim_World
  imports Lease_Server Ec2_Routes Nat_Manager
begin

text \<open>
  One outside world with everything an agent talks to: the API server in memory, route
  tables, a kernel. It satisfies the contracts of all three, and the examples of the
  development run in it.
\<close>

record sim =
  sim_mem :: mem
  sim_routes :: routes
  sim_tables :: "(string \<times> string) list"
  sim_kernel :: kernel

section \<open>Leases\<close>

definition on_mem :: "(mem \<Rightarrow> 'r \<times> mem) \<Rightarrow> sim \<Rightarrow> 'r \<times> sim" where
  "on_mem f w = (case f (sim_mem w) of (r, m) \<Rightarrow> (r, w\<lparr>sim_mem := m\<rparr>))"

definition sim_leases :: "sim lease_api" where
  "sim_leases =
     \<lparr>lease_get = (\<lambda>ns n. on_mem (lease_get mem_api ns n)),
      lease_create = (\<lambda>ns l. on_mem (lease_create mem_api ns l)),
      lease_update = (\<lambda>ns l. on_mem (lease_update mem_api ns l)),
      lease_delete = (\<lambda>ns n rv. on_mem (lease_delete mem_api ns n rv)),
      lease_list = (\<lambda>ns. on_mem (lease_list mem_api ns)),
      time_now = on_mem (time_now mem_api)\<rparr>"

definition sim_store :: "sim \<Rightarrow> kstore" where
  "sim_store w = mem_view (sim_mem w)"

lemma sim_leases_ok: "lease_api_ok sim_leases sim_store"
proof -
  note ok = mem_api_ok [unfolded lease_api_ok_def]
  have "get_ok sim_leases sim_store"
    using ok unfolding get_ok_def
    by (auto simp: sim_leases_def sim_store_def on_mem_def split: prod.splits)
  moreover have "create_ok sim_leases sim_store"
    using ok unfolding create_ok_def
    by (auto simp: sim_leases_def sim_store_def on_mem_def split: prod.splits)
  moreover have "update_ok sim_leases sim_store"
    using ok unfolding update_ok_def
    by (auto simp: sim_leases_def sim_store_def on_mem_def split: prod.splits)
  moreover have "delete_ok sim_leases sim_store"
    unfolding delete_ok_def
  proof (intro allI impI)
    fix ns n rv e r e' assume "lease_delete sim_leases ns n rv e = (r, e')"
    then have "lease_delete mem_api ns n rv (sim_mem e) = (r, sim_mem e')"
      by (auto simp: sim_leases_def on_mem_def split: prod.splits)
    from lease_delete_spec [OF mem_api_ok this]
    show "writes (if r = None then Some () else None) r
        (deleted (sim_store e) (ns, n) rv (sim_store e')) (sim_store e) (sim_store e')"
      by (simp add: sim_store_def)
  qed
  moreover have "list_ok sim_leases sim_store"
    using ok unfolding list_ok_def
    by (auto simp: sim_leases_def sim_store_def on_mem_def split: prod.splits)
  moreover have "now_ok sim_leases sim_store"
    using ok unfolding now_ok_def
    by (auto simp: sim_leases_def sim_store_def on_mem_def split: prod.splits)
  ultimately show ?thesis by (simp add: lease_api_ok_def)
qed

section \<open>Route tables\<close>

text \<open>The tables are pairs of an identifier and the value of the AZ tag, with the prefix \<open>kube-nat\<close>.\<close>

definition sim_settings :: ec2_settings where
  "sim_settings = \<lparr>tagPrefix = ''kube-nat'', discoveryValue = ''''\<rparr>"

definition sim_tag :: "(string \<times> string) list \<Rightarrow> string \<Rightarrow> string" where
  "sim_tag ts k = (case map_of ts k of None \<Rightarrow> '''' | Some az \<Rightarrow> az)"

definition sim_described :: "routes \<Rightarrow> string \<Rightarrow> sdk_route_table" where
  "sim_described R k = \<lparr>RouteTableId = k, VpcId = Some ''vpc-1'',
     Routes = (case R k of
       None \<Rightarrow> []
     | Some (ToInstance i) \<Rightarrow> [\<lparr>DestinationCidrBlock = Some default_cidr, r_NatGatewayId = None, r_InstanceId = Some i\<rparr>]
     | Some (ToNatGateway g) \<Rightarrow> [\<lparr>DestinationCidrBlock = Some default_cidr, r_NatGatewayId = Some g, r_InstanceId = None\<rparr>])\<rparr>"

definition sim_ec2 :: "(string \<times> string) list \<Rightarrow> sim ec2_api" where
  "sim_ec2 ts =
     \<lparr>ModifySourceDestCheck = (\<lambda>eni b w. (None, w)),
      DescribeRouteTables = (\<lambda>fs w. (Inr (map (sim_described (sim_routes w)) (filter (\<lambda>k.
        \<forall>f \<in> set fs. fst f = ''tag:kube-nat/az'' \<longrightarrow> snd f = [sim_tag ts k]) (map fst ts))), w)),
      CreateRoute = (\<lambda>k c t w. if sim_routes w k \<noteq> None then (Some (Aws ''RouteAlreadyExists''), w)
        else (None, w\<lparr>sim_routes := (sim_routes w)(k \<mapsto> t)\<rparr>)),
      ReplaceRoute = (\<lambda>k c t w. (None, w\<lparr>sim_routes := (sim_routes w)(k \<mapsto> t)\<rparr>)),
      DescribeNatGateways = (\<lambda>fs w. (Inr [\<lparr>n_NatGatewayId = Some ''nat-1'', n_SubnetId = Some ''subnet-1''\<rparr>], w)),
      DescribeSubnets = (\<lambda>fs w. (Inr [\<lparr>s_SubnetId = Some ''subnet-1'', AvailabilityZone = Some ''az1''\<rparr>], w)),
      DescribeInstanceTypes = (\<lambda>ty w. (Inr [Some \<lparr>NetworkPerformance = Some ''Up to 25 Gigabit''\<rparr>], w))\<rparr>"

lemma sim_described_shows: "shows_route R (sim_described R k)"
  by (auto simp: shows_route_def sim_described_def route_table_entry_def str_of_def
      split: option.splits target.splits)

lemma sim_described_id: "RouteTableId (sim_described R k) = k"
  by (simp add: sim_described_def)

lemma sim_ec2_ok: "ec2_api_ok (sim_ec2 ts) ''kube-nat'' sim_routes (sim_tag ts)"
  unfolding ec2_api_ok_def create_route_ok_def replace_route_ok_def describe_ok_def keeps_routes_def
  by (auto simp: sim_ec2_def route_write_def sim_described_shows sim_described_id)

section \<open>The kernel\<close>

definition on_kernel :: "(kernel \<Rightarrow> 'r \<times> kernel) \<Rightarrow> sim \<Rightarrow> 'r \<times> sim" where
  "on_kernel f w = (case f (sim_kernel w) of (r, k) \<Rightarrow> (r, w\<lparr>sim_kernel := k\<rparr>))"

definition sim_iptables :: "sim iptables_api" where
  "sim_iptables =
     \<lparr>ipt_Exists = (\<lambda>t c r. on_kernel (ipt_Exists fakeIPT t c r)),
      ipt_Append = (\<lambda>t c r. on_kernel (ipt_Append fakeIPT t c r)),
      ipt_Insert = (\<lambda>t c p r. on_kernel (ipt_Insert fakeIPT t c p r)),
      ipt_Delete = (\<lambda>t c r. on_kernel (ipt_Delete fakeIPT t c r)),
      ipt_List = (\<lambda>t c. on_kernel (ipt_List fakeIPT t c)),
      WriteFile = (\<lambda>p v. on_kernel (WriteFile fakeIPT p v))\<rparr>"

lemma sim_iptables_ok: "iptables_ok sim_iptables sim_kernel"
  unfolding iptables_ok_def
  by (auto simp: sim_iptables_def on_kernel_def split: prod.splits
      dest: Exists_spec [OF fakeIPT_ok] Append_spec [OF fakeIPT_ok] Insert_spec [OF fakeIPT_ok]
        Delete_spec [OF fakeIPT_ok] List_spec [OF fakeIPT_ok] WriteFile_spec [OF fakeIPT_ok])

end
