(* ===== verification/Reconciler_Properties.thy ===== *)
theory Reconciler_Properties
  imports Reconciler_Release Sim_World
begin

text \<open>
  The remaining operations of the reconciler and the properties of the component, with
  examples in the simulated world: an agent on instance \<open>i-a\<close> of \<open>az1\<close>, and two tables.
\<close>

section \<open>The data plane\<close>

context nat_laws
begin

lemma SetupDataPlane_run:
  assumes ok and "NATManager cfg = M" and "run (SetupDataPlane cfg) w = (None, w')"
  shows "masqueraded (cfg_Iface cfg) (N (outside w')) \<and> forwarding (N (outside w')) \<and> rec_st w' = rec_st w"
proof -
  obtain x e1 where m: "run (EnsureMasquerade M (cfg_Iface cfg)) (outside w) = (x, e1)" by fastforce
  obtain y e2 where f: "run (EnableIPForward M) e1 = (y, e2)" by fastforce
  obtain z e3 where s: "run (EnsureStaleFlowReset M (cfg_Iface cfg)) e2 = (z, e3)" by fastforce
  have x: "x = None" and y: "y = None"
    using assms(2,3) m f by (auto simp: SetupDataPlane_def split: option.splits prod.splits)
  have w': "w' = w\<lparr>outside := (if cfg_ResetStaleFlows cfg then e3 else e2)\<rparr>"
    using assms(2,3) m f s x y by (auto simp: SetupDataPlane_def split: if_splits)
  show ?thesis
    using data_plane_order [OF assms(1) m [unfolded x] f [unfolded y]] reset_keeps [OF assms(1) s]
    by (simp add: w')
qed

end

section \<open>Tables taken back by their owner\<close>

definition vacates ::
  "(string \<rightharpoonup> string) \<Rightarrow> string \<Rightarrow> string list \<Rightarrow> routes \<Rightarrow> rec_state \<Rightarrow> rec_state \<Rightarrow> bool" where
  "vacates foreign me new R s s' \<longleftrightarrow>
     (\<forall>k \<in> set new. foreign k \<noteq> None \<and> R k \<noteq> Some (ToInstance me)) \<and>
     s' = s\<lparr>foreignOwnedTables := foreignOwnedTables s |` (- set new)\<rparr>"

lemma vacates_none: "vacates foreign me [] R s s"
proof -
  have "foreignOwnedTables s |` UNIV = foreignOwnedTables s" by (simp add: restrict_map_def)
  then show ?thesis by (simp add: vacates_def)
qed

lemma vacates_append:
  "vacates foreign me xs R s t \<Longrightarrow> vacates foreign me ys R t u \<Longrightarrow> vacates foreign me (xs @ ys) R s u"
  by (auto simp: vacates_def restrict_map_def fun_eq_iff)

lemma vacates_one:
  "foreign k \<noteq> None \<Longrightarrow> R k \<noteq> Some (ToInstance me) \<Longrightarrow>
   vacates foreign me [k] R s (s\<lparr>foreignOwnedTables := (foreignOwnedTables s)(k := None)\<rparr>)"
  by (auto simp: vacates_def restrict_map_def fun_eq_iff)

context ec2_laws
begin

lemma vacate_loop_run:
  assumes "\<And>rt. rt \<in> set rts \<Longrightarrow> entry_of R T az rt"
    and "run (vacate_loop cfg foreign vac rts) w = (v, w')"
  shows "\<exists>new. v = vac @ new \<and> outside w' = outside w \<and>
    vacates foreign (cfg_InstanceID cfg) new R (rec_st w) (rec_st w')"
  using assms
proof (induction rts arbitrary: vac w)
  case Nil
  then show ?case by (auto intro: vacates_none)
next
  case (Cons rt rts)
  let ?me = "cfg_InstanceID cfg"
  show ?case
  proof (cases "foreign (ID rt) \<noteq> None \<and> InstanceID rt \<noteq> ?me")
    case True
    let ?s1 = "(rec_st w)\<lparr>foreignOwnedTables := (foreignOwnedTables (rec_st w))(ID rt := None)\<rparr>"
    from True Cons.prems(2)
    have run: "run (vacate_loop cfg foreign (vac @ [ID rt]) rts) (w\<lparr>rec_st := ?s1\<rparr>) = (v, w')" by auto
    obtain new where IH: "v = (vac @ [ID rt]) @ new" "outside w' = outside w"
        "vacates foreign ?me new R ?s1 (rec_st w')"
      using Cons.IH [OF Cons.prems(1) run] by auto
    have "entry_of R T az rt" using Cons.prems(1) by simp
    then have "\<forall>i. R (ID rt) = Some (ToInstance i) \<longrightarrow> InstanceID rt = i" unfolding entry_of_def by blast
    with True have "R (ID rt) \<noteq> Some (ToInstance ?me)" by blast
    with True have "vacates foreign ?me [ID rt] R (rec_st w) ?s1" by (intro vacates_one) auto
    from vacates_append [OF this IH(3)] IH(1,2) show ?thesis by auto
  next
    case False
    with Cons.prems(2) have "run (vacate_loop cfg foreign vac rts) w = (v, w')" by auto
    with Cons.IH Cons.prems(1) show ?thesis by simp
  qed
qed

lemma foreign_loop_run:
  assumes ok and "EC2Client cfg = C" and "run (foreign_loop cfg foreign vac azs) w = (v, w')"
  shows "\<exists>new. v = vac @ new \<and> RV (outside w') = RV (outside w) \<and>
    vacates foreign (cfg_InstanceID cfg) new (RV (outside w)) (rec_st w) (rec_st w')"
  using assms(3)
proof (induction azs arbitrary: vac w)
  case Nil
  then show ?case by (auto intro: vacates_none)
next
  case (Cons az azs)
  obtain d e1 where d: "run (DiscoverRouteTables C az) (outside w) = (d, e1)" by fastforce
  let ?w1 = "w\<lparr>outside := e1\<rparr>"
  have keep: "RV e1 = RV (outside w)"
    and ent: "\<And>ts rt. d = Inr ts \<Longrightarrow> rt \<in> set ts \<Longrightarrow> entry_of (RV (outside w)) T az rt"
    using discover_reads [OF assms(1) d] by blast+
  show ?case
  proof (cases d)
    case (Inl err)
    with Cons.prems d assms(2) have "run (foreign_loop cfg foreign vac azs) ?w1 = (v, w')" by simp
    from Cons.IH [OF this] keep show ?thesis by simp
  next
    case (Inr ts)
    obtain v1 w2 where l: "run (vacate_loop cfg foreign vac ts) ?w1 = (v1, w2)" by fastforce
    from vacate_loop_run [OF ent [OF Inr] l] obtain n1 where
      1: "v1 = vac @ n1" "outside w2 = e1"
        "vacates foreign (cfg_InstanceID cfg) n1 (RV (outside w)) (rec_st w) (rec_st w2)" by auto
    from Cons.prems d assms(2) Inr l have "run (foreign_loop cfg foreign v1 azs) w2 = (v, w')" by simp
    from Cons.IH [OF this] obtain n2 where
      2: "v = v1 @ n2" "RV (outside w') = RV (outside w2)"
        "vacates foreign (cfg_InstanceID cfg) n2 (RV (outside w2)) (rec_st w2) (rec_st w')" by auto
    from vacates_append [OF 1(3)] 1(1,2) 2 keep show ?thesis by auto
  qed
qed

lemma ReconcileForeign_run:
  assumes ok and "EC2Client cfg = C" and "run (ReconcileForeign cfg ko) w = (r, w')"
  shows "\<exists>vac. r = Inr vac \<and> RV (outside w') = RV (outside w) \<and>
    vacates (foreignOwnedTables (rec_st w)) (cfg_InstanceID cfg) vac (RV (outside w)) (rec_st w) (rec_st w')"
proof (cases "foreignOwnedTables (rec_st w) = Map.empty")
  case True
  with assms(3) show ?thesis by (auto simp: ReconcileForeign_def intro: vacates_none)
next
  case False
  let ?f = "foreignOwnedTables (rec_st w)"
  obtain v w1 where l: "run (foreign_loop cfg ?f [] (ko (ran ?f))) w = (v, w1)" by fastforce
  with assms(3) False have "r = Inr v" "w' = w1" by (auto simp: ReconcileForeign_def)
  with foreign_loop_run [OF assms(1,2) l] show ?thesis by simp
qed

end

section \<open>An example\<close>

definition rec_cfg :: "string \<Rightarrow> (string \<times> string) list \<Rightarrow> sim rec_config" where
  "rec_cfg mode ts = \<lparr>NATManager = iptablesManager sim_iptables,
     EC2Client = realEC2Client (sim_ec2 ts) sim_settings, cfg_Iface = ''eth0'', cfg_AZ = ''az1'',
     cfg_InstanceID = ''i-a'', cfg_Mode = mode, cfg_ResetStaleFlows = True\<rparr>"

definition two_tables :: "(string \<times> string) list" where
  "two_tables = [(''rtb-1'', ''az1''), (''rtb-2'', ''az2'')]"

definition sim_start :: sim where
  "sim_start = \<lparr>sim_mem = mem_empty 0, sim_routes = [''rtb-1'' \<mapsto> ToNatGateway ''nat-1'', ''rtb-2'' \<mapsto> ToInstance ''i-b''],
     sim_tables = two_tables, sim_kernel = kube_proxy_kernel\<rparr>"

definition recw_start :: "rec_state \<Rightarrow> sim recw" where
  "recw_start s = \<lparr>rec_st = s, outside = sim_start\<rparr>"

lemma sim_two_ok: "ec2_api_ok (sim_ec2 two_tables) (tagPrefix sim_settings) sim_routes (sim_tag two_tables)"
  using sim_ec2_ok by (simp add: sim_settings_def)

lemma discover_az1:
  "run (discoverRouteTables (sim_ec2 two_tables) sim_settings ''az1'') sim_start =
   (Inr [\<lparr>ID = ''rtb-1'', rt_AZ = ''az1'', VpcID = ''vpc-1'', NatGatewayID = ''nat-1'', InstanceID = ''''\<rparr>], sim_start)"
  by (simp add: discoverRouteTables_def sim_ec2_def sim_settings_def managed_filter_def two_tables_def
      sim_tag_def sim_described_def route_table_entry_def sim_start_def str_of_def)

section \<open>Properties\<close>

text \<open>
  C18: \<open>ClaimOwnRouteTables\<close> turns default routes only towards this instance and only
  those of tables tagged with its AZ. In manual mode it changes no route. When it succeeds
  in auto mode on the tables discovered, it owns exactly these and all of them point at this
  instance; after an error it remembers the tables it owned before.
\<close>

theorem claim_own_serves:
  assumes "ec2_api_ok A (tagPrefix c) RV T" and "EC2Client cfg = realEC2Client A c"
    and "cfg_InstanceID cfg \<noteq> ''''"
    and "run (discoverRouteTables A c (cfg_AZ cfg)) (outside w) = (d, e1)"
    and "run (ClaimOwnRouteTables cfg) w = (r, w')"
  shows "toward (cfg_InstanceID cfg) {k. T k = cfg_AZ cfg} (RV (outside w)) (RV (outside w')) \<and>
    (if cfg_Mode cfg = ''manual'' \<or> r \<noteq> None \<or> d = Inr []
     then ownedTables (rec_st w') = ownedTables (rec_st w) \<and>
       (cfg_Mode cfg = ''manual'' \<longrightarrow> RV (outside w') = RV (outside w))
     else \<exists>ts. d = Inr ts \<and> ownedTables (rec_st w') = map ID ts \<and>
       (\<forall>k \<in> set (ownedTables (rec_st w')). RV (outside w') k = Some (ToInstance (cfg_InstanceID cfg))))"
  using ec2_real.ClaimOwnRouteTables_run [OF assms(1,2,3) _ assms(5)] assms(4) by simp

theorem claim_own_serves_witness:
  "\<exists>r w'. run (ClaimOwnRouteTables (rec_cfg ''auto'' two_tables)) (recw_start new_rec_state) = (r, w') \<and>
     toward ''i-a'' {k. sim_tag two_tables k = ''az1''} (sim_routes sim_start) (sim_routes (outside w')) \<and>
     (r = None \<longrightarrow> ownedTables (rec_st w') = [''rtb-1''] \<and>
       sim_routes (outside w') ''rtb-1'' = Some (ToInstance ''i-a''))"
proof -
  obtain r w' where run: "run (ClaimOwnRouteTables (rec_cfg ''auto'' two_tables)) (recw_start new_rec_state) = (r, w')"
    by (cases "run (ClaimOwnRouteTables (rec_cfg ''auto'' two_tables)) (recw_start new_rec_state)")
  have "EC2Client (rec_cfg ''auto'' two_tables) = realEC2Client (sim_ec2 two_tables) sim_settings"
    and "cfg_InstanceID (rec_cfg ''auto'' two_tables) \<noteq> ''''"
    and "run (discoverRouteTables (sim_ec2 two_tables) sim_settings (cfg_AZ (rec_cfg ''auto'' two_tables)))
      (outside (recw_start new_rec_state)) = (Inr [\<lparr>ID = ''rtb-1'', rt_AZ = ''az1'', VpcID = ''vpc-1'',
        NatGatewayID = ''nat-1'', InstanceID = ''''\<rparr>], sim_start)"
    using discover_az1 by (simp_all add: rec_cfg_def recw_start_def)
  from claim_own_serves [OF sim_two_ok this run] show ?thesis
    using run by (auto simp: rec_cfg_def recw_start_def split: if_splits)
qed

text \<open>
  C19: \<open>ReleaseRouteTables\<close> changes only owned tables and only towards NAT gateways.
  When it succeeds it owns nothing, and every owned table points at the gateway remembered
  for it, or at one looked up in its VPC; a table for which neither is known keeps pointing
  where it did. When \<open>CanFallbackToNAT\<close> holds, every owned table is handed back to the
  gateway remembered for it. After an error it still owns the same tables.
\<close>

theorem release_hands_back:
  assumes "ec2_api_ok A (tagPrefix c) RV T" and "EC2Client cfg = realEC2Client A c"
    and "run (ReleaseRouteTables cfg) w = (r, w')"
  shows "to_gateways (set (ownedTables (rec_st w))) (RV (outside w)) (RV (outside w')) \<and>
    ownedTables (rec_st w') = (if r = None then [] else ownedTables (rec_st w)) \<and>
    (r = None \<longrightarrow> (\<forall>k \<in> set (ownedTables (rec_st w)).
      released_to (originalNatGW (rec_st w)) (rtbVpcID (rec_st w)) (RV (outside w)) (RV (outside w')) k \<and>
      (can_fallback (rec_st w) \<longrightarrow>
        RV (outside w') k = Some (ToNatGateway (lookup_str (originalNatGW (rec_st w)) k)))))"
  using ec2_real.ReleaseRouteTables_run [OF assms]
  by (auto simp: can_fallback_def list_all_iff released_to_def split: if_splits)

definition owning_state :: rec_state where
  "owning_state = \<lparr>ownedTables = [''rtb-2''], foreignOwnedTables = [''rtb-3'' \<mapsto> ''az3''],
     originalNatGW = [''rtb-2'' \<mapsto> ''nat-2''], rtbVpcID = Map.empty\<rparr>"

theorem release_hands_back_witness:
  "\<exists>w'. run (ReleaseRouteTables (rec_cfg ''auto'' two_tables)) (recw_start owning_state) = (None, w') \<and>
     sim_routes (outside w') ''rtb-2'' = Some (ToNatGateway ''nat-2'')"
proof -
  let ?cfg = "rec_cfg ''auto'' two_tables"
  obtain r w' where run: "run (ReleaseRouteTables ?cfg) (recw_start owning_state) = (r, w')"
    by (cases "run (ReleaseRouteTables ?cfg) (recw_start owning_state)")
  have "r = None"
    using run by (simp add: ReleaseRouteTables_def recw_start_def owning_state_def Let_def rec_cfg_def
        releaseRouteTable_def sim_ec2_def sim_start_def isEC2ErrorCode_def wrap_err_def)
  have cl: "EC2Client ?cfg = realEC2Client (sim_ec2 two_tables) sim_settings" by (simp add: rec_cfg_def)
  from release_hands_back [OF sim_two_ok cl run] \<open>r = None\<close>
  have "sim_routes (outside w') ''rtb-2'' = Some (ToNatGateway ''nat-2'')"
    by (simp add: recw_start_def owning_state_def can_fallback_def)
  with run \<open>r = None\<close> show ?thesis by blast
qed

text \<open>
  C20: \<open>ReconcileForeign\<close> changes no route and gives up exactly the tables it reports:
  tables it had claimed for another AZ whose default route no longer points at this instance.
  It never gives up a table that still points here.
\<close>

theorem foreign_vacated:
  assumes "ec2_api_ok A (tagPrefix c) RV T" and "EC2Client cfg = realEC2Client A c"
    and "run (ReconcileForeign cfg ko) w = (r, w')"
  shows "\<exists>vac. r = Inr vac \<and> RV (outside w') = RV (outside w) \<and>
    ownedTables (rec_st w') = ownedTables (rec_st w) \<and>
    foreignOwnedTables (rec_st w') = foreignOwnedTables (rec_st w) |` (- set vac) \<and>
    (\<forall>k \<in> set vac. foreignOwnedTables (rec_st w) k \<noteq> None \<and>
      RV (outside w) k \<noteq> Some (ToInstance (cfg_InstanceID cfg)))"
  using ec2_real.ReconcileForeign_run [OF assms] by (auto simp: vacates_def)

theorem foreign_vacated_witness:
  "\<exists>vac w'. run (ReconcileForeign (rec_cfg ''auto'' two_tables) sorted_list_of_set) (recw_start owning_state) = (Inr vac, w') \<and>
     sim_routes (outside w') = sim_routes sim_start"
proof -
  let ?cfg = "rec_cfg ''auto'' two_tables"
  obtain r w' where run: "run (ReconcileForeign ?cfg sorted_list_of_set) (recw_start owning_state) = (r, w')"
    by (cases "run (ReconcileForeign ?cfg sorted_list_of_set) (recw_start owning_state)")
  have cl: "EC2Client ?cfg = realEC2Client (sim_ec2 two_tables) sim_settings" by (simp add: rec_cfg_def)
  from foreign_vacated [OF sim_two_ok cl run] run show ?thesis by (auto simp: recw_start_def)
qed

text \<open>
  After tables are registered for a dead AZ the agent covers that AZ; releasing the
  AZ returns exactly the tables registered for it, ends the cover, and leaves the tables of
  every other AZ registered.
\<close>

lemma foreign_bookkeeping:
  assumes "lists_keys ko" and "finite (dom (foreignOwnedTables s))"
    and "release_foreign ko az (add_foreign az ids s) = (released, s')"
  shows "(ids \<noteq> [] \<longrightarrow> covers az (add_foreign az ids s)) \<and>
    set released = set ids \<union> {k. foreignOwnedTables s k = Some az} \<and>
    \<not> covers az s' \<and>
    (\<forall>k z. z \<noteq> az \<longrightarrow> k \<notin> set ids \<longrightarrow>
      (foreignOwnedTables s' k = Some z \<longleftrightarrow> foreignOwnedTables s k = Some z))"
proof -
  have "dom (foreignOwnedTables (add_foreign az ids s)) = set ids \<union> dom (foreignOwnedTables s)"
    by (auto simp: add_foreign_at dom_def split: if_splits)
  then have fin: "finite (dom (foreignOwnedTables (add_foreign az ids s)))" using assms(2) by simp
  note spec = release_foreign_spec [OF assms(1) fin assms(3)]
  have "ids \<noteq> [] \<longrightarrow> covers az (add_foreign az ids s)"
    by (cases ids) (auto simp: covers_iff add_foreign_at)
  with spec show ?thesis by (auto simp: covers_iff add_foreign_at)
qed

text \<open>
  When \<open>SetupDataPlane\<close> reports success, the interface is masqueraded and IP forwarding
  is on, also when the stale-flow reset that follows them fails.
\<close>

theorem data_plane_up:
  assumes "iptables_ok I N" and "NATManager cfg = iptablesManager I"
    and "run (SetupDataPlane cfg) w = (None, w')"
  shows "masqueraded (cfg_Iface cfg) (N (outside w')) \<and> forwarding (N (outside w')) \<and> rec_st w' = rec_st w"
  by (rule nat_real.SetupDataPlane_run [OF assms])

theorem data_plane_up_witness:
  "\<exists>w'. run (SetupDataPlane (rec_cfg ''auto'' two_tables)) (recw_start new_rec_state) = (None, w') \<and>
     masqueraded ''eth0'' (sim_kernel (outside w'))"
proof -
  let ?cfg = "rec_cfg ''auto'' two_tables"
  obtain r w' where run: "run (SetupDataPlane ?cfg) (recw_start new_rec_state) = (r, w')"
    by (cases "run (SetupDataPlane ?cfg) (recw_start new_rec_state)")
  have "r = None"
    using run by (simp add: SetupDataPlane_def rec_cfg_def ensureMasquerade_def enableIPForward_def
        writeSysctl_def sim_iptables_def on_kernel_def fakeIPT_def recw_start_def sim_start_def
        kube_proxy_kernel_def split: prod.splits)
  have nm: "NATManager ?cfg = iptablesManager sim_iptables" by (simp add: rec_cfg_def)
  from data_plane_up [OF sim_iptables_ok nm run [unfolded \<open>r = None\<close>]] run \<open>r = None\<close>
  show ?thesis by (auto simp: rec_cfg_def)
qed

end
