(* ===== verification/Agent_Example.thy ===== *)
theory Agent_Example
  imports Agent_Cluster Reconciler_Properties Lease_Properties
begin

text \<open>
  Agents in the simulated world: \<open>sim_env\<close> is the environment of an agent of an AZ, and
  \<open>sim_cloud_ok\<close> shows that the world satisfies everything an agent relies on.
\<close>

definition sim_env :: "string \<Rightarrow> string \<Rightarrow> string \<Rightarrow> bool \<Rightarrow> sim agent_env" where
  "sim_env az pod inst cordoned =
     \<lparr>leases = sim_leases, leaseMgr = mgr_in az,
      rcfg = \<lparr>NATManager = iptablesManager sim_iptables,
        EC2Client = realEC2Client (sim_ec2 two_tables) sim_settings, cfg_Iface = ''eth0'', cfg_AZ = az,
        cfg_InstanceID = inst, cfg_Mode = ''auto'', cfg_ResetStaleFlows = True\<rparr>,
      podName = pod, AZLabelKey = ''zone'', peerPort = 9600, standDownOnDrain = True,
      node_get = (\<lambda>n w. (Inr \<lparr>Unschedulable = cordoned, Taints = []\<rparr>, w)),
      list_pods = (\<lambda>w. (Inr [], w)), read_file = (\<lambda>p w. (Inr ''100'', w)),
      read_lines = (\<lambda>p w. (Inr [], w)), link_stats = (\<lambda>i w. (Inr None, w)), peer_send = (\<lambda>c m w. ((), w)), key_order_of = sorted_list_of_set\<rparr>"

definition no_metrics :: metrics where
  "no_metrics = \<lparr>RouteTableOwned = Map.empty, Standby = 0, PeerStatus = Map.empty, FailoverTotal = Map.empty,
     LastFailover = Map.empty, RulePresent = Map.empty, ConntrackEntries = 0, ConntrackLimit = 0,
     ConntrackUsageRatio = 0, FallbackAvailable = 0, SpotInterruptionPending = 0, SrcDstCheckDisabled = 0,
     MaxBandwidthGauge = 0, InstanceInfo = Map.empty, TrafficSeries = (\<lambda>_. Map.empty), TxBytesPerSec = Map.empty,
     RxBytesPerSec = Map.empty, CPUUsageRatio = 0, MemUsedBytes = 0, MemTotalBytes = 0\<rparr>"

text \<open>An agent with given bookkeeping, in a world with given Leases.\<close>

definition agentw_start :: "rec_state \<Rightarrow> bool \<Rightarrow> mem \<Rightarrow> sim agentw" where
  "agentw_start s d m = \<lparr>rec_st = s, outside = sim_start\<lparr>sim_mem := m\<rparr>, nodeName = ''node-a'', draining = d,
     ready = False, reg = no_metrics, connectedAZs = {}, staleInstances = Map.empty, peerClients = []\<rparr>"

lemma agentw_start_simps [simp]:
  "rec_st (agentw_start s d m) = s" "outside (agentw_start s d m) = sim_start\<lparr>sim_mem := m\<rparr>"
  "draining (agentw_start s d m) = d" "reg (agentw_start s d m) = no_metrics"
  "connectedAZs (agentw_start s d m) = {}" "peerClients (agentw_start s d m) = []"
  "nodeName (agentw_start s d m) = ''node-a''"
  by (simp_all add: agentw_start_def)

lemma sim_env_simps [simp]:
  "leases (sim_env az pod inst b) = sim_leases" "leaseMgr (sim_env az pod inst b) = mgr_in az"
  "podName (sim_env az pod inst b) = pod" "az_of (sim_env az pod inst b) = az"
  "NATManager (rcfg (sim_env az pod inst b)) = iptablesManager sim_iptables"
  "EC2Client (rcfg (sim_env az pod inst b)) = realEC2Client (sim_ec2 two_tables) sim_settings"
  "cfg_InstanceID (rcfg (sim_env az pod inst b)) = inst" "cfg_AZ (rcfg (sim_env az pod inst b)) = az"
  "cfg_Mode (rcfg (sim_env az pod inst b)) = ''auto''"
  "standDownOnDrain (sim_env az pod inst b) = True" "key_order_of (sim_env az pod inst b) = sorted_list_of_set"
  by (simp_all add: sim_env_def az_of_def)

lemma mgr_in_simps [simp]:
  "namespace (mgr_in az) = ''kube-system''" "homeAZ (mgr_in az) = az" "leaseDuration (mgr_in az) = 15000000000"
  by (simp_all add: mgr_in_def)

lemma sim_leases_keep: "leases_keep_routes sim_leases sim_routes"
  by (auto simp: leases_keep_routes_def keeps_routes_def sim_leases_def on_mem_def split: prod.splits)

lemma sim_ec2_shared: "ec2_shared_ok (sim_ec2 ts) (tagPrefix sim_settings) sim_store sim_routes (sim_tag ts)"
  using sim_ec2_ok [of ts]
  by (auto simp: ec2_shared_ok_def ec2_keeps_leases_def reads_fn_def sim_ec2_def sim_store_def reads_def quiet_def
      sim_settings_def split: if_splits)

lemma sim_iptables_silent: "iptables_silent sim_iptables sim_store sim_routes"
  by (auto simp: iptables_silent_def silent_fn_def silent_def sim_iptables_def on_kernel_def sim_store_def
      reads_def quiet_def split: prod.splits)

lemma sim_cloud_ok:
  "cloud_ok (sim_env az pod inst b) (sim_ec2 two_tables) sim_settings sim_iptables sim_store sim_routes (sim_tag two_tables)"
  using sim_leases_ok sim_leases_keep sim_ec2_shared [of two_tables] sim_iptables_silent
  by (auto simp: cloud_ok_def silent_fn_def silent_def reads_def quiet_def sim_env_def)

lemma fst_on_mem [simp]: "fst (on_mem f w) = fst (f (sim_mem w))"
  by (simp add: on_mem_def split: prod.splits)

lemma sim_lease_calls:
  "fst (lease_get sim_leases ns n w) = fst (lease_get mem_api ns n (sim_mem w))"
  "fst (lease_create sim_leases ns l w) = fst (lease_create mem_api ns l (sim_mem w))"
  "fst (lease_update sim_leases ns l w) = fst (lease_update mem_api ns l (sim_mem w))"
  "fst (lease_delete sim_leases ns n rv w) = fst (lease_delete mem_api ns n rv (sim_mem w))"
  by (simp_all add: sim_leases_def)

lemma sim_leases_up: "lease_api_up sim_leases sim_store"
  using mem_api_up sim_leases_ok unfolding lease_api_up_def by (simp add: sim_lease_calls sim_store_def)

end
