(* ===== verification/Agent_Function.thy ===== *)
theory Agent_Function
  imports Agent_Example
begin

text \<open>
  What the agent's operations do when it runs alone, branch by branch: the Lease it ends with,
  the tables it registers, the metrics it sets.
\<close>

section \<open>The Lease of the own AZ\<close>

lemma takeover_later: "takeover_policy h z az l t \<Longrightarrow> t \<le> t' \<Longrightarrow> takeover_policy h z az l t'"
  by (auto simp: takeover_policy_def IsExpired_def split: option.splits)

lemma lease_run_routes:
  assumes "anyhow (\<lambda>e e'. RV e' = RV e) (\<lambda>_. True) p" and "run p e = (r, e')"
  shows "RV e' = RV e"
  using anyhow_run [OF assms(1), of "\<lambda>x. RV x = RV e", OF refl _ assms(2)] by simp

lemma lease_run_clock:
  assumes "safe (lease_rely V) (lease_guar V pol h z ns) Q p e" and "run p e = (r, e')" and "kstore_wf (V e)"
  shows "clock (V e) \<le> clock (V e') \<and> kstore_wf (V e')"
proof -
  have 1: "safe (=) (lease_guar V pol h z ns) Q p e"
    by (rule safe_mono [OF assms(1)]) auto
  have "lease_rely V e (snd (run p e))"
    using 1
  proof (induction rule: safe.induct)
    case (safe_Act w f)
    obtain p w' where f: "f w = (p, w')" by fastforce
    from safe_Act.IH [OF refl f] lease_rely_trans [OF guar_imp_rely] show ?case by (auto simp: run_Act f)
  qed simp
  with assms(2,3) show ?thesis by (auto simp: lease_rely_def evolves_def)
qed

lemma acquire_own_run:
  assumes up: "lease_api_up (leases E) V" and wf: "kstore_wf (V (outside w))"
    and run: "run (acquireOwnLease E) w = (r, w')"
  shows "w' = w\<lparr>outside := outside w'\<rparr> \<and>
    ((case objs (V (outside w)) (lease_key_of E (az_of E)) of None \<Rightarrow> True
      | Some l \<Rightarrow> pol_of E (az_of E) l (clock (V (outside w)))) \<longrightarrow>
      r = Inr True \<and> leaves (leaseMgr E) (podName E) (az_of E) (V (outside w)) (V (outside w'))) \<and>
    (\<forall>l. objs (V (outside w)) (lease_key_of E (az_of E)) = Some l \<longrightarrow>
      \<not> pol_of E (az_of E) l (clock (V (outside w'))) \<longrightarrow>
      r = Inr False \<and> objs (V (outside w')) = objs (V (outside w)))"
proof -
  obtain b err e' where a: "run (Acquire (leases E) (leaseMgr E) (az_of E) (podName E)) (outside w) = ((b, err), e')"
    by (metis prod.exhaust)
  with run have r: "r = (case err of None \<Rightarrow> Inr b | Some e \<Rightarrow> Inl (Errorf ''acquire own lease az='' (az_of E) e))"
    and w': "w' = w\<lparr>outside := e'\<rparr>"
    by (auto simp: acquireOwnLease_def split: option.splits)
  show ?thesis
  proof (cases "objs (V (outside w)) (lease_key_of E (az_of E))")
    case None
    then have "\<exists>e2. run (Acquire (leases E) (leaseMgr E) (az_of E) (podName E)) (outside w) = ((True, None), e2) \<and>
        leaves (leaseMgr E) (podName E) (az_of E) (V (outside w)) (V e2)"
      by (intro Acquire_grants [OF up wf]) (simp add: lease_key_of_def)
    with a None show ?thesis by (simp add: r w')
  next
    case (Some l)
    have "pol_of E (az_of E) l (clock (V (outside w))) \<Longrightarrow>
        b \<and> err = None \<and> leaves (leaseMgr E) (podName E) (az_of E) (V (outside w)) (V e')"
      using Acquire_grants [OF up wf, of "leaseMgr E" "az_of E" "podName E"] a Some
      by (auto simp: lease_key_of_def pol_of_def)
    moreover have "\<not> pol_of E (az_of E) l (clock (V e')) \<Longrightarrow> \<not> b \<and> err = None \<and> objs (V e') = objs (V (outside w))"
      using Acquire_refuses [OF up _ a] Some by (auto simp: lease_key_of_def pol_of_def)
    ultimately show ?thesis using Some by (auto simp: r w')
  qed
qed


text \<open>The agent may take the Lease of an AZ: it is absent, or the takeover policy allows it.\<close>

definition may_take :: "'e agent_env \<Rightarrow> ('e \<Rightarrow> kstore) \<Rightarrow> string \<Rightarrow> lease option \<Rightarrow> 'e \<Rightarrow> bool" where
  "may_take E V az lo e \<longleftrightarrow> (case lo of None \<Rightarrow> True | Some l \<Rightarrow> pol_of E az l (clock (V e)))"

definition stored :: "'e agent_env \<Rightarrow> ('e \<Rightarrow> kstore) \<Rightarrow> string \<Rightarrow> 'e \<Rightarrow> lease option" where
  "stored E V az e = objs (V e) (lease_key_of E az)"

lemma leaves_mine:
  assumes "leaves (leaseMgr E) (podName E) az S (V e)"
  shows "\<exists>l. stored E V az e = Some l \<and> holderIdentity l = Some (podName E)"
  using assms by (auto simp: leaves_def granted_def stored_def lease_key_of_def)

lemma ensureOwnLease_run:
  assumes up: "lease_api_up (leases E) V" and wf: "kstore_wf (V (outside w))"
    and run: "run (ensureOwnLease E) w = (r, w')"
  shows "w' = w\<lparr>outside := outside w'\<rparr> \<and>
    (may_take E V (az_of E) (stored E V (az_of E) (outside w)) (outside w) \<longrightarrow> r = Inr True \<and>
      (\<exists>l. stored E V (az_of E) (outside w') = Some l \<and> holderIdentity l = Some (podName E))) \<and>
    (\<not> may_take E V (az_of E) (stored E V (az_of E) (outside w)) (outside w') \<longrightarrow> r = Inr False \<and>
      objs (V (outside w')) = objs (V (outside w)))"
proof (cases "\<exists>l. stored E V (az_of E) (outside w) = Some l \<and> holderIdentity l \<noteq> Some (podName E)")
  case False
  then have "\<exists>e'. run (Renew (leases E) (leaseMgr E) (az_of E) (podName E)) (outside w) = ((True, None), e') \<and>
      leaves (leaseMgr E) (podName E) (az_of E) (V (outside w)) (V e')"
    by (intro Renew_grants [OF up wf]) (auto simp: stored_def lease_key_of_def)
  then obtain e' where "run (Renew (leases E) (leaseMgr E) (az_of E) (podName E)) (outside w) = ((True, None), e')"
    and l: "leaves (leaseMgr E) (podName E) (az_of E) (V (outside w)) (V e')" by blast
  with run have "r = Inr True" "w' = w\<lparr>outside := e'\<rparr>" by (simp_all add: ensureOwnLease_def)
  with leaves_mine [where V = V and e = e', OF l] False show ?thesis
    by (auto simp: may_take_def pol_of_def takeover_policy_def split: option.splits)
next
  case True
  then obtain l where l: "stored E V (az_of E) (outside w) = Some l" "holderIdentity l \<noteq> Some (podName E)" by blast
  then obtain e1 where ren: "run (Renew (leases E) (leaseMgr E) (az_of E) (podName E)) (outside w) = ((False, None), e1)"
    and o1: "objs (V e1) = objs (V (outside w))"
    using Renew_refuses [OF up] by (force simp: stored_def lease_key_of_def)
  note c1 = lease_run_clock [OF safe_Renew [OF up_ok [OF up] takeover_policy_ok wf] ren wf]
  have acq: "run (acquireOwnLease E) (w\<lparr>outside := e1\<rparr>) = (r, w')"
    using run ren by (simp add: ensureOwnLease_def)
  have s1: "objs (V e1) (lease_key_of E (az_of E)) = Some l" using o1 l(1) by (simp add: stored_def)
  from c1 have "kstore_wf (V (outside (w\<lparr>outside := e1\<rparr>)))" by simp
  from acquire_own_run [OF up this acq]
  have a: "w' = w\<lparr>outside := outside w'\<rparr>"
    and take: "pol_of E (az_of E) l (clock (V e1)) \<Longrightarrow> r = Inr True \<and>
      leaves (leaseMgr E) (podName E) (az_of E) (V e1) (V (outside w'))"
    and refuse: "\<not> pol_of E (az_of E) l (clock (V (outside w'))) \<Longrightarrow> r = Inr False \<and> objs (V (outside w')) = objs (V e1)"
    using s1 by auto
  have "pol_of E (az_of E) l (clock (V e1))" if "pol_of E (az_of E) l (clock (V (outside w)))"
    using that takeover_later c1 unfolding pol_of_def by blast
  with take refuse leaves_mine [where V = V and e = "outside w'" and S = "V e1" and az = "az_of E" and E = E] a l(1) o1
  show ?thesis by (auto simp: may_take_def)
qed


lemma ensureOwnLease_routes:
  assumes K: "leases_keep_routes (leases E) RV" and run: "run (ensureOwnLease E) w = (r, w')"
  shows "RV (outside w') = RV (outside w)"
proof -
  obtain b x e1 where ren: "run (Renew (leases E) (leaseMgr E) (az_of E) (podName E)) (outside w) = ((b, x), e1)"
    by (metis prod.exhaust)
  obtain b2 x2 e2 where acq: "run (Acquire (leases E) (leaseMgr E) (az_of E) (podName E)) e1 = ((b2, x2), e2)"
    by (metis prod.exhaust)
  have "RV e1 = RV (outside w)" by (rule lease_run_routes [OF Renew_keeps_routes [OF K] ren])
  moreover have "RV e2 = RV e1" by (rule lease_run_routes [OF Acquire_keeps_routes [OF K] acq])
  ultimately show ?thesis
    using run ren acq by (auto simp: ensureOwnLease_def acquireOwnLease_def split: if_splits option.splits)
qed

section \<open>Takeover\<close>

lemma run_metric [simp]: "run (metric f) w = ((), w\<lparr>reg := f (reg w)\<rparr>)"
  by (simp add: metric_def)

lemma run_set_owned [simp]:
  "run (set_owned k v) w = ((), w\<lparr>reg := (reg w)\<lparr>RouteTableOwned := (RouteTableOwned (reg w))(k \<mapsto> v)\<rparr>\<rparr>)"
  by (simp add: set_owned_def)

lemma run_isDraining [simp]: "run (isDraining E) w = (standDownOnDrain E \<and> draining w, w)"
  by (simp add: isDraining_def IsDraining_def)

text \<open>The loop changes only the outside world and the gauges of the tables.\<close>

definition only_owned :: "('e, 'x) agentw_scheme \<Rightarrow> ('e, 'x) agentw_scheme \<Rightarrow> bool" where
  "only_owned w w' \<longleftrightarrow> (\<exists>e m. w' = w\<lparr>outside := e, reg := (reg w)\<lparr>RouteTableOwned := m\<rparr>\<rparr>)"

lemma only_owned_refl: "only_owned w w"
  unfolding only_owned_def by (rule exI [of _ "outside w"], rule exI [of _ "RouteTableOwned (reg w)"]) simp

lemma only_owned_step: "only_owned (w\<lparr>outside := e\<rparr>) w' \<Longrightarrow> only_owned w w'"
  unfolding only_owned_def by auto

lemma only_owned_gauge: "only_owned (w\<lparr>reg := (reg w)\<lparr>RouteTableOwned := m\<rparr>\<rparr>) w' \<Longrightarrow> only_owned w w'"
  unfolding only_owned_def by auto

context ec2_laws
begin

lemma takeover_loop_run:
  assumes ok and "EC2Client (rcfg E) = C" and "run (takeover_loop E claimed rts) w = (r, w')"
  shows "only_owned w w' \<and> (\<exists>new. r = claimed @ new \<and> set new \<subseteq> ID ` set rts \<and>
    toward (cfg_InstanceID (rcfg E)) (ID ` set rts) (RV (outside w)) (RV (outside w')) \<and>
    (\<forall>k \<in> set new. RV (outside w') k = Some (ToInstance (cfg_InstanceID (rcfg E)))) \<and>
    (cfg_Mode (rcfg E) = ''manual'' \<longrightarrow> new = [] \<and> RV (outside w') = RV (outside w)))"
  using assms(3)
proof (induction rts arbitrary: claimed w)
  case Nil
  then show ?case by (simp add: only_owned_refl)
next
  case (Cons rt rts)
  let ?me = "cfg_InstanceID (rcfg E)"
  show ?case
  proof (cases "cfg_Mode (rcfg E) = ''manual''")
    case True
    with Cons.prems have "run (takeover_loop E claimed rts) w = (r, w')" by simp
    from Cons.IH [OF this] True show ?thesis by (auto intro: toward_mono)
  next
    case False
    obtain err e1 where c: "run (ClaimRouteTable C (ID rt) ?me) (outside w) = (err, e1)" by fastforce
    note wr = claim_writes [OF assms(1) c]
    have t1: "toward ?me (ID ` set (rt # rts)) (RV (outside w)) (RV e1)"
      using wr by (auto intro: route_write_toward)
    define w1 where "w1 = (if err = None then (w\<lparr>outside := e1\<rparr>)\<lparr>reg := (reg w)\<lparr>RouteTableOwned :=
        (RouteTableOwned (reg w))(ID rt \<mapsto> 1)\<rparr>\<rparr> else w\<lparr>outside := e1\<rparr>)"
    define cl where "cl = (if err = None then claimed @ [ID rt] else claimed)"
    have run: "run (takeover_loop E cl rts) w1 = (r, w')"
      using Cons.prems False c assms(2) by (cases err) (auto simp: w1_def cl_def)
    from Cons.IH [OF this] obtain new where IH: "only_owned w1 w'" "r = cl @ new" "set new \<subseteq> ID ` set rts"
        "toward ?me (ID ` set rts) (RV e1) (RV (outside w'))"
        "\<forall>k \<in> set new. RV (outside w') k = Some (ToInstance ?me)"
      by (auto simp: w1_def split: if_splits)
    have o: "only_owned w w'"
      using IH(1) by (auto simp: w1_def intro: only_owned_step [OF only_owned_gauge] only_owned_step split: if_splits)
    have t: "toward ?me (ID ` set (rt # rts)) (RV (outside w)) (RV (outside w'))"
      by (rule toward_trans [OF t1 toward_mono [OF IH(4)]]) auto
    have "RV (outside w') (ID rt) = Some (ToInstance ?me)" if "err = None"
      using toward_keeps [OF IH(4)] route_write_done wr that by blast
    with o t IH(2,3,5) False show ?thesis
      by (cases err) (auto simp: cl_def intro!: exI [of _ new] exI [of _ "ID rt # new"])
  qed
qed

end

text \<open>What a takeover that got the Lease and discovered the tables does: it covers the AZ by
  the tables it claimed, and it counts a failover whatever came of the claims.\<close>

lemma takeover_tail_run:
  assumes "ec2_api_ok A (tagPrefix c) RV T" and "EC2Client (rcfg E) = realEC2Client A c"
    and "leases_keep_routes (leases E) RV" and "run (takeover_tail E dead ts) w = ((), w')"
  shows "\<exists>claimed. set claimed \<subseteq> ID ` set ts \<and>
    toward (cfg_InstanceID (rcfg E)) (ID ` set ts) (RV (outside w)) (RV (outside w')) \<and>
    (\<forall>k \<in> set claimed. RV (outside w') k = Some (ToInstance (cfg_InstanceID (rcfg E)))) \<and>
    (cfg_Mode (rcfg E) = ''manual'' \<longrightarrow> claimed = [] \<and> RV (outside w') = RV (outside w)) \<and>
    rec_st w' = (if claimed = [] then rec_st w else add_foreign dead claimed (rec_st w)) \<and>
    FailoverTotal (reg w') = (FailoverTotal (reg w))((dead, az_of E) \<mapsto>
      (case FailoverTotal (reg w) (dead, az_of E) of None \<Rightarrow> 0 | Some n \<Rightarrow> n) + 1)"
proof -
  obtain cl w1 where l: "run (takeover_loop E [] ts) w = (cl, w1)" by fastforce
  note loop = ec2_real.takeover_loop_run [OF assms(1,2) l]
  obtain e1 m where w1: "w1 = w\<lparr>outside := e1, reg := (reg w)\<lparr>RouteTableOwned := m\<rparr>\<rparr>"
    using loop by (auto simp: only_owned_def)
  obtain t e2 where t: "time_now (leases E) e1 = (t, e2)" by fastforce
  have RV: "RV e2 = RV e1" using assms(3) t by (simp add: leases_keep_routes_def keeps_routes_def)
  have w': "w' = w\<lparr>outside := e2, rec_st := (if cl = [] then rec_st w else add_foreign dead cl (rec_st w)),
      reg := reg w'\<rparr>"
    and F: "FailoverTotal (reg w') = (FailoverTotal (reg w))((dead, az_of E) \<mapsto>
      (case FailoverTotal (reg w) (dead, az_of E) of None \<Rightarrow> 0 | Some n \<Rightarrow> n) + 1)"
    using assms(4) l t by (cases "cl = []"; auto simp: takeover_tail_def w1 AddForeignTables_def count_failover_def)+
  have "outside w' = e2" and rec: "rec_st w' = (if cl = [] then rec_st w else add_foreign dead cl (rec_st w))"
    by (subst w', simp)+
  then have RVs: "RV (outside w') = RV (outside w1)" using RV by (simp add: w1)
  show ?thesis
    by (rule exI [of _ cl]) (use loop F rec RVs in auto)
qed


text \<open>What the loop has claimed is what the takeover registers and points here.\<close>

lemma takeover_tail_loop:
  assumes "ec2_api_ok A (tagPrefix c) RV T" and "EC2Client (rcfg E) = realEC2Client A c"
    and "leases_keep_routes (leases E) RV" and "run (takeover_tail E dead ts) w = ((), w')"
    and "run (takeover_loop E [] ts) w = (cl, w1)"
  shows "(\<forall>k \<in> set cl. RV (outside w') k = Some (ToInstance (cfg_InstanceID (rcfg E)))) \<and>
    draining w' = draining w \<and>
    (\<forall>k. foreignOwnedTables (rec_st w') k = (if k \<in> set cl then Some dead else foreignOwnedTables (rec_st w) k))"
proof -
  note loop = ec2_real.takeover_loop_run [OF assms(1,2,5)]
  obtain e1 m where w1: "w1 = w\<lparr>outside := e1, reg := (reg w)\<lparr>RouteTableOwned := m\<rparr>\<rparr>"
    using loop by (auto simp: only_owned_def)
  obtain t e2 where t: "time_now (leases E) e1 = (t, e2)" by fastforce
  have "RV e2 = RV e1" using assms(3) t by (simp add: leases_keep_routes_def keeps_routes_def)
  moreover have "outside w' = e2" and "rec_st w' = (if cl = [] then rec_st w else add_foreign dead cl (rec_st w))"
    and "draining w' = draining w"
    using assms(4,5) t by (cases "cl = []"; auto simp: takeover_tail_def w1 AddForeignTables_def count_failover_def)+
  ultimately show ?thesis
    using loop by (cases cl) (auto simp: w1 add_foreign_at)
qed

lemma takeover_run:
  assumes "ec2_api_ok A (tagPrefix c) RV T" and "EC2Client (rcfg E) = realEC2Client A c"
    and "leases_keep_routes (leases E) RV" and "\<not> (standDownOnDrain E \<and> draining w)"
    and "run (Acquire (leases E) (leaseMgr E) dead (podName E)) (outside w) = ((ok, err), e1)"
    and "run (DiscoverRouteTables (EC2Client (rcfg E)) dead) e1 = (d, e2)"
    and "run (takeover E dead) w = ((), w')"
  shows "if ok \<and> err = None \<and> is_ok d then run (takeover_tail E dead (projr d)) (w\<lparr>outside := e2\<rparr>) = ((), w')
    else w' = w\<lparr>outside := outside w'\<rparr> \<and> RV (outside w') = RV (outside w)"
proof -
  have "RV e1 = RV (outside w)" by (rule lease_run_routes [OF Acquire_keeps_routes [OF assms(3)] assms(5)])
  moreover have "RV e2 = RV e1"
    using ec2_real.discover_reads [OF assms(1)] assms(2,6) by auto
  ultimately show ?thesis
    using assms(4-7) by (cases err; cases d; cases ok) (auto simp: takeover_def)
qed

section \<open>Draining\<close>

text \<open>A draining agent takes nothing: its lease tick, its sweep and its takeovers do nothing.\<close>

lemma draining_idle:
  assumes "standDownOnDrain E" and "draining w"
  shows "run (leaseTick E) w = ((), w)" and "run (sweepStep E) w = ((), w)" and "run (takeover E az) w = ((), w)"
  using assms by (simp_all add: leaseTick_def sweepStep_def takeover_def)

lemma run_clear_owned: "\<exists>m. run (clear_owned ids) w = ((), w\<lparr>reg := (reg w)\<lparr>RouteTableOwned := m\<rparr>\<rparr>) \<and>
    (\<forall>k. m k = (if k \<in> set ids then Some 0 else RouteTableOwned (reg w) k))"
proof (induction ids arbitrary: w)
  case Nil
  then show ?case by (auto simp: clear_owned_def intro!: exI [of _ "RouteTableOwned (reg w)"])
next
  case (Cons k ks)
  from Cons.IH [of "w\<lparr>reg := (reg w)\<lparr>RouteTableOwned := (RouteTableOwned (reg w))(k \<mapsto> 0)\<rparr>\<rparr>"]
  show ?case by (auto simp: clear_owned_def)
qed

text \<open>A reconcile tick that does not serve gives its own tables up and reports standby.\<close>

lemma draining_serve_step:
  assumes "standDownOnDrain E" and "draining w" and "run (serveStep E) w = ((), w')"
  shows "outside w' = outside w \<and> ownedTables (rec_st w') = [] \<and>
    foreignOwnedTables (rec_st w') = foreignOwnedTables (rec_st w) \<and> Standby (reg w') = 1 \<and>
    (\<forall>k \<in> set (ownedTables (rec_st w)). RouteTableOwned (reg w') k = Some 0)"
proof -
  let ?w1 = "w\<lparr>rec_st := (rec_st w)\<lparr>ownedTables := []\<rparr>\<rparr>"
  obtain m where c: "run (clear_owned (ownedTables (rec_st w))) ?w1 = ((), ?w1\<lparr>reg := (reg ?w1)\<lparr>RouteTableOwned := m\<rparr>\<rparr>)"
    and m: "\<forall>k. m k = (if k \<in> set (ownedTables (rec_st w)) then Some 0 else RouteTableOwned (reg ?w1) k)"
    using run_clear_owned [of "ownedTables (rec_st w)" ?w1] by blast
  with assms show ?thesis
    by (auto simp: serveStep_def DropOwnTables_def set_standby_def boolToFloat_def)
qed

section \<open>Readiness\<close>

text \<open>Only \<open>set_ready\<close> writes the readiness flag.\<close>

definition keeps_ready :: "(('e, 'x) agentw_scheme, 'a) prog \<Rightarrow> bool" where
  "keeps_ready p \<longleftrightarrow> anyhow (\<lambda>w w'. ready w' = ready w) (\<lambda>_. True) p"

lemma keeps_ready_run: "keeps_ready p \<Longrightarrow> run p w = (a, w') \<Longrightarrow> ready w' = ready w"
  unfolding keeps_ready_def using anyhow_run [of _ _ p "\<lambda>v. ready v = ready w" w a w'] by blast

lemma keeps_ready_Ret: "keeps_ready (Ret a)"
  by (simp add: keeps_ready_def)

lemma keeps_ready_call: "(\<And>w r w'. f w = (r, w') \<Longrightarrow> ready w' = ready w) \<Longrightarrow> keeps_ready (call f)"
  unfolding keeps_ready_def by (rule anyhow_call) simp

lemma keeps_ready_bind: "keeps_ready p \<Longrightarrow> (\<And>a. keeps_ready (k a)) \<Longrightarrow> keeps_ready (bind p k)"
  unfolding keeps_ready_def by (rule anyhow_bind)

lemma keeps_ready_each: "(\<And>x. x \<in> set xs \<Longrightarrow> keeps_ready (b x)) \<Longrightarrow> keeps_ready (for_each b xs)"
  by (induction xs) (auto intro: keeps_ready_Ret keeps_ready_bind)

lemma keeps_ready_out:
  fixes p :: "('e, 'r) prog"
  shows "keeps_ready (out p :: (('e, 'x) agentw_scheme, 'r) prog)"
proof (induction p)
  case (Act f)
  show ?case
    unfolding keeps_ready_def anyhow_def out_def
  proof (simp, intro allI, rule safe.safe_Act, intro conjI)
    fix w w' :: "('e, 'x) agentw_scheme" and q :: "(('e, 'x) agentw_scheme, 'r) prog" and w''
    assume s: "map_prod (\<lambda>q. zoom outside (\<lambda>v w. w\<lparr>outside := v\<rparr>) q) (\<lambda>v. w'\<lparr>outside := v\<rparr>) (f (outside w')) = (q, w'')"
    obtain p v where f: "f (outside w') = (p, v)" by fastforce
    with s show "ready w'' = ready w'" by auto
    have "keeps_ready (out p :: (('e, 'x) agentw_scheme, 'r) prog)"
      by (rule Act.IH [of "f (outside w')" p]) (use f in \<open>auto intro: rangeI [of f "outside w'", unfolded f]\<close>)
    with f s show "safe (\<lambda>_ _. True) (\<lambda>w w'. ready w' = ready w) (\<lambda>a _. True) q w''"
      by (auto simp: keeps_ready_def anyhow_def out_def)
  qed
qed (simp add: out_def keeps_ready_Ret)

lemma keeps_ready_locked: "keeps_ready (locked f)"
  unfolding locked_def by (rule keeps_ready_call) (auto split: prod.splits)

lemma keeps_ready_metric: "keeps_ready (metric f)"
  unfolding metric_def by (rule keeps_ready_call) auto

lemmas keeps_ready_rules = keeps_ready_Ret keeps_ready_bind keeps_ready_each keeps_ready_out
  keeps_ready_locked keeps_ready_metric

lemma keeps_ready_claims: "keeps_ready (claim_own_loop cfg conf rts)" "keeps_ready (takeover_loop E cl rts)"
  "keeps_ready (vacate_loop cfg foreign vac rts)"
  by (induction rts arbitrary: conf cl vac)
    (auto intro!: keeps_ready_rules simp: set_owned_def split: option.split)

lemma keeps_ready_foreign_loop: "keeps_ready (foreign_loop cfg foreign vac azs)"
  by (induction azs arbitrary: vac) (auto intro!: keeps_ready_rules keeps_ready_claims split: sum.split)

lemma keeps_ready_parts:
  "keeps_ready (ensureOwnLease E)" "keeps_ready (ClaimOwnRouteTables (rcfg E))" "keeps_ready (takeover E az)"
  "keeps_ready (clear_owned ids)" "keeps_ready (isDraining E)" "keeps_ready (updateMetrics E)"
  by (auto intro!: keeps_ready_rules keeps_ready_claims keeps_ready_call
      simp: ensureOwnLease_def acquireOwnLease_def ClaimOwnRouteTables_def claim_discovered_def
        cacheFallbackTargets_def cache_one_def takeover_def takeover_tail_def AddForeignTables_def
        count_failover_def clear_owned_def set_owned_def isDraining_def IsDraining_def updateMetrics_def conntrackStats_def
        OwnedTables_def CanFallbackToNAT_def split: option.split sum.split)

lemma keeps_ready_steps:
  "keeps_ready (serveStep E)" "keeps_ready (vacateStep E)" "keeps_ready (sweepStep E)"
  by (auto intro!: keeps_ready_rules keeps_ready_parts keeps_ready_foreign_loop
      simp: serveStep_def serveOwnAZ_def DropOwnTables_def set_standby_def vacateStep_def ReconcileForeign_def
        sweepStep_def coverExpired_def CoversAZ_def split: option.split sum.split bool.split)

lemma reconcileTick_run:
  assumes "run (SetupDataPlane (rcfg E)) w = (err, w1)" and "run (reconcileTick E) w = ((), w')"
  shows "(err \<noteq> None \<longrightarrow> w' = w1\<lparr>ready := False\<rparr>) \<and> ready w' = (err = None)"
proof (cases err)
  case (Some x)
  with assms show ?thesis by (auto simp: reconcileTick_def set_ready_def)
next
  case None
  let ?rest = "bind (serveStep E) (\<lambda>_. bind (vacateStep E) (\<lambda>_. bind (sweepStep E) (\<lambda>_. updateMetrics E)))"
  have "keeps_ready ?rest"
    by (intro keeps_ready_bind keeps_ready_steps keeps_ready_parts)
  moreover have "run ?rest (w1\<lparr>ready := True\<rparr>) = ((), w')"
    using assms None by (simp add: reconcileTick_def set_ready_def)
  ultimately have "ready w' = True" by (auto dest: keeps_ready_run)
  with None show ?thesis by simp
qed

section \<open>Leases given back\<close>

definition freed :: "'e agent_env \<Rightarrow> ('e \<Rightarrow> kstore) \<Rightarrow> string \<Rightarrow> 'e \<Rightarrow> bool" where
  "freed E V az e \<longleftrightarrow> (\<forall>l. stored E V az e = Some l \<longrightarrow> holderIdentity l \<noteq> Some (podName E))"

lemma outside_onlyD:
  assumes "w' = w\<lparr>outside := e\<rparr>"
  shows "rec_st w' = rec_st w" and "ready w' = ready w" and "draining w' = draining w" and "reg w' = reg w"
  by (simp_all add: assms)

text \<open>Only Leases of the agent itself disappear.\<close>

definition frees :: "string \<Rightarrow> kstore \<Rightarrow> kstore \<Rightarrow> bool" where
  "frees h S S' \<longleftrightarrow> (\<forall>k. objs S' k = objs S k \<or>
     objs S' k = None \<and> (\<exists>l. objs S k = Some l \<and> holderIdentity l = Some h))"

lemma frees_refl: "frees h S S"
  by (simp add: frees_def)

lemma frees_trans: "frees h S S' \<Longrightarrow> frees h S' S'' \<Longrightarrow> frees h S S''"
  unfolding frees_def by metis

lemma frees_freed: "frees (podName E) (V e) (V e') \<Longrightarrow> freed E V az e \<Longrightarrow> freed E V az e'"
  unfolding frees_def freed_def stored_def by (metis option.distinct(1))

definition give_back :: "'e agent_env \<Rightarrow> string \<Rightarrow> (('e, 'x) agentw_scheme, unit) prog" where
  "give_back E az = bind (out (Release (leases E) (leaseMgr E) az (podName E))) (\<lambda>_. Ret ())"

lemma run_give_back:
  assumes "lease_api_up (leases E) V" and "run (give_back E az) w = (u, w')"
  shows "w' = w\<lparr>outside := outside w'\<rparr> \<and> frees (podName E) (V (outside w)) (V (outside w')) \<and>
    freed E V az (outside w')"
proof -
  let ?mine = "\<exists>l. objs (V (outside w)) (lease_key_of E az) = Some l \<and> holderIdentity l = Some (podName E)"
  have "\<exists>e'. run (Release (leases E) (leaseMgr E) az (podName E)) (outside w) = (None, e') \<and>
      objs (V e') = (if ?mine then (objs (V (outside w)))(lease_key_of E az := None) else objs (V (outside w)))"
  proof (cases ?mine)
    case True
    with Release_frees [OF assms(1), where m = "leaseMgr E" and az = az and h = "podName E" and e = "outside w"]
    show ?thesis by (auto simp: lease_key_of_def)
  next
    case False
    with Release_spares [OF assms(1), where m = "leaseMgr E" and az = az and h = "podName E" and e = "outside w"]
    show ?thesis by (auto simp: lease_key_of_def)
  qed
  then obtain e' where rel: "run (Release (leases E) (leaseMgr E) az (podName E)) (outside w) = (None, e')"
    and objs: "objs (V e') = (if ?mine then (objs (V (outside w)))(lease_key_of E az := None) else objs (V (outside w)))"
    by blast
  with assms(2) have "w' = w\<lparr>outside := e'\<rparr>" by (simp add: give_back_def)
  with objs show ?thesis by (auto simp: frees_def freed_def stored_def split: if_splits)
qed

lemma run_give_back_all:
  assumes up: "lease_api_up (leases E) V" and "run (for_each (give_back E) azs) w = (u, w')"
  shows "w' = w\<lparr>outside := outside w'\<rparr> \<and> frees (podName E) (V (outside w)) (V (outside w')) \<and>
    (\<forall>az \<in> set azs. freed E V az (outside w'))"
  using assms(2)
proof (induction azs arbitrary: w)
  case Nil
  then show ?case by (simp add: frees_refl)
next
  case (Cons az azs)
  obtain w1 where g: "run (give_back E az) w = ((), w1)" by (cases "run (give_back E az) w") auto
  note step = run_give_back [OF up g]
  have "run (for_each (give_back E) azs) w1 = (u, w')" using Cons.prems g by simp
  note IH = Cons.IH [OF this]
  have "freed E V az (outside w')" using step IH by (blast intro: frees_freed)
  moreover have "w' = w\<lparr>outside := outside w'\<rparr>" using step IH by (metis recw.update_convs(2) recw.surjective)
  ultimately show ?case using step IH frees_trans by auto
qed

text \<open>The peers' sockets do not write Leases.\<close>

definition peers_quiet :: "'e agent_env \<Rightarrow> ('e \<Rightarrow> kstore) \<Rightarrow> bool" where
  "peers_quiet E V \<longleftrightarrow> (\<forall>c m e. objs (V (snd (peer_send E c m e))) = objs (V e))"

lemma run_step_downs:
  assumes K: "lease_api_ok (leases E) V" and q: "peers_quiet E V"
    and "run (for_each (stepDownPeer E) cs) w = (u, w')"
  shows "w' = w\<lparr>outside := outside w'\<rparr> \<and> objs (V (outside w')) = objs (V (outside w))"
  using assms(3)
proof (induction cs arbitrary: w)
  case (Cons c cs)
  obtain t e1 where t: "time_now (leases E) (outside w) = (t, e1)" by fastforce
  let ?e2 = "snd (peer_send E c (Encode \<lparr>Type = MsgStepDown, Timestamp = word_of_int t\<rparr>) e1)"
  have "run (stepDownPeer E c) w = ((), w\<lparr>outside := ?e2\<rparr>)"
    using t by (simp add: stepDownPeer_def case_prod_beta)
  with Cons.prems have "run (for_each (stepDownPeer E) cs) (w\<lparr>outside := ?e2\<rparr>) = (u, w')" by simp
  from Cons.IH [OF this] have "w' = w\<lparr>outside := outside w'\<rparr>" and "objs (V (outside w')) = objs (V ?e2)" by simp_all
  moreover have "objs (V e1) = objs (V (outside w))"
    using time_now_spec [OF K t] by (simp add: reads_def quiet_def)
  moreover have "objs (V ?e2) = objs (V e1)" using q unfolding peers_quiet_def by blast
  ultimately show ?case by simp
qed simp

lemma frees_objs: "frees h S S' \<Longrightarrow> objs S'' = objs S' \<Longrightarrow> frees h S S''"
  by (simp add: frees_def)

lemma shutdown_run:
  assumes up: "lease_api_up (leases E) V" and q: "peers_quiet E V" and ko: "lists_keys (key_order_of E)"
    and fin: "finite (dom (foreignOwnedTables (rec_st w)))" and run: "run (shutdown E) w = ((), w')"
  shows "\<not> ready w' \<and> frees (podName E) (V (outside w)) (V (outside w')) \<and>
    (\<forall>az. az = az_of E \<or> covers az (rec_st w) \<longrightarrow> freed E V az (outside w'))"
proof -
  let ?w0 = "w\<lparr>ready := False\<rparr>"
  obtain w1 where g: "run (give_back E (az_of E)) ?w0 = ((), w1)" by (cases "run (give_back E (az_of E)) ?w0") auto
  note first = run_give_back [OF up g]
  have rec: "rec_st w1 = rec_st w" and rdy: "\<not> ready w1"
    using outside_onlyD [OF first [THEN conjunct1]] by simp_all
  let ?azs = "key_order_of E (ran (foreignOwnedTables (rec_st w)))"
  obtain w2 where f: "run (for_each (give_back E) ?azs) w1 = ((), w2)"
    by (cases "run (for_each (give_back E) ?azs) w1") auto
  have "run (for_each (stepDownPeer E) (peerClients w2)) w2 = ((), w')"
    using run g f rec by (auto simp: shutdown_def give_back_def [abs_def] set_ready_def ForeignAZs_def split: prod.splits)
  note down = run_step_downs [OF up_ok [OF up] q this]
  have rdy2: "ready w' = ready w2" using outside_onlyD(2) [OF down [THEN conjunct1]] .
  note r = run_give_back_all [OF up f]
  have rest: "w2 = w1\<lparr>outside := outside w2\<rparr> \<and> frees (podName E) (V (outside w1)) (V (outside w')) \<and>
      (\<forall>az \<in> set ?azs. freed E V az (outside w'))"
    using r down by (auto simp: freed_def stored_def intro: frees_objs)
  have azs: "set ?azs = ran (foreignOwnedTables (rec_st w))"
    by (rule lists_keysD [OF ko]) (use fin in \<open>auto simp: finite_ran\<close>)
  have "freed E V (az_of E) (outside w')" using first rest by (blast intro: frees_freed)
  moreover have "\<not> ready w'" using outside_onlyD [OF rest [THEN conjunct1]] rdy rdy2 by simp
  moreover have "frees (podName E) (V (outside w)) (V (outside w'))" using first rest frees_trans by fastforce
  ultimately show ?thesis using rest azs by (auto simp: covers_def)
qed

text \<open>The drain monitor: on the transition the own Lease is given back, with the flag set.\<close>

lemma drainTick_run:
  assumes "lease_api_up (leases E) V" and "node_get E (nodeName w) (outside w) = (Inr n, e1)"
    and "V e1 = V (outside w)" and "run (drainTick E) w = ((), w')"
  shows "draining w' = NodeIsDraining n \<and> frees (podName E) (V (outside w)) (V (outside w')) \<and>
    (NodeIsDraining n \<and> \<not> draining w \<longrightarrow> freed E V (az_of E) (outside w')) \<and>
    (\<not> (NodeIsDraining n \<and> \<not> draining w) \<longrightarrow> outside w' = e1)"
proof (cases "NodeIsDraining n \<and> \<not> draining w")
  case True
  let ?w1 = "w\<lparr>outside := e1, draining := True\<rparr>"
  have "run (give_back E (az_of E)) ?w1 = ((), w')"
    using assms(2,4) True by (simp add: drainTick_def run_drain_check onDrain_def give_back_def)
  from run_give_back [OF assms(1) this] have "w' = ?w1\<lparr>outside := outside w'\<rparr>"
    and "frees (podName E) (V e1) (V (outside w'))" and "freed E V (az_of E) (outside w')" by auto
  moreover from this(1) have "draining w'" by (metis outside_onlyD(3) drainw.select_convs(2) drainw.surjective drainw.update_convs(2))
  ultimately show ?thesis using True assms(3) by simp
next
  case False
  with assms(2,4) have "w' = w\<lparr>outside := e1, draining := NodeIsDraining n\<rparr>"
    by (auto simp: drainTick_def run_drain_check)
  with False assms(3) show ?thesis by (auto simp: frees_refl)
qed

section \<open>Leases of other AZs\<close>

text \<open>
  A covered AZ whose Lease is refused is given up at once: its tables are forgotten and their
  gauges cleared. An error keeps everything.
\<close>

lemma renewForeign_run:
  assumes ko: "lists_keys (key_order_of E)" and fin: "finite (dom (foreignOwnedTables (rec_st w)))"
    and ren: "run (Renew (leases E) (leaseMgr E) az (podName E)) (outside w) = ((ok, err), e1)"
    and run: "run (renewForeign E az) w = ((), w')"
  shows "if err = None \<and> \<not> ok
    then (\<forall>k. foreignOwnedTables (rec_st w') k =
          (if foreignOwnedTables (rec_st w) k = Some az then None else foreignOwnedTables (rec_st w) k)) \<and>
      (\<forall>k. foreignOwnedTables (rec_st w) k = Some az \<longrightarrow> RouteTableOwned (reg w') k = Some 0) \<and>
      outside w' = e1
    else w' = w\<lparr>outside := e1\<rparr>"
proof (cases "err = None \<and> \<not> ok")
  case False
  with ren run show ?thesis by (auto simp: renewForeign_def split: option.splits)
next
  case True
  obtain ids s' where rel: "release_foreign (key_order_of E) az (rec_st w) = (ids, s')" by fastforce
  let ?w1 = "w\<lparr>outside := e1, rec_st := s'\<rparr>"
  obtain m where c: "run (clear_owned ids) ?w1 = ((), ?w1\<lparr>reg := (reg ?w1)\<lparr>RouteTableOwned := m\<rparr>\<rparr>)"
    and m: "\<forall>k. m k = (if k \<in> set ids then Some 0 else RouteTableOwned (reg ?w1) k)"
    using run_clear_owned [of ids ?w1] by blast
  have w': "w' = ?w1\<lparr>reg := (reg ?w1)\<lparr>RouteTableOwned := m\<rparr>\<rparr>"
    using True ren run rel c by (simp add: renewForeign_def ReleaseForeignAZ_def)
  from release_foreign_spec [OF ko fin rel] True m show ?thesis by (auto simp: w')
qed

end
