(* ===== verification/Agent_Scenarios.thy ===== *)
theory Agent_Scenarios
  imports Agent_Example Agent_Function
begin

text \<open>
  Two agents of the simulated world, one of each AZ, and the takeover the second makes
  when the Lease of the first has expired and its connections are refused.
\<close>

definition agent_b :: "sim agent_env" where
  "agent_b = sim_env ''az2'' ''pod-b'' ''i-b'' False"

lemma sim_discover_az1:
  assumes "sim_routes w = sim_routes sim_start"
  shows "run (discoverRouteTables (sim_ec2 two_tables) sim_settings ''az1'') w =
   (Inr [\<lparr>ID = ''rtb-1'', rt_AZ = ''az1'', VpcID = ''vpc-1'', NatGatewayID = ''nat-1'', InstanceID = ''''\<rparr>], w)"
  by (simp add: discoverRouteTables_def sim_ec2_def sim_settings_def managed_filter_def two_tables_def
      sim_tag_def sim_described_def route_table_entry_def assms sim_start_def str_of_def)

text \<open>Twenty seconds after its renewal the Lease of the first AZ can be had.\<close>

lemma agent_b_acquires:
  assumes "sim_mem w = mem_a 20000000000"
  obtains w' where "run (Acquire sim_leases (mgr_in ''az2'') ''az1'' ''pod-b'') w = ((True, None), w')"
    and "sim_routes w' = sim_routes w"
proof -
  have wf: "kstore_wf (sim_store w)" by (simp add: sim_store_def assms mem_a_wf)
  have "\<exists>w'. run (Acquire sim_leases (mgr_in ''az2'') ''az1'' ''pod-b'') w = ((True, None), w') \<and>
      leaves (mgr_in ''az2'') ''pod-b'' ''az1'' (sim_store w) (sim_store w')"
    by (rule Acquire_grants [OF sim_leases_up wf])
      (auto simp: sim_store_def assms mem_a_objs mem_a_clock takeover_policy_def lease_a_def IsExpired_def split: if_splits)
  then obtain w' where acq: "run (Acquire sim_leases (mgr_in ''az2'') ''az1'' ''pod-b'') w = ((True, None), w')"
    by blast
  from that [OF acq lease_run_routes [OF Acquire_keeps_routes [OF sim_leases_keep] acq]] show thesis .
qed

lemma agent_b_claims:
  assumes "sim_routes w = sim_routes sim_start"
  shows "\<exists>w'. run (claimRouteTable (sim_ec2 two_tables) ''rtb-1'' ''i-b'') w = (None, w') \<and>
    sim_routes w' ''rtb-1'' = Some (ToInstance ''i-b'')"
  using assms by (simp add: claimRouteTable_def sim_ec2_def sim_start_def isEC2ErrorCode_def wrap_err_def)

lemma sim_time_routes: "sim_routes (snd (time_now sim_leases w)) = sim_routes w"
  by (simp add: sim_leases_def on_mem_def split: prod.splits)

lemma agent_b_takes_over:
  assumes "sim_mem (outside w) = mem_a 20000000000" and "sim_routes (outside w) = sim_routes sim_start"
    and "\<not> draining w"
  shows "\<exists>w'. run (takeover agent_b ''az1'') w = ((), w') \<and>
    sim_routes (outside w') ''rtb-1'' = Some (ToInstance ''i-b'') \<and> foreignOwnedTables (rec_st w') ''rtb-1'' = Some ''az1''"
proof -
  from agent_b_acquires [OF assms(1)] obtain w1
    where acq: "run (Acquire sim_leases (mgr_in ''az2'') ''az1'' ''pod-b'') (outside w) = ((True, None), w1)"
      and r1: "sim_routes w1 = sim_routes sim_start" using assms(2) by metis
  from agent_b_claims [OF r1] obtain w2
    where claim: "run (claimRouteTable (sim_ec2 two_tables) ''rtb-1'' ''i-b'') w1 = (None, w2)"
      and r2: "sim_routes w2 ''rtb-1'' = Some (ToInstance ''i-b'')" by blast
  obtain t w3 where now: "time_now sim_leases w2 = (t, w3)" and r3: "sim_routes w3 = sim_routes w2"
    using sim_time_routes [of w2] by (cases "time_now sim_leases w2") auto
  show ?thesis
    using r2 r3 now
    by (simp add: takeover_def takeover_tail_def agent_b_def isDraining_def IsDraining_def count_failover_def assms(3) acq
        sim_discover_az1 [OF r1] claim set_owned_def AddForeignTables_def add_foreign_at)
qed

text \<open>
  The cluster of both: each agent has a lease loop and a client of the other; the one that
  watches the first AZ finds its connections refused.
\<close>

definition pair_env :: "nat \<Rightarrow> sim agent_env" where
  "pair_env i = (if i = 0 then sim_env ''az1'' ''pod-a'' ''i-a'' False else agent_b)"

definition pair_threads :: "nat \<times> bool \<Rightarrow> (sim agentw, unit) prog" where
  "pair_threads = (\<lambda>(i, b).
     if b then bind (peerSession (pair_env i) 2 (if i = 0 then ''az2'' else ''az1'') ''peer'' [DialFails, DialFails]) (\<lambda>_. Ret ())
     else bind (leaseTick (pair_env i)) (\<lambda>_. Ret ()))"

definition pair_start :: "int \<Rightarrow> (nat, sim) cluster" where
  "pair_start t = ((\<lambda>_. agentw_start new_rec_state False (mem_a t)), sim_start\<lparr>sim_mem := mem_a t\<rparr>)"

lemma pair_cloud: "cloud_ok (pair_env i) (sim_ec2 two_tables) sim_settings sim_iptables sim_store sim_routes (sim_tag two_tables)"
  by (simp add: pair_env_def agent_b_def sim_cloud_ok)

lemma pair_foreign: "(if i = 0 then ''az2'' else ''az1'') \<noteq> az_of (pair_env i)"
  by (simp add: pair_env_def agent_b_def)

lemma pair_goroutine: "goroutine (pair_env i) (pair_threads (i, t))"
  unfolding pair_threads_def prod.case
  by (cases t) (simp_all only: if_True if_False goroutine.lease_loop goroutine.peer_client [OF pair_foreign] goroutine.idle)

lemma pair_wf: "kstore_wf (sim_store (snd (pair_start t)))"
  by (simp add: pair_start_def sim_store_def mem_a_wf)

lemma agent_view_put: "agent_view i (agent_put i v c) = v"
  by (simp add: agent_view_def agent_put_def)

lemma run_on_agent:
  "run (on_agent i p) (agent_put i w c) = (case run p w of (a, v) \<Rightarrow> (a, agent_put i v c))"
  unfolding on_agent_def
  by (rule run_zoom_put) (simp_all add: agent_view_put, simp add: agent_put_def)

lemma pair_start_put: "pair_start t = agent_put 1 (agentw_start new_rec_state False (mem_a t)) (pair_start t)"
  by (simp add: pair_start_def agent_put_def fun_eq_iff)

lemma pair_refused: "pair_threads (1, True) = bind (peerFailure agent_b ''az1'' ''peer'') (\<lambda>_. Ret ())"
  by (simp add: pair_threads_def pair_env_def peerSession_def Connect_def)

lemma pair_takes_over:
  "\<exists>s. par_reach (agent_threads pair_env pair_threads, pair_start 20000000000) s \<and>
     sim_routes (snd (snd s)) ''rtb-1'' = Some (ToInstance ''i-b'') \<and>
     foreignOwnedTables (rec_st (fst (snd s) 1)) ''rtb-1'' = Some ''az1''"
proof -
  let ?c = "pair_start 20000000000" and ?w = "agentw_start new_rec_state False (mem_a 20000000000)"
  obtain w where w: "run (peerFailure agent_b ''az1'' ''peer'') ?w = ((), w)"
    and R: "sim_routes (outside w) ''rtb-1'' = Some (ToInstance ''i-b'')"
      "foreignOwnedTables (rec_st w) ''rtb-1'' = Some ''az1''"
    using agent_b_takes_over by (force simp: peerFailure_def forget_peer_def)
  have "run (on_agent 1 (pair_threads (1, True))) (agent_put 1 ?w ?c) = ((), agent_put 1 w ?c)"
    by (simp add: run_on_agent pair_refused [unfolded One_nat_def] w)
  then have "run (agent_threads pair_env pair_threads (1, True)) ?c = ((), agent_put 1 w ?c)"
    using pair_start_put by (simp add: agent_threads_def)
  from par_run [where P = "agent_threads pair_env pair_threads", OF this refl] R show ?thesis by (fastforce simp: agent_put_def)
qed

lemma pair_step: "\<exists>s'. par_step (agent_threads pair_env pair_threads, pair_start 0) (1, True) s'"
proof -
  obtain f where "agent_threads pair_env pair_threads (1, True) = Act f"
    by (simp add: agent_threads_def pair_refused [unfolded One_nat_def] on_agent_def peerFailure_def metric_def locked_def call_def)
  then show ?thesis by (cases "f (pair_start 0)") (auto intro: par_act)
qed

end
