(* ===== verification/Agent_Properties.thy ===== *)
theory Agent_Properties
  imports Agent_Scenarios
begin

text \<open>
  The properties of the agent: of a whole cluster under every interleaving, and of one
  agent's goroutines run alone. The examples run in the simulated world.
\<close>

section \<open>The cluster\<close>

text \<open>
  C2: However the goroutines of all agents interleave, a default route that points at an
  instance either pointed there at the start, or the table carries the AZ tag of a Lease that
  an agent running on that instance has held.
\<close>

theorem cluster_routes_backed:
  fixes E :: "'i \<Rightarrow> 'e agent_env"
  assumes "\<And>i. cloud_ok (E i) (A i) (c i) (I i) V RV T" and "\<And>i t. goroutine (E i) (P (i, t))"
    and "kstore_wf (V (snd x0))" and "par_reach (agent_threads E P, x0) s"
    and "RV (snd (snd s)) k = Some (ToInstance inst)"
  shows "RV (snd x0) k = Some (ToInstance inst) \<or>
    (\<exists>i. cfg_InstanceID (rcfg (E i)) = inst \<and> served (E i) V (T k) (snd (snd s)))"
proof -
  let ?J = "\<lambda>e. RV e k = Some (ToInstance inst) \<longrightarrow> RV (snd x0) k = Some (ToInstance inst) \<or>
    (\<exists>i. cfg_InstanceID (rcfg (E i)) = inst \<and> served (E i) V (T k) e)"
  have keep: "?J e'" if "?J e" and g: "agent_guar (E i) V RV T e e'" for i e e'
  proof -
    have more: "served (E j) V az e \<Longrightarrow> served (E j) V az e'" for j az
      using agent_guar_rely [OF g] by (auto simp: served_def intro: has_held_stable)
    from g that(1) more show ?thesis
      by (auto simp: agent_guar_def route_part_def split: if_splits)
  qed
  have "?J (snd (snd s))"
    using cluster_reach [OF assms(1,2,3,4), where J = ?J] keep by blast
  with assms(5) show ?thesis by blast
qed

theorem cluster_routes_backed_witness:
  "\<exists>s. par_reach (agent_threads pair_env pair_threads, pair_start 20000000000) s \<and>
     sim_routes (snd (snd s)) ''rtb-1'' = Some (ToInstance ''i-b'') \<and>
     served (pair_env 1) sim_store ''az1'' (snd (snd s))"
proof -
  obtain s where r: "par_reach (agent_threads pair_env pair_threads, pair_start 20000000000) s"
    and R: "sim_routes (snd (snd s)) ''rtb-1'' = Some (ToInstance ''i-b'')"
    using pair_takes_over by blast
  have "sim_routes (snd (pair_start 20000000000)) ''rtb-1'' \<noteq> Some (ToInstance ''i-b'')"
    by (simp add: pair_start_def sim_start_def)
  with cluster_routes_backed [OF pair_cloud pair_goroutine pair_wf r R]
  obtain i where "cfg_InstanceID (rcfg (pair_env i)) = ''i-b''"
    and s: "served (pair_env i) sim_store (sim_tag two_tables ''rtb-1'') (snd (snd s))" by blast
  then have "pair_env i = pair_env 1" by (auto simp: pair_env_def agent_b_def split: if_splits)
  with s have "served (pair_env 1) sim_store ''az1'' (snd (snd s))"
    by (simp add: sim_tag_def two_tables_def)
  with r R show ?thesis by blast
qed



section \<open>Serving the own AZ\<close>



section \<open>Takeover\<close>



section \<open>Readiness\<close>

text \<open>
  C21: After a reconcile tick the agent is ready exactly when the data plane was set up in
  it; then the interface was masqueraded and forwarding was on when serving began. When the
  set-up fails, the tick ends there: no Lease, no route and no bookkeeping is touched after it.
\<close>

theorem ready_means_data_plane:
  assumes "iptables_ok I N" and "NATManager (rcfg E) = iptablesManager I"
    and "run (SetupDataPlane (rcfg E)) w = (err, w1)" and "run (reconcileTick E) w = ((), w')"
  shows "ready w' = (err = None) \<and>
    (ready w' \<longrightarrow> masqueraded (cfg_Iface (rcfg E)) (N (outside w1)) \<and> forwarding (N (outside w1))) \<and>
    (\<not> ready w' \<longrightarrow> w' = w1\<lparr>ready := False\<rparr>)"
proof (cases err)
  case None
  from nat_real.SetupDataPlane_run [OF assms(1,2) assms(3) [unfolded None]] reconcileTick_run [OF assms(3,4)] None
  show ?thesis by simp
next
  case (Some x)
  with reconcileTick_run [OF assms(3,4)] show ?thesis by simp
qed

theorem ready_means_data_plane_witness:
  "\<exists>w'. run (reconcileTick agent_b) (agentw_start new_rec_state False (mem_a 0)) = ((), w') \<and> ready w'"
proof -
  let ?w = "agentw_start new_rec_state False (mem_a 0)"
  obtain err w1 where sd: "run (SetupDataPlane (rcfg agent_b)) ?w = (err, w1)" by fastforce
  have "err = None"
    using sd by (simp add: SetupDataPlane_def agent_b_def sim_env_def ensureMasquerade_def enableIPForward_def
        writeSysctl_def sim_iptables_def on_kernel_def fakeIPT_def sim_start_def
        kube_proxy_kernel_def split: prod.splits)
  obtain w' where run: "run (reconcileTick agent_b) ?w = ((), w')" by (cases "run (reconcileTick agent_b) ?w") auto
  have "NATManager (rcfg agent_b) = iptablesManager sim_iptables" by (simp add: agent_b_def)
  from ready_means_data_plane [OF sim_iptables_ok this sd run] \<open>err = None\<close> run show ?thesis by auto
qed

section \<open>Draining and stopping\<close>

text \<open>
  C23: While the node is draining, the lease tick, the sweep and every takeover do
  nothing at all, and the serve step of a reconcile tick touches neither Leases nor routes: it
  gives up the agent's own tables, clears their gauges and reports standby.
\<close>

theorem draining_agent_stands_down:
  assumes "standDownOnDrain E" and "draining w"
  shows "run (leaseTick E) w = ((), w) \<and> run (sweepStep E) w = ((), w) \<and> run (takeover E az) w = ((), w) \<and>
    (let w' = snd (run (serveStep E) w) in outside w' = outside w \<and> ownedTables (rec_st w') = [] \<and>
      foreignOwnedTables (rec_st w') = foreignOwnedTables (rec_st w) \<and> Standby (reg w') = 1 \<and>
      (\<forall>k \<in> set (ownedTables (rec_st w)). RouteTableOwned (reg w') k = Some 0))"
proof -
  have "run (serveStep E) w = ((), snd (run (serveStep E) w))" by (cases "run (serveStep E) w") simp
  from draining_serve_step [OF assms this] draining_idle [OF assms] show ?thesis by (simp add: Let_def)
qed

theorem draining_agent_stands_down_witness:
  "Standby (reg (snd (run (serveStep agent_b) (agentw_start owning_state True (mem_a 0))))) = 1"
  using draining_agent_stands_down [of agent_b "agentw_start owning_state True (mem_a 0)"]
  by (simp add: agent_b_def Let_def)







end
