(* ===== verification/Agent_Peers.thy ===== *)
theory Agent_Peers
  imports Agent_Function
begin

text \<open>
  The peer watcher of the agent: at most one client per AZ, never one for the own AZ, and
  what ends a client.
\<close>

definition clients_grow :: "'e agent_env \<Rightarrow> ('e, 'x) agentw_scheme \<Rightarrow> ('e, 'x) agentw_scheme \<Rightarrow> bool" where
  "clients_grow E w w' \<longleftrightarrow> (\<exists>new. peerClients w' = peerClients w @ new \<and> distinct (map fst new) \<and>
     set (map fst new) \<inter> connectedAZs w = {} \<and> az_of E \<notin> set (map fst new) \<and>
     connectedAZs w' = connectedAZs w \<union> set (map fst new))"

lemma clients_grow_refl: "clients_grow E w w"
  by (simp add: clients_grow_def)

lemma clients_grow_trans:
  assumes "clients_grow E w1 w2" and "clients_grow E w2 w3"
  shows "clients_grow E w1 w3"
proof -
  from assms obtain a b where
    a: "peerClients w2 = peerClients w1 @ a" "distinct (map fst a)" "set (map fst a) \<inter> connectedAZs w1 = {}"
      "az_of E \<notin> set (map fst a)" "connectedAZs w2 = connectedAZs w1 \<union> set (map fst a)" and
    b: "peerClients w3 = peerClients w2 @ b" "distinct (map fst b)" "set (map fst b) \<inter> connectedAZs w2 = {}"
      "az_of E \<notin> set (map fst b)" "connectedAZs w3 = connectedAZs w2 \<union> set (map fst b)"
    unfolding clients_grow_def by blast
  show ?thesis
    unfolding clients_grow_def
    by (rule exI [of _ "a @ b"]) (use a b in auto)
qed

lemma forget_stale_keeps [simp]:
  "connectedAZs (forget_stale az n w) = connectedAZs w" "peerClients (forget_stale az n w) = peerClients w"
  "outside (forget_stale az n w) = outside w"
  by (simp_all add: forget_stale_def Let_def)

lemma discover_pod_run:
  "clients_grow E w (snd (run (discover_pod E p) w)) \<and>
   (let az = lookup_str (pod_labels p) (AZLabelKey E) in
    az \<noteq> az_of E \<longrightarrow> PodIP p \<noteq> '''' \<longrightarrow> az \<in> connectedAZs (snd (run (discover_pod E p) w)))"
proof -
  let ?az = "lookup_str (pod_labels p) (AZLabelKey E)"
  let ?w' = "snd (run (discover_pod E p) w)"
  have "?w' = w" if "?az = az_of E \<or> PodIP p = '''' \<or> ?az \<in> connectedAZs w"
    using that by (auto simp: discover_pod_def Let_def mark_connected_def)
  moreover have "peerClients ?w' = peerClients w @ [(?az, pod_NodeName p, PodIP p @ '':'' @ Itoa (peerPort E))] \<and>
      connectedAZs ?w' = insert ?az (connectedAZs w)"
    if "\<not> (?az = az_of E \<or> PodIP p = '''' \<or> ?az \<in> connectedAZs w)"
    using that by (simp add: discover_pod_def Let_def mark_connected_def)
  ultimately show ?thesis
    by (cases "?az = az_of E \<or> PodIP p = '''' \<or> ?az \<in> connectedAZs w")
      (auto simp: clients_grow_def Let_def)
qed

lemma discover_pods_run:
  "clients_grow E w (snd (run (for_each (discover_pod E) pods) w)) \<and>
   (\<forall>p \<in> set pods. lookup_str (pod_labels p) (AZLabelKey E) \<noteq> az_of E \<longrightarrow> PodIP p \<noteq> '''' \<longrightarrow>
     lookup_str (pod_labels p) (AZLabelKey E) \<in> connectedAZs (snd (run (for_each (discover_pod E) pods) w)))"
proof (induction pods arbitrary: w)
  case Nil
  then show ?case by (simp add: clients_grow_refl)
next
  case (Cons p ps)
  let ?w1 = "snd (run (discover_pod E p) w)"
  have run: "snd (run (for_each (discover_pod E) (p # ps)) w) = snd (run (for_each (discover_pod E) ps) ?w1)"
    by (simp add: case_prod_beta)
  note step = discover_pod_run [of E w p, unfolded Let_def]
  note IH = Cons.IH [of ?w1]
  have "connectedAZs ?w1 \<subseteq> connectedAZs (snd (run (for_each (discover_pod E) ps) ?w1))"
    using IH by (auto simp: clients_grow_def)
  with step IH show ?case unfolding run by (auto intro: clients_grow_trans)
qed

text \<open>
  C27: Peer discovery starts at most one client per AZ that has none, never one for the
  agent's own AZ, and afterwards every AZ with a reachable pod has one.
\<close>

theorem one_client_per_az:
  assumes "list_pods E (outside w) = (Inr pods, e1)" and "run (discover E) w = (u, w')"
  shows "clients_grow E w w' \<and>
    (\<forall>p \<in> set pods. lookup_str (pod_labels p) (AZLabelKey E) \<noteq> az_of E \<longrightarrow> PodIP p \<noteq> '''' \<longrightarrow>
      lookup_str (pod_labels p) (AZLabelKey E) \<in> connectedAZs w')"
proof -
  have w': "w' = snd (run (for_each (discover_pod E) pods) (w\<lparr>outside := e1\<rparr>))"
    using assms by (simp add: discover_def)
  from discover_pods_run [of E "w\<lparr>outside := e1\<rparr>" pods] show ?thesis
    unfolding w' [symmetric] by (simp add: clients_grow_def)
qed

definition two_pods :: "sim agent_env" where
  "two_pods = (sim_env ''az1'' ''pod-a'' ''i-a'' False)\<lparr>list_pods := (\<lambda>w. (Inr
     [\<lparr>pod_labels = [''zone'' \<mapsto> ''az2''], PodIP = ''10.0.0.2'', pod_NodeName = ''n2''\<rparr>,
      \<lparr>pod_labels = [''zone'' \<mapsto> ''az2''], PodIP = ''10.0.0.3'', pod_NodeName = ''n3''\<rparr>], w))\<rparr>"

theorem one_client_per_az_witness:
  "\<exists>w'. run (discover two_pods) (agentw_start new_rec_state False (mem_a 0)) = ((), w') \<and>
     clients_grow two_pods (agentw_start new_rec_state False (mem_a 0)) w' \<and> ''az2'' \<in> connectedAZs w'"
proof -
  let ?w = "agentw_start new_rec_state False (mem_a 0)"
  obtain w' where run: "run (discover two_pods) ?w = ((), w')" by (cases "run (discover two_pods) ?w") auto
  have pods: "list_pods two_pods (outside ?w) = (Inr
     [\<lparr>pod_labels = [''zone'' \<mapsto> ''az2''], PodIP = ''10.0.0.2'', pod_NodeName = ''n2''\<rparr>,
      \<lparr>pod_labels = [''zone'' \<mapsto> ''az2''], PodIP = ''10.0.0.3'', pod_NodeName = ''n3''\<rparr>], outside ?w)"
    by (simp add: two_pods_def)
  from one_client_per_az [OF pods run] run show ?thesis
    by (auto simp: two_pods_def az_of_def sim_env_def)
qed

end
