(* ===== verification/Agent_Liveness.thy ===== *)
theory Agent_Liveness
  imports Agent_Scenarios
begin

text \<open>
  A dead agent's AZ is served again: when nothing fails and nobody interferes, a takeover of
  an AZ whose Lease has expired ends with the Lease, every table that was discovered, and
  the AZ covered.
\<close>

section \<open>When EC2 answers\<close>

text \<open>No call fails, except the creation of a route that exists.\<close>

definition ec2_up :: "'e ec2_api \<Rightarrow> bool" where
  "ec2_up A \<longleftrightarrow> (\<forall>fs e. is_ok (fst (DescribeRouteTables A fs e))) \<and>
     (\<forall>k t e x. fst (CreateRoute A k default_cidr t e) = Some x \<longrightarrow> isEC2ErrorCode x [''RouteAlreadyExists'']) \<and>
     (\<forall>k t e. fst (ReplaceRoute A k default_cidr t e) = None)"

lemma claim_up: "ec2_up A \<Longrightarrow> fst (run (claimRouteTable A k i) e) = None"
  by (auto simp: claimRouteTable_def ec2_up_def wrap_err_def case_prod_beta split: option.split)

lemma discover_up: "ec2_up A \<Longrightarrow> is_ok (fst (run (discoverRouteTables A c az) e))"
  by (auto simp: discoverRouteTables_def ec2_up_def case_prod_beta split: sum.split)
    (metis is_ok.simps(1))

lemma takeover_loop_all:
  assumes "ec2_up A" and "EC2Client (rcfg E) = realEC2Client A c" and "cfg_Mode (rcfg E) \<noteq> ''manual''"
  shows "fst (run (takeover_loop E claimed rts) w) = claimed @ map ID rts"
proof (induction rts arbitrary: claimed w)
  case (Cons rt rts)
  obtain e' where "run (claimRouteTable A (ID rt) (cfg_InstanceID (rcfg E))) (outside w) = (None, e')"
    using claim_up [OF assms(1), of "ID rt" "cfg_InstanceID (rcfg E)" "outside w"] by (metis prod.collapse)
  then show ?case using Cons.IH [of "claimed @ [ID rt]"] by (simp add: assms(2,3))
qed simp

section \<open>What a takeover leaves of the Leases\<close>

definition keeps_leases :: "('e \<Rightarrow> kstore) \<Rightarrow> ('e, 'x) recw_scheme \<Rightarrow> ('e, 'x) recw_scheme \<Rightarrow> bool" where
  "keeps_leases V w w' \<longleftrightarrow> objs (V (outside w')) = objs (V (outside w))"

lemma keeps_out: "anyhow G Q p \<Longrightarrow> (\<And>x y. G x y \<Longrightarrow> objs (V y) = objs (V x)) \<Longrightarrow> anyhow (keeps_leases V) (\<lambda>_. True) (out p)"
  unfolding anyhow_def out_def
proof
  fix w assume p: "\<forall>w. safe (\<lambda>_ _. True) G (\<lambda>a _. Q a) p w" and G: "\<And>x y. G x y \<Longrightarrow> objs (V y) = objs (V x)"
  from p have "safe (\<lambda>_ _. True) G (\<lambda>a _. Q a) p (outside w)" ..
  then show "safe (\<lambda>_ _. True) (keeps_leases V) (\<lambda>_ _. True) (zoom outside (\<lambda>v w. w\<lparr>outside := v\<rparr>) p) w"
    by (rule safe_weaken [OF safe_zoom]) (simp_all add: keeps_leases_def G)
qed

lemma keeps_local: "(\<And>w r w'. f w = (r, w') \<Longrightarrow> outside w' = outside w) \<Longrightarrow> anyhow (keeps_leases V) (\<lambda>_. True) (call f)"
  by (rule anyhow_call) (auto simp: keeps_leases_def)

lemma keeps_bind: "anyhow G (\<lambda>_. True) p \<Longrightarrow> (\<And>a. anyhow G (\<lambda>_. True) (k a)) \<Longrightarrow> anyhow G (\<lambda>_. True) (bind p k)"
  by (rule anyhow_bind)

lemma route_step_objs: "route_step V RV k t x y \<Longrightarrow> objs (V y) = objs (V x)"
  by (simp add: route_step_def reads_def quiet_def)

lemma silent_objs: "silent V RV x y \<Longrightarrow> objs (V y) = objs (V x)"
  by (simp add: silent_def reads_def quiet_def)

lemma keeps_metric: "anyhow (keeps_leases V) (\<lambda>_. True) (metric f)"
  unfolding metric_def by (rule keeps_local) auto

lemma keeps_takeover_loop:
  assumes "cloud_ok E A c I V RV T"
  shows "anyhow (keeps_leases V) (\<lambda>_. True) (takeover_loop E claimed rts)"
proof (induction rts arbitrary: claimed)
  case (Cons rt rts)
  have "anyhow (keeps_leases V) (\<lambda>_. True) (out (ClaimRouteTable (EC2Client (rcfg E)) (ID rt) (cfg_InstanceID (rcfg E))))"
    unfolding cloudD(1) [OF assms] realEC2Client_simps
    by (rule keeps_out [OF claim_anyhow [OF cloudD(5) [OF assms]] route_step_objs])
  then show ?case
    by (auto intro!: keeps_bind Cons.IH simp: set_owned_def keeps_metric split: option.split)
qed simp

lemma keeps_takeover_tail:
  assumes "cloud_ok E A c I V RV T"
  shows "anyhow (keeps_leases V) (\<lambda>_. True) (takeover_tail E az rts)"
proof -
  have "anyhow (\<lambda>e e'. objs (V e') = objs (V e)) (\<lambda>_. True) (call (time_now (leases E)))"
    using time_now_spec [of "leases E" V] cloudD(3) [OF assms]
    by (intro anyhow_call) (auto simp: reads_def quiet_def)
  then have t: "anyhow (keeps_leases V) (\<lambda>_. True) (out (call (time_now (leases E))))"
    by (rule keeps_out)
  show ?thesis
    unfolding takeover_tail_def AddForeignTables_def count_failover_def locked_def
    by (auto intro!: keeps_bind keeps_takeover_loop [OF assms] keeps_metric keeps_local t split: prod.splits)
qed

section \<open>The takeover\<close>

text \<open>
  A Lease that may be taken is taken, no other Lease moves, and the tables discovered are
  pointed here and registered.
\<close>

lemma takeover_succeeds:
  assumes "cloud_ok E A c I V RV T" and "lease_api_up (leases E) V" and "ec2_up A"
    and "cfg_Mode (rcfg E) \<noteq> ''manual''" and "\<not> (standDownOnDrain E \<and> draining w)" and "kstore_wf (V (outside w))"
    and may: "\<And>l. objs (V (outside w)) (lease_key_of E dead) = Some l \<Longrightarrow> pol_of E dead l (clock (V (outside w)))"
    and run: "run (takeover E dead) w = ((), w')"
  obtains l e1 ts e2 where
    "objs (V (outside w')) = (objs (V (outside w)))(lease_key_of E dead \<mapsto> l)" and "holderIdentity l = Some (podName E)"
    and "run (discoverRouteTables A c dead) e1 = (Inr ts, e2)" and "RV e1 = RV (outside w)"
    and "\<And>rt. rt \<in> set ts \<Longrightarrow> RV (outside w') (ID rt) = Some (ToInstance (cfg_InstanceID (rcfg E)))"
    and "\<And>k. foreignOwnedTables (rec_st w') k =
      (if k \<in> ID ` set ts then Some dead else foreignOwnedTables (rec_st w) k)"
    and "draining w' = draining w"
proof -
  note cl = cloudD(1) [OF assms(1)] and lk = cloudD(4) [OF assms(1)]
  have ec2: "ec2_api_ok A (tagPrefix c) RV T" using cloudD(5) [OF assms(1)] by (simp add: ec2_shared_ok_def)
  obtain e1 l where acq: "run (Acquire (leases E) (leaseMgr E) dead (podName E)) (outside w) = ((True, None), e1)"
    and l: "objs (V e1) = (objs (V (outside w)))(lease_key_of E dead \<mapsto> l)" "holderIdentity l = Some (podName E)"
    using Acquire_grants [OF assms(2,6), of "leaseMgr E" dead "podName E"] may
    by (auto simp: lease_key_of_def pol_of_def leaves_def granted_def)
  have r1: "RV e1 = RV (outside w)" by (rule lease_run_routes [OF Acquire_keeps_routes [OF lk] acq])
  obtain ts e2 where disc: "run (discoverRouteTables A c dead) e1 = (Inr ts, e2)"
    using discover_up [OF assms(3), of c dead e1]
    by (cases "run (discoverRouteTables A c dead) e1"; cases "fst (run (discoverRouteTables A c dead) e1)") auto
  have o2: "objs (V e2) = objs (V e1)"
    using anyhow_run [OF discover_anyhow [OF cloudD(5) [OF assms(1)]] _ _ disc, of "\<lambda>x. objs (V x) = objs (V e1)"]
    by (auto simp: silent_objs)
  have tail: "run (takeover_tail E dead ts) (w\<lparr>outside := e2\<rparr>) = ((), w')"
    using takeover_run [OF ec2 cl lk assms(5) acq _ run] disc by (simp add: cl)
  have "keeps_leases V (w\<lparr>outside := e2\<rparr>) w' \<and> True"
    by (rule anyhow_run [OF keeps_takeover_tail [OF assms(1)] _ _ tail]) (simp_all add: keeps_leases_def)
  then have o3: "objs (V (outside w')) = objs (V e2)" by (simp add: keeps_leases_def)
  obtain e3 where loop: "run (takeover_loop E [] ts) (w\<lparr>outside := e2\<rparr>) = (map ID ts, e3)"
    using takeover_loop_all [OF assms(3) cl assms(4), of "[]" ts "w\<lparr>outside := e2\<rparr>"] by (metis append_Nil prod.collapse)
  show ?thesis
    by (rule that [OF _ l(2) disc r1]) (use takeover_tail_loop [OF ec2 cl lk tail loop] l o2 o3 in auto)
qed

text \<open>
  C8: When the Lease of an AZ has expired, the API server and EC2 answer and the node
  is not draining, a takeover in auto mode ends with the agent holding that Lease and, of the
  tables discovered, every one pointing at its instance; if there is one, the agent covers the
  AZ, so that its lease loop goes on renewing it.
\<close>

theorem expired_az_is_taken_over:
  assumes "cloud_ok E A c I V RV T" and "lease_api_up (leases E) V" and "ec2_up A"
    and "cfg_Mode (rcfg E) \<noteq> ''manual''" and "\<not> (standDownOnDrain E \<and> draining w)" and "kstore_wf (V (outside w))"
    and "objs (V (outside w)) (lease_key_of E dead) = Some l" and "IsExpired l (clock (V (outside w)))"
    and "run (takeover E dead) w = ((), w')"
  shows "(\<exists>l'. objs (V (outside w')) (lease_key_of E dead) = Some l' \<and> holderIdentity l' = Some (podName E)) \<and>
    (\<exists>e1 ts e2. run (discoverRouteTables A c dead) e1 = (Inr ts, e2) \<and> RV e1 = RV (outside w) \<and>
      (\<forall>rt \<in> set ts. RV (outside w') (ID rt) = Some (ToInstance (cfg_InstanceID (rcfg E)))) \<and>
      (ts \<noteq> [] \<longrightarrow> covers dead (rec_st w')))"
proof (rule takeover_succeeds [OF assms(1-6) _ assms(9)])
  fix l' assume "objs (V (outside w)) (lease_key_of E dead) = Some l'"
  then show "pol_of E dead l' (clock (V (outside w)))" using assms(7,8) by (simp add: pol_of_def takeover_policy_def)
next
  fix l' e1 ts e2 
  assume l': "objs (V (outside w')) = (objs (V (outside w)))(lease_key_of E dead \<mapsto> l')" "holderIdentity l' = Some (podName E)"
    and disc: "run (discoverRouteTables A c dead) e1 = (Inr ts, e2)" "RV e1 = RV (outside w)"
    and "\<And>rt. rt \<in> set ts \<Longrightarrow> RV (outside w') (ID rt) = Some (ToInstance (cfg_InstanceID (rcfg E)))"
    and "\<And>k. foreignOwnedTables (rec_st w') k =
      (if k \<in> ID ` set ts then Some dead else foreignOwnedTables (rec_st w) k)"
  then have "\<forall>rt \<in> set ts. RV (outside w') (ID rt) = Some (ToInstance (cfg_InstanceID (rcfg E)))"
    and "ts \<noteq> [] \<longrightarrow> covers dead (rec_st w')" by (cases ts; auto simp: covers_iff)+
  with l' disc show ?thesis by auto
qed

lemma sim_ec2_up: "ec2_up (sim_ec2 ts)"
  by (simp add: ec2_up_def sim_ec2_def isEC2ErrorCode_def)

theorem expired_az_is_taken_over_witness:
  "\<exists>w' l'. run (takeover agent_b ''az1'') (agentw_start new_rec_state False (mem_a 20000000000)) = ((), w') \<and>
     objs (sim_store (outside w')) (''kube-system'', ''kube-nat-az1'') = Some l' \<and> holderIdentity l' = Some ''pod-b'' \<and>
     sim_routes (outside w') ''rtb-1'' = Some (ToInstance ''i-b'') \<and> covers ''az1'' (rec_st w')"
proof -
  let ?w = "agentw_start new_rec_state False (mem_a 20000000000)"
  obtain w' where run: "run (takeover agent_b ''az1'') ?w = ((), w')" by (cases "run (takeover agent_b ''az1'') ?w") auto
  have cloud: "cloud_ok agent_b (sim_ec2 two_tables) sim_settings sim_iptables sim_store sim_routes (sim_tag two_tables)"
    and up: "lease_api_up (leases agent_b) sim_store" and m: "cfg_Mode (rcfg agent_b) \<noteq> ''manual''"
    and nd: "\<not> (standDownOnDrain agent_b \<and> draining ?w)"
    by (simp_all add: agent_b_def sim_cloud_ok sim_leases_up)
  have wf: "kstore_wf (sim_store (outside ?w))" by (simp add: sim_store_def mem_a_wf)
  have key: "lease_key_of agent_b ''az1'' = (''kube-system'', ''kube-nat-az1'')"
    by (simp add: lease_key_of_def agent_b_def leaseName_def)
  have l: "objs (sim_store (outside ?w)) (lease_key_of agent_b ''az1'') = Some lease_a"
    by (simp add: key sim_store_def mem_a_objs)
  have e: "IsExpired lease_a (clock (sim_store (outside ?w)))"
    by (simp add: sim_store_def mem_a_clock lease_a_def IsExpired_def)
  note taken = expired_az_is_taken_over [OF cloud up sim_ec2_up m nd wf l e run]
  from taken obtain e1 ts e2 where d: "run (discoverRouteTables (sim_ec2 two_tables) sim_settings ''az1'') e1 = (Inr ts, e2)"
    and r: "sim_routes e1 = sim_routes (outside ?w)"
    and all: "\<forall>rt \<in> set ts. sim_routes (outside w') (ID rt) = Some (ToInstance (cfg_InstanceID (rcfg agent_b)))"
    and cov: "ts \<noteq> [] \<longrightarrow> covers ''az1'' (rec_st w')" by blast
  have "sim_routes e1 = sim_routes sim_start" using r by simp
  from sim_discover_az1 [OF this] d all cov
  have "sim_routes (outside w') ''rtb-1'' = Some (ToInstance ''i-b'')" and "covers ''az1'' (rec_st w')"
    by (auto simp: agent_b_def)
  moreover from taken obtain l' where "objs (sim_store (outside w')) (''kube-system'', ''kube-nat-az1'') = Some l'"
    and "holderIdentity l' = Some (podName agent_b)" unfolding key by blast
  then have "objs (sim_store (outside w')) (''kube-system'', ''kube-nat-az1'') = Some l'"
    and "holderIdentity l' = Some ''pod-b''" by (simp_all add: agent_b_def)
  ultimately show ?thesis using run by blast
qed

end
