(* ===== verification/Agent_Sweep.thy ===== *)
theory Agent_Sweep
  imports Agent_Liveness
begin

text \<open>
  The sweep of a reconcile tick leaves no dead AZ behind: when the API server and EC2 answer
  and nobody interferes, every other AZ whose Lease had expired is the agent's afterwards.
\<close>

section \<open>What the listings show\<close>

text \<open>
  The list call answers, with exactly the Leases that carry the agents' label (the label
  selector of the code); the tables tagged with an AZ do not change.
\<close>

definition lists_agents :: "'e lease_api \<Rightarrow> ('e \<Rightarrow> kstore) \<Rightarrow> bool" where
  "lists_agents K V \<longleftrightarrow> (\<forall>ns e. \<exists>ls. fst (lease_list K ns e) = Inr ls \<and>
     (kstore_wf (V e) \<longrightarrow> (\<forall>l. l \<in> set ls \<longleftrightarrow> labelled_agent l \<and> objs (V e) (ns, lease_name l) = Some l)))"

definition tagged_tables :: "'e ec2_api \<Rightarrow> ec2_settings \<Rightarrow> (string \<Rightarrow> string set) \<Rightarrow> bool" where
  "tagged_tables A c S \<longleftrightarrow>
     (\<forall>az e ts e'. run (discoverRouteTables A c az) e = (Inr ts, e') \<longrightarrow> ID ` set ts = S az)"

text \<open>Only the agents' Leases carry their label, and they are named after their AZ.\<close>

definition agents_named :: "string \<Rightarrow> kstore \<Rightarrow> bool" where
  "agents_named ns S \<longleftrightarrow>
     (\<forall>n l. objs S (ns, n) = Some l \<longrightarrow> labelled_agent l \<longrightarrow> (\<exists>az. n = leaseName az))"

lemma leaseName_inject [simp]: "leaseName a = leaseName b \<longleftrightarrow> a = b"
  by (simp add: leaseName_def)

lemma az_of_leaseName [simp]: "azFromLeaseName (leaseName az) = az"
  by (simp add: azFromLeaseName_def leaseName_def)

lemma set_expired_azs:
  "set (expired_azs ls own t) = {az. az \<noteq> '''' \<and> az \<noteq> own \<and> (\<exists>l \<in> set ls. azFromLeaseName (lease_name l) = az \<and> IsExpired l t)}"
  by (induction ls) (auto simp: Let_def)

section \<open>One takeover of the sweep\<close>

text \<open>The agent may take the AZ: its Lease, if there is one, has expired or is the agent's.\<close>

definition can_take :: "'e agent_env \<Rightarrow> ('e \<Rightarrow> kstore) \<Rightarrow> string \<Rightarrow> ('e, 'x) recw_scheme \<Rightarrow> bool" where
  "can_take E V az w \<longleftrightarrow>
     (\<forall>l. objs (V (outside w)) (lease_key_of E az) = Some l \<longrightarrow> pol_of E az l (clock (V (outside w))))"

text \<open>The agent holds the Lease of the AZ, and each of its tables is registered and points here.\<close>

definition taken ::
  "'e agent_env \<Rightarrow> ('e \<Rightarrow> kstore) \<Rightarrow> ('e \<Rightarrow> routes) \<Rightarrow> (string \<Rightarrow> string set) \<Rightarrow> string \<Rightarrow> ('e, 'x) recw_scheme \<Rightarrow> bool" where
  "taken E V RV S az w \<longleftrightarrow>
     (\<exists>l. objs (V (outside w)) (lease_key_of E az) = Some l \<and> holderIdentity l = Some (podName E)) \<and>
     (\<forall>k \<in> S az. RV (outside w) k = Some (ToInstance (cfg_InstanceID (rcfg E))) \<and>
        foreignOwnedTables (rec_st w) k = Some az)"

text \<open>What a step of the sweep leaves for the others: nothing taken is lost, nothing is covered that is not taken.\<close>

definition progress ::
  "'e agent_env \<Rightarrow> ('e \<Rightarrow> kstore) \<Rightarrow> ('e \<Rightarrow> routes) \<Rightarrow> (string \<Rightarrow> string set) \<Rightarrow>
   ('e, 'x) agentw_scheme \<Rightarrow> ('e, 'x) agentw_scheme \<Rightarrow> bool" where
  "progress E V RV S w w' \<longleftrightarrow>
     (kstore_wf (V (outside w)) \<longrightarrow> kstore_wf (V (outside w'))) \<and> draining w' = draining w \<and>
     (\<forall>az. (can_take E V az w \<longrightarrow> can_take E V az w') \<and> (taken E V RV S az w \<longrightarrow> taken E V RV S az w') \<and>
        (covers az (rec_st w') \<longrightarrow> covers az (rec_st w) \<or> taken E V RV S az w'))"

lemma progress_refl: "progress E V RV S w w"
  by (simp add: progress_def)

lemma progress_trans: "progress E V RV S x y \<Longrightarrow> progress E V RV S y z \<Longrightarrow> progress E V RV S x z"
  unfolding progress_def by blast

lemma pol_mono: "pol_of E az l t \<Longrightarrow> t \<le> t' \<Longrightarrow> pol_of E az l t'"
  by (auto simp: pol_of_def takeover_policy_def intro: IsExpired_mono)

lemma tagged_apart:
  assumes "cloud_ok E A c I V RV T" and "ec2_up A" and "tagged_tables A c S" and "k \<in> S az"
  shows "T k = az"
proof -
  fix e
  obtain ts e' where d: "run (discoverRouteTables A c az) e = (Inr ts, e')"
    using discover_up [OF assms(2), of c az e]
    by (cases "run (discoverRouteTables A c az) e"; cases "fst (run (discoverRouteTables A c az) e)") auto
  have "\<forall>rt \<in> set ts. T (ID rt) = az"
    using anyhow_run [OF discover_anyhow [OF cloudD(5) [OF assms(1)]] TrueI TrueI d] by simp
  moreover have "S az = ID ` set ts" by (rule sym, rule assms(3) [unfolded tagged_tables_def, rule_format, OF d])
  ultimately show ?thesis using assms(4) by auto
qed

text \<open>Alone, a takeover keeps the routes toward the agent, the store well formed and the clock monotone.\<close>

lemma takeover_keeps:
  assumes "cloud_ok E A c I V RV T" and "kstore_wf (V (outside w))" and "run (takeover E dead) w = ((), w')"
  shows "kstore_wf (V (outside w')) \<and> clock (V (outside w)) \<le> clock (V (outside w')) \<and>
    (RV (outside w) k = Some (ToInstance (cfg_InstanceID (rcfg E))) \<longrightarrow>
     RV (outside w') k = Some (ToInstance (cfg_InstanceID (rcfg E))))"
proof -
  let ?me = "Some (ToInstance (cfg_InstanceID (rcfg E)))"
  let ?J = "\<lambda>x. clock (V (outside w)) \<le> clock (V (outside x)) \<and> (RV (outside w) k = ?me \<longrightarrow> RV (outside x) k = ?me)"
  have "?J y" if "agent_step E V RV T x y" "?J x" for x y
    using that by (auto simp: agent_step_def agent_guar_def lease_part_def lease_guar_def evolves_def route_part_def)
  moreover note harmless_takeover [OF assms(1), unfolded agent_rg.harmless_def]
  ultimately have "?J w' \<and> stored_wf V w' \<and> True"
    by (intro agent_rg.run_keeps [OF _ _ _ _ _ assms(3)]) (use assms(2) in \<open>auto simp: stored_wf_def\<close>)
  then show ?thesis by (simp add: stored_wf_def)
qed

lemma takeover_progress:
  assumes "cloud_ok E A c I V RV T" and "lease_api_up (leases E) V" and "ec2_up A" and "tagged_tables A c S"
    and "cfg_Mode (rcfg E) \<noteq> ''manual''" and "\<not> (standDownOnDrain E \<and> draining w)" and "kstore_wf (V (outside w))"
    and "can_take E V dead w" and run: "run (takeover E dead) w = ((), w')"
  shows "taken E V RV S dead w' \<and> progress E V RV S w w'"
proof (rule takeover_succeeds [OF assms(1-3,5-7) _ run])
  fix l assume "objs (V (outside w)) (lease_key_of E dead) = Some l"
  then show "pol_of E dead l (clock (V (outside w)))" using assms(8) by (simp add: can_take_def)
next
  fix l e1 ts e2
  assume o: "objs (V (outside w')) = (objs (V (outside w)))(lease_key_of E dead \<mapsto> l)" and l: "holderIdentity l = Some (podName E)"
    and disc: "run (discoverRouteTables A c dead) e1 = (Inr ts, e2)"
    and routes: "\<And>rt. rt \<in> set ts \<Longrightarrow> RV (outside w') (ID rt) = Some (ToInstance (cfg_InstanceID (rcfg E)))"
    and f: "\<And>k. foreignOwnedTables (rec_st w') k =
      (if k \<in> ID ` set ts then Some dead else foreignOwnedTables (rec_st w) k)"
    and d: "draining w' = draining w"
  have S: "ID ` set ts = S dead" by (rule assms(4) [unfolded tagged_tables_def, rule_format, OF disc])
  note keeps = takeover_keeps [OF assms(1,7) run]
  have t: "taken E V RV S dead w'"
    using o l routes f unfolding taken_def S [symmetric] by auto
  moreover have "can_take E V az w'" if "can_take E V az w" for az
  proof (cases "az = dead")
    case True
    then show ?thesis using o l by (simp add: can_take_def pol_of_def takeover_policy_def)
  next
    case False
    then have "objs (V (outside w')) (lease_key_of E az) = objs (V (outside w)) (lease_key_of E az)"
      using o by (simp add: lease_key_of_def)
    then show ?thesis using that keeps pol_mono unfolding can_take_def by metis
  qed
  moreover have "taken E V RV S az w'" if "taken E V RV S az w" for az
  proof (cases "az = dead")
    case False
    then have "k \<notin> S dead" if "k \<in> S az" for k
      using that tagged_apart [OF assms(1,3,4)] by blast
    with False \<open>taken E V RV S az w\<close> o keeps f show ?thesis
      unfolding S by (auto simp: taken_def lease_key_of_def)
  qed (use t in simp)
  moreover have "covers az (rec_st w) \<or> taken E V RV S az w'" if "covers az (rec_st w')" for az
    using that t f by (auto simp: covers_iff split: if_splits)
  ultimately show ?thesis using keeps d by (simp add: progress_def)
qed

lemma coverExpired_progress:
  assumes "cloud_ok E A c I V RV T" and "lease_api_up (leases E) V" and "ec2_up A" and "tagged_tables A c S"
    and "cfg_Mode (rcfg E) \<noteq> ''manual''" and "\<not> (standDownOnDrain E \<and> draining w)" and "kstore_wf (V (outside w))"
    and "can_take E V az w" and "run (coverExpired E az) w = ((), w')"
  shows "(covers az (rec_st w) \<or> taken E V RV S az w') \<and> progress E V RV S w w'"
proof (cases "covers az (rec_st w)")
  case True
  with assms(9) show ?thesis by (simp add: coverExpired_def CoversAZ_def progress_refl)
next
  case False
  with assms(9) have "run (takeover E az) w = ((), w')" by (simp add: coverExpired_def CoversAZ_def)
  from takeover_progress [OF assms(1-8) this] show ?thesis by simp
qed

section \<open>The sweep\<close>

lemma sweep_progress:
  assumes "cloud_ok E A c I V RV T" and "lease_api_up (leases E) V" and "ec2_up A" and "tagged_tables A c S"
    and "cfg_Mode (rcfg E) \<noteq> ''manual''" and "\<not> (standDownOnDrain E \<and> draining w)" and "kstore_wf (V (outside w))"
    and "\<forall>az \<in> set azs. can_take E V az w" and "run (for_each (coverExpired E) azs) w = ((), w')"
  shows "(\<forall>az \<in> set azs. covers az (rec_st w) \<or> taken E V RV S az w') \<and> progress E V RV S w w'"
  using assms(6-9)
proof (induction azs arbitrary: w)
  case Nil
  then show ?case by (simp add: progress_refl)
next
  case (Cons az azs)
  obtain w1 where 1: "run (coverExpired E az) w = ((), w1)" by (cases "run (coverExpired E az) w") auto
  note step = coverExpired_progress [OF assms(1-5) Cons.prems(1,2) _ 1]
  with Cons.prems(3) have p: "progress E V RV S w w1" by simp
  with Cons.prems have "\<not> (standDownOnDrain E \<and> draining w1)" "kstore_wf (V (outside w1))"
    "\<forall>az \<in> set azs. can_take E V az w1" by (simp_all add: progress_def)
  moreover have "run (for_each (coverExpired E) azs) w1 = ((), w')" using Cons.prems(4) 1 by simp
  ultimately have IH: "(\<forall>az \<in> set azs. covers az (rec_st w1) \<or> taken E V RV S az w') \<and> progress E V RV S w1 w'"
    by (rule Cons.IH)
  then have "progress E V RV S w w'" using p progress_trans by blast
  moreover have "covers az (rec_st w) \<or> taken E V RV S az w'"
    using step Cons.prems(3) IH by (auto simp: progress_def)
  moreover have "covers a (rec_st w) \<or> taken E V RV S a w'" if "a \<in> set azs" for a
    using that IH p unfolding progress_def by blast
  ultimately show ?case by simp
qed

text \<open>
  C4: When the API server and EC2 answer, only the agents' Leases carry their
  label and the node is not draining, one sweep in auto mode deals with every other AZ whose
  Lease has expired: either the agent covered the AZ already, or it now holds its Lease, has
  registered every one of its tables, and every one of them points at its instance.
\<close>

theorem sweep_takes_every_expired_az:
  assumes "cloud_ok E A c I V RV T" and "lease_api_up (leases E) V" and "lists_agents (leases E) V"
    and "ec2_up A" and "tagged_tables A c S" and "cfg_Mode (rcfg E) \<noteq> ''manual''"
    and "\<not> (standDownOnDrain E \<and> draining w)" and "kstore_wf (V (outside w))"
    and "agents_named (namespace (leaseMgr E)) (V (outside w))"
    and run: "run (sweepStep E) w = ((), w')"
    and "objs (V (outside w)) (lease_key_of E az) = Some l" and "labelled_agent l"
    and "IsExpired l (clock (V (outside w)))" and "az \<noteq> ''''" and "az \<noteq> az_of E"
  shows "covers az (rec_st w) \<or> taken E V RV S az w'"
proof -
  let ?ns = "namespace (leaseMgr E)" and ?o = "outside w"
  note K = cloudD(3) [OF assms(1)]
  obtain ls e1 where list: "lease_list (leases E) ?ns ?o = (Inr ls, e1)"
    and ls: "\<And>l. l \<in> set ls \<longleftrightarrow> labelled_agent l \<and> objs (V ?o) (?ns, lease_name l) = Some l"
    using assms(3,8) unfolding lists_agents_def by (metis prod.collapse)
  obtain t e2 where t: "time_now (leases E) e1 = (t, e2)" by fastforce
  have r: "objs (V e2) = objs (V ?o)" "clock (V ?o) \<le> t" "t \<le> clock (V e2)" "kstore_wf (V e2)"
    using lease_list_spec [OF K list] time_now_spec [OF K t] reads_evolves [of "V ?o" "V e1"] reads_evolves [of "V e1" "V e2"]
      assms(8) by (auto simp: reads_def quiet_def evolves_def)
  let ?w = "w\<lparr>outside := e2\<rparr>" and ?azs = "expired_azs ls (az_of E) t"
  have "can_take E V a ?w" if a: "a \<in> set ?azs" for a
  proof -
    from a obtain l' where l': "l' \<in> set ls" "azFromLeaseName (lease_name l') = a" "IsExpired l' t"
      by (auto simp: set_expired_azs)
    with ls assms(9) have "lease_name l' = leaseName a" unfolding agents_named_def by force
    with l' ls r show ?thesis
      by (auto simp: can_take_def lease_key_of_def pol_of_def takeover_policy_def intro: IsExpired_mono)
  qed
  moreover have "run (for_each (coverExpired E) ?azs) ?w = ((), w')"
    using run assms(7) list t by (simp add: sweepStep_def ListExpiredAZs_def)
  ultimately have all: "\<forall>a \<in> set ?azs. covers a (rec_st w) \<or> taken E V RV S a w'"
    using sweep_progress [OF assms(1,2,4-6), of ?w ?azs w'] assms(7) r(4) by simp
  have name: "lease_name l = leaseName az"
    using stored_name [OF assms(8)] assms(11) by (simp add: lease_key_of_def)
  then have "l \<in> set ls" using ls assms(11,12) by (simp add: lease_key_of_def)
  moreover have "IsExpired l t" by (rule IsExpired_mono [OF assms(13) r(2)])
  ultimately have "az \<in> set ?azs" using name assms(14,15) by (auto simp: set_expired_azs intro!: bexI [of _ l])
  with all show ?thesis by blast
qed

lemma sim_lists_agents: "lists_agents sim_leases sim_store"
proof -
  have "\<exists>ls. fst (lease_list mem_api ns m) = Inr ls \<and> (kstore_wf (mem_view m) \<longrightarrow>
      (\<forall>l. l \<in> set ls \<longleftrightarrow> labelled_agent l \<and> mem_objs m (ns, lease_name l) = Some l))" for ns m
    by (force simp: mem_api_def kstore_wf_def)
  then show ?thesis by (simp add: lists_agents_def sim_leases_def sim_store_def)
qed

lemma sim_tagged_tables:
  "tagged_tables (sim_ec2 two_tables) sim_settings (\<lambda>az. {k \<in> {''rtb-1'', ''rtb-2''}. sim_tag two_tables k = az})"
  by (auto simp: tagged_tables_def discoverRouteTables_def sim_ec2_def sim_settings_def managed_filter_def two_tables_def
      sim_described_id route_table_entry_def)

theorem sweep_takes_every_expired_az_witness:
  "\<exists>w' l. run (sweepStep agent_b) (agentw_start new_rec_state False (mem_a 20000000000)) = ((), w') \<and>
     objs (sim_store (outside w')) (''kube-system'', ''kube-nat-az1'') = Some l \<and> holderIdentity l = Some ''pod-b'' \<and>
     sim_routes (outside w') ''rtb-1'' = Some (ToInstance ''i-b'') \<and> covers ''az1'' (rec_st w')"
proof -
  let ?w = "agentw_start new_rec_state False (mem_a 20000000000)"
    and ?S = "\<lambda>az. {k \<in> {''rtb-1'', ''rtb-2''}. sim_tag two_tables k = az}"
  obtain w' where run: "run (sweepStep agent_b) ?w = ((), w')" by (cases "run (sweepStep agent_b) ?w") auto
  have cloud: "cloud_ok agent_b (sim_ec2 two_tables) sim_settings sim_iptables sim_store sim_routes (sim_tag two_tables)"
    and up: "lease_api_up (leases agent_b) sim_store" and m: "cfg_Mode (rcfg agent_b) \<noteq> ''manual''"
    and la: "lists_agents (leases agent_b) sim_store"
    and nd: "\<not> (standDownOnDrain agent_b \<and> draining ?w)" and az: "''az1'' \<noteq> az_of agent_b"
    by (simp_all add: agent_b_def sim_cloud_ok sim_leases_up sim_lists_agents)
  have wf: "kstore_wf (sim_store (outside ?w))" by (simp add: sim_store_def mem_a_wf)
  have key: "lease_key_of agent_b ''az1'' = (''kube-system'', ''kube-nat-az1'')"
    by (simp add: lease_key_of_def agent_b_def leaseName_def)
  have l: "objs (sim_store (outside ?w)) (lease_key_of agent_b ''az1'') = Some lease_a"
    by (simp add: key sim_store_def mem_a_objs)
  have n: "agents_named (namespace (leaseMgr agent_b)) (sim_store (outside ?w))"
    by (auto simp: agents_named_def sim_store_def mem_a_objs leaseName_def split: if_splits)
  have e: "labelled_agent lease_a" "IsExpired lease_a (clock (sim_store (outside ?w)))"
    by (simp_all add: sim_store_def mem_a_clock lease_a_def IsExpired_def labelled_agent_def homeAZLabel_def)
  have "covers ''az1'' (rec_st ?w) \<or> taken agent_b sim_store sim_routes ?S ''az1'' w'"
    by (rule sweep_takes_every_expired_az [OF cloud up la sim_ec2_up sim_tagged_tables m nd wf n run l e _ az]) simp
  moreover have "\<not> covers ''az1'' (rec_st ?w)" by (simp add: covers_iff new_rec_state_def)
  ultimately have t: "taken agent_b sim_store sim_routes ?S ''az1'' w'" by simp
  have "''rtb-1'' \<in> ?S ''az1''" by (simp add: sim_tag_def two_tables_def)
  with t have "sim_routes (outside w') ''rtb-1'' = Some (ToInstance ''i-b'')" "covers ''az1'' (rec_st w')"
    by (auto simp: taken_def agent_b_def covers_iff)
  moreover from t obtain l where "objs (sim_store (outside w')) (''kube-system'', ''kube-nat-az1'') = Some l"
    and "holderIdentity l = Some (podName agent_b)" unfolding taken_def key by blast
  then have "objs (sim_store (outside w')) (''kube-system'', ''kube-nat-az1'') = Some l"
    and "holderIdentity l = Some ''pod-b''" by (simp_all add: agent_b_def)
  ultimately show ?thesis using run by blast
qed

end
