(* ===== verification/Web_Handlers.thy ===== *)
theory Web_Handlers
  imports Go_Base
begin

text \<open>
  \<open>internal/metrics/server.go\<close>: the handlers of the agent's HTTP server. A handler is a
  program that ends with its reply; what it calls is an argument, and so is the text of an
  error (\<open>err.Error()\<close>), which belongs to the library that made the error.
\<close>

record reply =
  r_status :: int
  r_body :: string

definition newline :: string where
  "newline = [CHR 0x0A]"

text \<open>\<open>http.Error\<close> ends the message with a line feed.\<close>

definition http_Error :: "string \<Rightarrow> int \<Rightarrow> reply" where
  "http_Error msg code = \<lparr>r_status = code, r_body = msg @ newline\<rparr>"

definition http_NotFound :: reply where
  "http_NotFound = http_Error ''404 page not found'' 404"

definition reply_ok :: reply where
  "reply_ok = \<lparr>r_status = 200, r_body = ''ok''\<rparr>"

definition ListenAddr :: "int \<Rightarrow> string" where
  "ListenAddr port = '':'' @ Itoa port"

text \<open>The mux: the metrics page, \<open>/healthz\<close> and \<open>/readyz\<close>; \<open>others\<close> is what is registered besides.\<close>

definition NewMux ::
  "(goerr \<Rightarrow> string) \<Rightarrow> ('w, reply) prog \<Rightarrow> ('w, status) prog \<Rightarrow> (string \<Rightarrow> ('w, reply) prog) \<Rightarrow>
   string \<Rightarrow> ('w, reply) prog" where
  "NewMux txt metrics_page ready_fn others path =
     (if path = ''/metrics'' then metrics_page
      else if path = ''/healthz'' then Ret reply_ok
      else if path = ''/readyz'' then
        bind ready_fn (\<lambda>err.
          case err of
            Some e \<Rightarrow> Ret (http_Error (txt e) 503)
          | None \<Rightarrow> Ret reply_ok)
      else others path)"

definition AddClaimHandler ::
  "(goerr \<Rightarrow> string) \<Rightarrow> ('w, status) prog \<Rightarrow> string \<Rightarrow> (string \<Rightarrow> ('w, reply) prog) \<Rightarrow> string \<Rightarrow> ('w, reply) prog" where
  "AddClaimHandler txt fn meth others path =
     (if path = ''/claim'' then
        if meth \<noteq> ''POST'' then Ret (http_Error ''method not allowed'' 405)
        else bind fn (\<lambda>err.
          case err of
            Some e \<Rightarrow> Ret (http_Error (txt e) 500)
          | None \<Rightarrow> Ret reply_ok)
      else others path)"

definition AddReleaseHandler ::
  "(goerr \<Rightarrow> string) \<Rightarrow> ('w, status) prog \<Rightarrow> string \<Rightarrow> (string \<Rightarrow> ('w, reply) prog) \<Rightarrow> string \<Rightarrow> ('w, reply) prog" where
  "AddReleaseHandler txt fn meth others path =
     (if path = ''/release'' then
        if meth \<noteq> ''POST'' then Ret (http_Error ''method not allowed'' 405)
        else bind fn (\<lambda>err.
          case err of
            Some e \<Rightarrow> Ret (http_Error (txt e) 500)
          | None \<Rightarrow> Ret reply_ok)
      else others path)"

text \<open>A path nothing was registered for.\<close>

definition no_route :: "string \<Rightarrow> ('w, reply) prog" where
  "no_route path = Ret http_NotFound"

end
