(* ===== verification/Boot.thy ===== *)
theory Boot
  imports Agent Config Imds Web_Handlers
begin

text \<open>
  The start of \<open>agent.Run\<close> (\<open>internal/agent/agent.go\<close>), from the metadata to the first service
  of the AZ, and the HTTP server it starts. What the constructors of the libraries give is in
  \<open>platform\<close>; the start ends with an error or with the environment the goroutines run in.
\<close>

record 'e platform =
  imds :: "'e http_client"
  load_aws :: "string \<Rightarrow> 'e \<Rightarrow> 'e ec2_api result \<times> 'e"
  load_iptables :: "'e \<Rightarrow> 'e iptables_api result \<times> 'e"
  in_cluster :: "'e \<Rightarrow> status \<times> 'e"
  new_clientset :: "'e \<Rightarrow> status \<times> 'e"
  bind_port :: "string \<Rightarrow> 'e \<Rightarrow> status \<times> 'e"
  kube_leases :: "'e lease_api"
  kube_node :: "string \<Rightarrow> 'e \<Rightarrow> node result \<times> 'e"
  kube_pods :: "'e \<Rightarrow> pod list result \<times> 'e"
  kube_nodes_of :: "string \<Rightarrow> 'e \<Rightarrow> string list result \<times> 'e"
  proc_file :: "string \<Rightarrow> 'e \<Rightarrow> string result \<times> 'e"
  proc_lines :: "string \<Rightarrow> 'e \<Rightarrow> string list result \<times> 'e"
  netlink_stats :: "string \<Rightarrow> 'e \<Rightarrow> if_stats option result \<times> 'e"
  tcp_send :: "string \<times> string \<times> string \<Rightarrow> byte list \<Rightarrow> 'e \<Rightarrow> unit \<times> 'e"
  map_order :: order
  POD_NAME :: string
  NODE_NAME :: string

section \<open>Constructors\<close>

definition NewEC2Client ::
  "'e platform \<Rightarrow> string \<Rightarrow> string \<Rightarrow> string \<Rightarrow> ('e, 'e ec2_client result) prog" where
  "NewEC2Client P region prefix discovery =
     bind (call (load_aws P region)) (\<lambda>r.
     Ret (case r of
       Inl e \<Rightarrow> Inl (Wrap ''load aws config'' e)
     | Inr A \<Rightarrow> Inr (realEC2Client A \<lparr>tagPrefix = prefix, discoveryValue = discovery\<rparr>)))"

text \<open>The manager, and the library underneath it, which the sysctl writers use as well.\<close>

definition NewNatManager :: "'e platform \<Rightarrow> ('e, ('e nat_manager \<times> 'e iptables_api) result) prog" where
  "NewNatManager P =
     bind (call (load_iptables P)) (\<lambda>r.
     Ret (case r of
       Inl e \<Rightarrow> Inl (Wrap ''iptables init'' e)
     | Inr I \<Rightarrow> Inr (iptablesManager I, I)))"

definition NewLeaseManager :: "string \<Rightarrow> int \<Rightarrow> string \<Rightarrow> manager" where
  "NewLeaseManager ns duration az = \<lparr>namespace = ns, leaseDuration = duration, homeAZ = az\<rparr>"

definition agent_env_of ::
  "'e platform \<Rightarrow> config \<Rightarrow> InstanceMetadata \<Rightarrow> 'e ec2_client \<Rightarrow> 'e nat_manager \<Rightarrow> 'e agent_env" where
  "agent_env_of P c meta ec2 natMgr =
     \<lparr>leases = kube_leases P, leaseMgr = NewLeaseManager (Namespace c) (LeaseDuration c) (md_AZ meta),
      rcfg = \<lparr>NATManager = natMgr, EC2Client = ec2, cfg_Iface = md_PublicIface meta, cfg_AZ = md_AZ meta,
        cfg_InstanceID = md_InstanceID meta, cfg_Mode = Mode c, cfg_ResetStaleFlows = ResetStaleFlows c\<rparr>,
      podName = podNameOrInstanceID (POD_NAME P) (md_InstanceID meta), AZLabelKey = AZLabel c,
      peerPort = PeerPort c, standDownOnDrain = StandDownOnDrain c, node_get = kube_node P,
      list_pods = kube_pods P, read_file = proc_file P,
      read_lines = proc_lines P, link_stats = netlink_stats P, peer_send = tcp_send P, key_order_of = map_order P\<rparr>"

section \<open>The steps of the start\<close>

text \<open>\<open>if err != nil { return fmt.Errorf(msg, err) }\<close> after a call with and without a value.\<close>

definition need :: "string \<Rightarrow> ('w, 'a result) prog \<Rightarrow> ('a \<Rightarrow> ('w, 'b result) prog) \<Rightarrow> ('w, 'b result) prog" where
  "need msg p k = bind p (\<lambda>r. case r of Inl e \<Rightarrow> Ret (Inl (Wrap msg e)) | Inr a \<Rightarrow> k a)"

definition must :: "string \<Rightarrow> ('w, status) prog \<Rightarrow> ('w, 'b result) prog \<Rightarrow> ('w, 'b result) prog" where
  "must msg p k = bind p (\<lambda>err. case err of Some e \<Rightarrow> Ret (Inl (Wrap msg e)) | None \<Rightarrow> k)"

definition boot_clients ::
  "'e platform \<Rightarrow> config \<Rightarrow>
   (('e, 'x) agentw_scheme, (InstanceMetadata \<times> 'e ec2_client \<times> 'e nat_manager) result) prog" where
  "boot_clients P c =
     need ''fetch metadata'' (out (Fetch (imds P) (imds_url ''''))) (\<lambda>meta.
     need ''aws ec2 client'' (out (NewEC2Client P (md_Region meta) (TagPrefix c) (DiscoveryValue c))) (\<lambda>ec2.
     must ''disable src/dst check'' (out (DisableSourceDestCheck ec2 (md_ENIID meta)))
     (need ''nat manager'' (out (NewNatManager P)) (\<lambda>(natMgr, I).
     must ''conntrack max'' (out (SetConntrackMax natMgr (ConntrackMax c)))
     (must ''port range'' (out (SetPortRange I (IPLocalPortRange c)))
     (Ret (Inr (meta, ec2, natMgr))))))))"

definition boot_metrics ::
  "config \<Rightarrow> InstanceMetadata \<Rightarrow> 'e ec2_client \<Rightarrow> (('e, 'x) agentw_scheme, unit) prog" where
  "boot_metrics c meta ec2 =
     bind (metric (\<lambda>m. m\<lparr>SrcDstCheckDisabled := 1,
       TrafficSeries := (\<lambda>k. (TrafficSeries m k)((md_AZ meta, md_InstanceID meta, md_PublicIface meta) \<mapsto> 0))\<rparr>)) (\<lambda>_.
     bind (out (DescribeInstanceMaxBandwidth ec2 (md_InstanceType meta))) (\<lambda>r.
     bind (case r of Inl _ \<Rightarrow> Ret () | Inr maxBps \<Rightarrow> metric (\<lambda>m. m\<lparr>MaxBandwidthGauge := maxBps\<rparr>)) (\<lambda>_.
     metric (\<lambda>m. m\<lparr>InstanceInfo := (InstanceInfo m)((md_InstanceType meta, ServerVersion c) \<mapsto> 1)\<rparr>))))"

definition boot_data_plane ::
  "'e platform \<Rightarrow> config \<Rightarrow> 'e agent_env \<Rightarrow> (('e, 'x) agentw_scheme, 'e agent_env result) prog" where
  "boot_data_plane P c E =
     must ''k8s in-cluster config'' (out (call (in_cluster P)))
     (must ''k8s client'' (out (call (new_clientset P)))
     (must ''initial data plane setup'' (SetupDataPlane (rcfg E))
     (bind (set_ready True) (\<lambda>_.
     must ''peer server listen'' (out (call (bind_port P ('':'' @ Itoa (PeerPort c)))))
     (Ret (Inr E))))))"

definition boot_drain :: "'e platform \<Rightarrow> 'e agent_env \<Rightarrow> (('e, 'x) agentw_scheme, unit) prog" where
  "boot_drain P E =
     (if standDownOnDrain E
      then bind (Prime (NODE_NAME P) (kube_nodes_of P) (podName E) (node_get E) (onDrain E)) (\<lambda>_. Ret ())
      else Ret ())"

text \<open>Everything that can fail comes before the first Lease operation.\<close>

definition prepare :: "'e platform \<Rightarrow> config \<Rightarrow> (('e, 'x) agentw_scheme, 'e agent_env result) prog" where
  "prepare P c =
     bind (boot_clients P c) (\<lambda>r.
       case r of
         Inl e \<Rightarrow> Ret (Inl e)
       | Inr (meta, ec2, natMgr) \<Rightarrow>
           bind (boot_metrics c meta ec2) (\<lambda>_. boot_data_plane P c (agent_env_of P c meta ec2 natMgr)))"

definition boot :: "'e platform \<Rightarrow> config \<Rightarrow> (('e, 'x) agentw_scheme, 'e agent_env result) prog" where
  "boot P c =
     bind (prepare P c) (\<lambda>r.
       case r of
         Inl e \<Rightarrow> Ret (Inl e)
       | Inr E \<Rightarrow> bind (boot_drain P E) (\<lambda>_. bind (firstService E) (\<lambda>_. Ret (Inr E))))"

section \<open>The HTTP server\<close>

definition agentMux ::
  "'e agent_env \<Rightarrow> (goerr \<Rightarrow> string) \<Rightarrow> (('e, 'x) agentw_scheme, reply) prog \<Rightarrow> string \<Rightarrow> string \<Rightarrow>
   (('e, 'x) agentw_scheme, reply) prog" where
  "agentMux E txt metrics_page meth =
     NewMux txt metrics_page readyFn
       (AddClaimHandler txt (ClaimRouteTables (rcfg E)) meth
       (AddReleaseHandler txt (ReleaseRouteTables (rcfg E)) meth no_route))"

end
