(* ===== verification/Agent_Operators.thy ===== *)
theory Agent_Operators
  imports Agent_Scenarios Boot
begin

text \<open>
  The cluster with its HTTP servers: requests to \<open>/claim\<close> and \<open>/release\<close>, from an operator or
  from the dashboard, interleave with the goroutines. They never ask for a Lease, so the
  guarantee of an agent is weaker than \<open>agent_guar\<close>: it may also turn a route of its own AZ to
  its instance, and any route to a NAT gateway.
\<close>

section \<open>The guarantee with requests\<close>

definition op_route_part ::
  "'e agent_env \<Rightarrow> ('e \<Rightarrow> kstore) \<Rightarrow> ('e \<Rightarrow> routes) \<Rightarrow> (string \<Rightarrow> string) \<Rightarrow> 'e \<Rightarrow> 'e \<Rightarrow> bool" where
  "op_route_part E V RV T e e' \<longleftrightarrow> route_part E V RV T e e' \<or>
     (\<exists>k. RV e' = (RV e)(k \<mapsto> ToInstance (cfg_InstanceID (rcfg E))) \<and> T k = az_of E) \<or>
     (\<exists>k g. RV e' = (RV e)(k \<mapsto> ToNatGateway g))"

definition op_guar ::
  "'e agent_env \<Rightarrow> ('e \<Rightarrow> kstore) \<Rightarrow> ('e \<Rightarrow> routes) \<Rightarrow> (string \<Rightarrow> string) \<Rightarrow> 'e \<Rightarrow> 'e \<Rightarrow> bool" where
  "op_guar E V RV T e e' \<longleftrightarrow> lease_part E V e e' \<and> op_route_part E V RV T e e'"

definition op_step where
  "op_step E V RV T w w' \<longleftrightarrow> op_guar E V RV T (outside w) (outside w')"

lemma agent_guar_op: "agent_guar E V RV T e e' \<Longrightarrow> op_guar E V RV T e e'"
  by (simp add: agent_guar_def op_guar_def op_route_part_def)

lemma op_guar_rely: "op_guar E V RV T e e' \<Longrightarrow> lease_rely V e e'"
  by (auto simp: op_guar_def lease_part_def dest: guar_imp_rely)

interpretation op_rg: rg "agent_rely V" "op_step E V RV T" "stored_wf V"
  for E :: "'e agent_env" and V :: "'e \<Rightarrow> kstore" and RV and T
  by unfold_locales (auto simp: agent_rely_def op_step_def stored_wf_def intro: op_guar_rely rely_wf)

text \<open>What keeps the stronger guarantee keeps the weaker one.\<close>

lemma triple_op:
  assumes "triple (agent_rely V) (agent_step E V RV T) (stored_wf V) P p Q"
  shows "triple (agent_rely V) (op_step E V RV T) (stored_wf V) P p Q"
  unfolding triple_def
proof (intro allI impI)
  fix w assume "stored_wf V w \<and> P w"
  with assms have "safe (agent_rely V) (agent_step E V RV T) (\<lambda>a w. stored_wf V w \<and> Q a w) p w"
    by (simp add: triple_def)
  then show "safe (agent_rely V) (op_step E V RV T) (\<lambda>a w. stored_wf V w \<and> Q a w) p w"
    by (rule safe_mono) (simp_all add: agent_step_def op_step_def agent_guar_op)
qed

lemma harmless_op: "agent_rg.harmless V E RV T p \<Longrightarrow> op_rg.harmless V E RV T p"
  unfolding agent_rg.harmless_def op_rg.harmless_def by (rule triple_op)

lemmas op_rules = op_rg.harmless_Ret op_rg.harmless_bind op_rg.harmless_for_each

lemma op_when: "(b \<Longrightarrow> op_rg.harmless V E RV T p) \<Longrightarrow>
    triple (agent_rely V) (op_step E V RV T) (stored_wf V) (\<lambda>_. b) p (\<lambda>_ _. True)"
  unfolding op_rg.harmless_def triple_def by blast

section \<open>The requests\<close>

lemma op_out_route:
  assumes "anyhow (route_step V RV k t) (\<lambda>_. True) p"
    and "t = ToInstance (cfg_InstanceID (rcfg E)) \<and> T k = az_of E \<or> (\<exists>g. t = ToNatGateway g)"
  shows "op_rg.harmless V E RV T (out p)"
  unfolding op_rg.harmless_def
proof (rule op_rg.tripleI)
  fix w
  have "safe (\<lambda>_ _. True) (route_step V RV k t) (\<lambda>_ _. True) p (outside w)"
    using assms(1) by (simp add: anyhow_def)
  then have "safe (lease_rely V) (op_guar E V RV T) (\<lambda>_ _. True) p (outside w)"
    by (rule safe_mono)
      (use assms(2) in \<open>auto simp: route_step_def op_guar_def op_route_part_def route_part_def lease_part_def reads_guar\<close>)
  from safe_zoom [where R' = "agent_rely V" and G' = "op_step E V RV T" and g = outside and p = "\<lambda>v w. w\<lparr>outside := v\<rparr>", OF this]
  show "safe (agent_rely V) (op_step E V RV T) (\<lambda>_ _. True) (out p) w"
    by (simp add: out_def agent_rely_def op_step_def)
qed

lemma release_anyhow:
  assumes "ec2_shared_ok A p V RV T"
  shows "anyhow (route_step V RV k (ToNatGateway g)) (\<lambda>_. True) (releaseRouteTable A k g)"
  unfolding releaseRouteTable_def
  by (auto intro!: anyhow_call_bind dest: ec2_sharedD [OF assms] split: option.split)

lemma op_claim:
  assumes "cloud_ok E A c I V RV T" and "T k = az_of E"
  shows "op_rg.harmless V E RV T (out (ClaimRouteTable (EC2Client (rcfg E)) k (cfg_InstanceID (rcfg E))))"
  by (rule op_out_route [where t = "ToInstance (cfg_InstanceID (rcfg E))" and k = k])
    (use ec2_shared.claim_steps [OF cloudD(5) [OF assms(1)]] assms(2) in \<open>simp_all add: cloudD(1) [OF assms(1)]\<close>)

lemma op_release:
  assumes "cloud_ok E A c I V RV T"
  shows "op_rg.harmless V E RV T (out (ReleaseRouteTable (EC2Client (rcfg E)) k g))"
  by (rule op_out_route [where t = "ToNatGateway g" and k = k])
    (simp_all add: cloudD(1) [OF assms] release_anyhow [OF cloudD(5) [OF assms]])

lemma op_claim_all_loop:
  assumes cloud: "cloud_ok E A c I V RV T" and "\<forall>rt \<in> set rts. T (ID rt) = az_of E"
  shows "op_rg.harmless V E RV T (claim_all_loop (rcfg E) owned rts)"
  using assms(2)
  by (induction rts arbitrary: owned) (auto intro!: op_rules op_claim [OF cloud] split: option.split)

lemma op_release_loop:
  assumes "cloud_ok E A c I V RV T"
  shows "op_rg.harmless V E RV T (release_loop (rcfg E) gws vpcs ids)"
  by (induction ids)
    (auto intro!: op_rules op_release [OF assms] harmless_op [OF harmless_outside(1) [OF assms]]
      simp: Let_def split: option.split sum.split)

lemma op_ClaimRouteTables:
  assumes "cloud_ok E A c I V RV T"
  shows "op_rg.harmless V E RV T (ClaimRouteTables (rcfg E))"
proof -
  have disc: "triple (agent_rely V) (op_step E V RV T) (stored_wf V) (\<lambda>_. True)
      (out (DiscoverRouteTables (EC2Client (rcfg E)) (az_of E)))
      (\<lambda>d _. \<forall>ts rt. d = Inr ts \<longrightarrow> rt \<in> set ts \<longrightarrow> T (ID rt) = az_of E)"
    using triple_op [OF triple_out_result [OF ec2_shared.discover_steps [OF cloudD(5) [OF assms]]]]
    by (simp add: cloudD(1) [OF assms])
  show ?thesis
    unfolding ClaimRouteTables_def az_of_def [symmetric]
    by (rule op_rg.harmless_then [OF disc], rule op_when)
      (auto intro!: op_rules op_claim_all_loop [OF assms] harmless_op [OF harmless_cache [OF assms]]
        harmless_op [OF harmless_locked] split: sum.split)
qed

lemma op_ReleaseRouteTables:
  assumes "cloud_ok E A c I V RV T"
  shows "op_rg.harmless V E RV T (ReleaseRouteTables (rcfg E))"
  unfolding ReleaseRouteTables_def
  by (auto intro!: op_rules op_release_loop [OF assms] harmless_op [OF harmless_locked] split: option.split)

text \<open>
  The HTTP server answers any sequence of requests; the metrics page only reads the agent's
  state.
\<close>

inductive http_thread :: "'e agent_env \<Rightarrow> ('e agentw, unit) prog \<Rightarrow> bool" for E :: "'e agent_env" where
  closed: "http_thread E (Ret ())"
| request: "http_thread E p \<Longrightarrow>
    http_thread E (bind (agentMux E txt (call (\<lambda>w. (page w, w))) meth path) (\<lambda>_. p))"

lemma op_reply:
  "op_rg.harmless V E RV T p \<Longrightarrow>
   op_rg.harmless V E RV T (bind p (\<lambda>err. case err of None \<Rightarrow> Ret x | Some e \<Rightarrow> Ret (y e)))"
  by (auto intro!: op_rules split: option.split)

lemma op_agentMux:
  assumes "cloud_ok E A c I V RV T"
  shows "op_rg.harmless V E RV T (agentMux E txt (call (\<lambda>w. (page w, w))) meth path)"
  unfolding agentMux_def NewMux_def AddClaimHandler_def AddReleaseHandler_def no_route_def readyFn_def
  by (auto intro!: op_reply op_rg.harmless_Ret harmless_op [OF harmless_local] op_ClaimRouteTables [OF assms]
      op_ReleaseRouteTables [OF assms])

lemma op_thread:
  assumes "cloud_ok E A c I V RV T" and "goroutine E p \<or> http_thread E p"
  shows "op_rg.harmless V E RV T p"
proof -
  have "http_thread E p \<Longrightarrow> op_rg.harmless V E RV T p"
    by (induction rule: http_thread.induct) (auto intro!: op_rules op_agentMux [OF assms(1)])
  with assms show ?thesis by (blast intro: harmless_op harmless_goroutine)
qed


interpretation op_cluster: cluster_laws V "\<lambda>i. op_guar (E i) V RV T"
  for E :: "'i \<Rightarrow> 'e agent_env" and V :: "'e \<Rightarrow> kstore" and RV and T
  by unfold_locales (rule op_guar_rely)

lemma thread_keeps_guar:
  fixes E :: "'i \<Rightarrow> 'e agent_env"
  assumes "cloud_ok (E i) A c I V RV T" and "goroutine (E i) p \<or> http_thread (E i) p"
  shows "op_cluster.keeps_guar V E RV T i p"
  using op_thread [OF assms]
  unfolding op_rg.harmless_def unfolding op_cluster.keeps_guar_def op_step_def [abs_def] .

section \<open>Property\<close>

text \<open>
  C5: However goroutines and HTTP requests of all agents interleave, Leases are as safe as
  without the requests: no step changes a live Lease of another agent, except the preemption of
  a foreign failover holder by an agent at home in the AZ. A default route that points at an
  instance pointed there at the start, or an agent on that instance has held the Lease of the
  table's AZ or is at home in it; no more can be said, for a request to \<open>/claim\<close> does not ask for
  the Lease.
\<close>

theorem operated_cluster:
  fixes E :: "'i \<Rightarrow> 'e agent_env"
  assumes "\<And>i. cloud_ok (E i) (A i) (c i) (I i) V RV T"
    and "\<And>i t. goroutine (E i) (P (i, t)) \<or> http_thread (E i) (P (i, t))"
    and "kstore_wf (V (snd x0))" and "par_reach (agent_threads E P, x0) s"
  shows "(\<forall>k inst. RV (snd (snd s)) k = Some (ToInstance inst) \<longrightarrow> RV (snd x0) k = Some (ToInstance inst) \<or>
      (\<exists>i. cfg_InstanceID (rcfg (E i)) = inst \<and> (served (E i) V (T k) (snd (snd s)) \<or> T k = az_of (E i)))) \<and>
    (\<forall>i t s' ns az l a. par_step s (i, t) s' \<longrightarrow> objs (V (snd (snd s))) (ns, leaseName az) = Some l \<longrightarrow>
      holderIdentity l = Some a \<longrightarrow> a \<noteq> podName (E i) \<longrightarrow> \<not> IsExpired l (clock (V (snd (snd s)))) \<longrightarrow>
      holderHomeAZ l = az \<or> holderHomeAZ l = '''' \<or> homeAZ (leaseMgr (E i)) \<noteq> az \<longrightarrow>
      objs (V (snd (snd s'))) (ns, leaseName az) = Some l)"
proof (intro conjI allI impI)
  have keep: "op_cluster.keeps_guar V E RV T i (P (i, t))" for i t
    by (rule thread_keeps_guar) (rule assms)+
  fix k inst assume R: "RV (snd (snd s)) k = Some (ToInstance inst)"
  let ?J = "\<lambda>e. RV e k = Some (ToInstance inst) \<longrightarrow> RV (snd x0) k = Some (ToInstance inst) \<or>
    (\<exists>i. cfg_InstanceID (rcfg (E i)) = inst \<and> (served (E i) V (T k) e \<or> T k = az_of (E i)))"
  have pres: "?J e'" if "?J e" and g: "op_guar (E i) V RV T e e'" for i e e'
  proof -
    have more: "served (E j) V az e \<Longrightarrow> served (E j) V az e'" for j az
      using op_guar_rely [OF g] by (auto simp: served_def intro: has_held_stable)
    from g that(1) more show ?thesis
      by (auto simp: op_guar_def op_route_part_def route_part_def split: if_splits)
  qed
  have "?J (snd (snd s))"
    using op_cluster.interleaved_reach [where E = E and P = P and Ea = E and V = V and J = ?J, OF keep assms(3,4)] pres
    by blast
  with R show "RV (snd x0) k = Some (ToInstance inst) \<or>
    (\<exists>i. cfg_InstanceID (rcfg (E i)) = inst \<and> (served (E i) V (T k) (snd (snd s)) \<or> T k = az_of (E i)))" by blast
next
  have keep: "op_cluster.keeps_guar V E RV T i (P (i, t))" for i t
    by (rule thread_keeps_guar) (rule assms)+
  fix i t s' ns az l a
  assume step: "par_step s (i, t) s'" and l: "objs (V (snd (snd s))) (ns, leaseName az) = Some l"
    "holderIdentity l = Some a" "a \<noteq> podName (E i)" "\<not> IsExpired l (clock (V (snd (snd s))))"
    and home: "holderHomeAZ l = az \<or> holderHomeAZ l = '''' \<or> homeAZ (leaseMgr (E i)) \<noteq> az"
  have "kstore_wf (V (snd (snd s))) \<and> True"
    using op_cluster.interleaved_reach [where E = E and P = P and Ea = E and V = V and J = "\<lambda>_. True", OF keep assms(3,4)]
    by blast
  then have "lease_change (pol_of (E i)) (podName (E i)) (homeAZ (leaseMgr (E i))) (namespace (leaseMgr (E i)))
      (V (snd (snd s))) (V (snd (snd s')))"
    using op_cluster.interleaved_step [where E = E and P = P and Ea = E and V = V, OF keep assms(3,4) step]
    by (simp add: op_guar_def lease_part_def lease_guar_def)
  from change_spares_live_owner [OF this [unfolded pol_of_def] l refl home]
  show "objs (V (snd (snd s'))) (ns, leaseName az) = Some l" .
qed

section \<open>A claim at a standby agent\<close>

text \<open>
  Two agents of one AZ: the first holds the Lease, the second gets a request to \<open>/claim\<close> and
  takes the route all the same.
\<close>

definition twin_env :: "nat \<Rightarrow> sim agent_env" where
  "twin_env i = (if i = 0 then sim_env ''az1'' ''pod-a'' ''i-a'' False else sim_env ''az1'' ''pod-x'' ''i-x'' False)"

definition no_page :: "sim agentw \<Rightarrow> reply" where
  "no_page w = reply_ok"

definition twin_threads :: "nat \<times> bool \<Rightarrow> (sim agentw, unit) prog" where
  "twin_threads = (\<lambda>(i, b).
     if b then bind (agentMux (twin_env i) (\<lambda>_. '''') (call (\<lambda>w. (no_page w, w))) ''POST'' ''/claim'') (\<lambda>_. Ret ())
     else bind (leaseTick (twin_env i)) (\<lambda>_. Ret ()))"

lemma twin_cloud: "cloud_ok (twin_env i) (sim_ec2 two_tables) sim_settings sim_iptables sim_store sim_routes (sim_tag two_tables)"
  by (simp add: twin_env_def sim_cloud_ok)

lemma twin_thread: "goroutine (twin_env i) (twin_threads (i, t)) \<or> http_thread (twin_env i) (twin_threads (i, t))"
  unfolding twin_threads_def prod.case
  by (cases t) (simp_all only: if_True if_False goroutine.lease_loop goroutine.idle http_thread.request http_thread.closed simp_thms)

lemma twin_claims:
  assumes "sim_routes (outside w) = sim_routes sim_start"
  shows "\<exists>w'. run (twin_threads (1, True)) w = ((), w') \<and>
    sim_routes (outside w') ''rtb-1'' = Some (ToInstance ''i-x'') \<and> sim_mem (outside w') = sim_mem (outside w)"
proof -
  have claim: "\<exists>e. run (claimRouteTable (sim_ec2 two_tables) ''rtb-1'' ''i-x'') (outside w) = (None, e) \<and>
      sim_routes e ''rtb-1'' = Some (ToInstance ''i-x'') \<and> sim_mem e = sim_mem (outside w)"
    using assms by (simp add: claimRouteTable_def sim_ec2_def sim_start_def isEC2ErrorCode_def wrap_err_def)
  then obtain e where e: "run (claimRouteTable (sim_ec2 two_tables) ''rtb-1'' ''i-x'') (outside w) = (None, e)"
    "sim_routes e ''rtb-1'' = Some (ToInstance ''i-x'')" "sim_mem e = sim_mem (outside w)" by blast
  show ?thesis
    using e by (simp add: twin_threads_def twin_env_def agentMux_def NewMux_def AddClaimHandler_def ClaimRouteTables_def
        sim_discover_az1 [OF assms] cacheFallbackTargets_def cache_one_def cache_first_def note_vpc_def Let_def)
qed

theorem operated_cluster_witness:
  "\<exists>s. par_reach (agent_threads twin_env twin_threads, pair_start 0) s \<and>
     sim_routes (snd (snd s)) ''rtb-1'' = Some (ToInstance ''i-x'') \<and>
     objs (sim_store (snd (snd s))) (''kube-system'', leaseName ''az1'') = Some lease_a \<and>
     (\<exists>i. cfg_InstanceID (rcfg (twin_env i)) = ''i-x'')"
proof -
  let ?w = "agentw_start new_rec_state False (mem_a 0)" and ?c = "pair_start 0"
  obtain w where w: "run (twin_threads (1, True)) ?w = ((), w)" and R: "sim_routes (outside w) ''rtb-1'' = Some (ToInstance ''i-x'')"
    and m: "sim_mem (outside w) = mem_a 0"
    using twin_claims [of ?w] by auto
  have "run (agent_threads twin_env twin_threads (1, True)) ?c = ((), agent_put 1 w ?c)"
    using w run_on_agent [of 1 "twin_threads (1, True)" ?w ?c] pair_start_put [of 0] by (simp add: agent_threads_def)
  from par_run [where P = "agent_threads twin_env twin_threads", OF this refl] obtain P'
    where reach: "par_reach (agent_threads twin_env twin_threads, ?c) (P', agent_put 1 w ?c)" by blast
  have "sim_routes (snd ?c) ''rtb-1'' \<noteq> Some (ToInstance ''i-x'')" by (simp add: pair_start_def sim_start_def)
  moreover have R': "sim_routes (snd (snd (P', agent_put 1 w ?c))) ''rtb-1'' = Some (ToInstance ''i-x'')"
    using R by (simp add: agent_put_def)
  ultimately have "\<exists>i. cfg_InstanceID (rcfg (twin_env i)) = ''i-x''"
    using operated_cluster [OF twin_cloud twin_thread pair_wf reach, THEN conjunct1] by blast
  moreover have "objs (sim_store (snd (agent_put 1 w ?c))) (''kube-system'', leaseName ''az1'') = Some lease_a"
    using m by (simp add: agent_put_def sim_store_def mem_a_objs leaseName_def)
  ultimately show ?thesis using reach R' by (intro exI [of _ "(P', agent_put 1 w ?c)"]) simp
qed

end
