(* ===== verification/Agent_Form.thy ===== *)
theory Agent_Form
  imports Agent_Operators
begin

text \<open>
  What the goroutines and the HTTP requests of an agent do to its own memory: the locale
  \<open>agent_laws\<close> lists the few ways in which they change the metrics and the bookkeeping of the
  reconciler, so that a relation with these laws holds at every step of every thread.
\<close>

section \<open>The laws\<close>

text \<open>
  Start-up creates the series that name the agent, the others are created by the goroutines;
  none of them counts a takeover of the agent's own AZ, and none adds to the traffic
  counters.
\<close>

definition own_series :: "'e agent_env \<Rightarrow> metrics \<Rightarrow> bool" where
  "own_series E m \<longleftrightarrow>
     (\<forall>k. TrafficSeries m k = [(az_of E, cfg_InstanceID (rcfg E), cfg_Iface (rcfg E)) \<mapsto> 0]) \<and>
     dom (RulePresent m) \<subseteq> {''MASQUERADE''} \<and>
     dom (TxBytesPerSec m) \<subseteq> {(az_of E, cfg_InstanceID (rcfg E))} \<and>
     dom (RxBytesPerSec m) \<subseteq> {(az_of E, cfg_InstanceID (rcfg E))} \<and>
     LastFailover m (az_of E) = None"

text \<open>
  \<open>D az K\<close> is what a discovery for \<open>az\<close> says of the tables \<open>K\<close> it finds. The bookkeeping
  forgets tables, replaces the owned ones by tables found for the own AZ, and adds tables
  found for another AZ.
\<close>

locale agent_laws =
  fixes E :: "'e agent_env" and D :: "string \<Rightarrow> string set \<Rightarrow> bool" and G :: "'e agentw \<Rightarrow> 'e agentw \<Rightarrow> bool"
  assumes measures: "rec_st w' = rec_st w \<Longrightarrow> (own_series E (reg w) \<Longrightarrow> own_series E (reg w')) \<Longrightarrow> G w w'"
    and forgets: "reg w' = reg w \<Longrightarrow> foreignOwnedTables (rec_st w') \<subseteq>\<^sub>m foreignOwnedTables (rec_st w) \<Longrightarrow>
      set (ownedTables (rec_st w')) \<subseteq> set (ownedTables (rec_st w)) \<Longrightarrow> G w w'"
    and owns: "reg w' = reg w \<Longrightarrow> foreignOwnedTables (rec_st w') = foreignOwnedTables (rec_st w) \<Longrightarrow>
      D (az_of E) (set (ownedTables (rec_st w'))) \<Longrightarrow> G w w'"
    and covers_more: "reg w' = reg w \<Longrightarrow> rec_st w' = add_foreign az ids (rec_st w) \<Longrightarrow> az \<noteq> az_of E \<Longrightarrow>
      D az (set ids) \<Longrightarrow> G w w'"
    and discovered: "anyhow (\<lambda>_ _. True) (\<lambda>r. \<forall>ts. r = Inr ts \<longrightarrow> D az (ID ` set ts))
      (DiscoverRouteTables (EC2Client (rcfg E)) az)"
    and D_mono: "D az K \<Longrightarrow> K' \<subseteq> K \<Longrightarrow> D az K'"
begin

abbreviation keeps :: "('e agentw, 'a) prog \<Rightarrow> bool" where
  "keeps p \<equiv> anyhow G (\<lambda>_. True) p"

text \<open>Steps of each kind.\<close>

lemma form_Ret: "keeps (Ret a)"
  by simp

lemma form_bind: "keeps p \<Longrightarrow> (\<And>a. keeps (k a)) \<Longrightarrow> keeps (bind p k)"
  by (rule anyhow_bind)

lemma form_for_each: "(\<And>x. x \<in> set xs \<Longrightarrow> keeps (b x)) \<Longrightarrow> keeps (for_each b xs)"
  by (rule anyhow_for_each)

lemma form_local: "(\<And>w r w'. f w = (r, w') \<Longrightarrow> reg w' = reg w \<and> rec_st w' = rec_st w) \<Longrightarrow> keeps (call f)"
  by (rule anyhow_call) (simp add: measures)

lemma form_metric: "(\<And>m. own_series E m \<Longrightarrow> own_series E (f m)) \<Longrightarrow> keeps (metric f)"
  unfolding metric_def by (rule anyhow_call) (auto intro: measures)

lemma form_locked:
  "(\<And>s r s'. f s = (r, s') \<Longrightarrow> foreignOwnedTables s' \<subseteq>\<^sub>m foreignOwnedTables s \<and> set (ownedTables s') \<subseteq> set (ownedTables s)) \<Longrightarrow>
   keeps (locked f)"
  unfolding locked_def
proof (rule anyhow_call)
  fix w :: "'e agentw" and r w'
  assume f: "\<And>s r s'. f s = (r, s') \<Longrightarrow> foreignOwnedTables s' \<subseteq>\<^sub>m foreignOwnedTables s \<and> set (ownedTables s') \<subseteq> set (ownedTables s)"
    and "(case f (rec_st w) of (r, s) \<Rightarrow> (r, w\<lparr>rec_st := s\<rparr>)) = (r, w')"
  then obtain s where s: "f (rec_st w) = (r, s)" and w': "w' = w\<lparr>rec_st := s\<rparr>" by (auto split: prod.splits)
  show "G w w' \<and> True" using f [OF s] by (intro conjI TrueI forgets) (simp_all add: w')
qed

lemma form_read: "keeps (locked (\<lambda>s. (f s, s)))"
  by (rule form_locked) simp

lemma form_out_result: "anyhow (\<lambda>_ _. True) Q p \<Longrightarrow> anyhow G Q (out p)"
  by (rule anyhow_out) (simp_all add: measures)

lemma form_out: "keeps (out p)"
  by (rule form_out_result) (rule anyhow_any)

lemmas form_rules = form_Ret form_bind form_for_each form_read form_out

lemma form_result: "anyhow G Q p \<Longrightarrow> (\<And>a. Q a \<Longrightarrow> keeps (k a)) \<Longrightarrow> keeps (bind p k)"
  by (rule anyhow_bind)

lemma form_discovery:
  "(\<And>ts. D az (ID ` set ts) \<Longrightarrow> keeps (k (Inr ts))) \<Longrightarrow> (\<And>e. keeps (k (Inl e))) \<Longrightarrow>
   keeps (bind (out (DiscoverRouteTables (EC2Client (rcfg E)) az)) k)"
proof (rule form_result [OF form_out_result [OF discovered]])
  fix r :: "route_table list result" assume "\<And>ts. D az (ID ` set ts) \<Longrightarrow> keeps (k (Inr ts))" "\<And>e. keeps (k (Inl e))"
    and "\<forall>ts. r = Inr ts \<longrightarrow> D az (ID ` set ts)"
  then show "keeps (k r)" by (cases r) auto
qed

section \<open>The bookkeeping\<close>

lemma form_set_owned: "keeps (set_owned k v)"
  unfolding set_owned_def by (rule form_metric) (simp add: own_series_def)

lemma form_clear_owned: "keeps (clear_owned ids)"
  unfolding clear_owned_def by (rule form_for_each) (rule form_set_owned)

lemma form_cache: "keeps (cacheFallbackTargets cfg rts)"
  unfolding cacheFallbackTargets_def cache_one_def
  by (auto intro!: form_rules form_locked simp: cache_first_def cache_found_def note_vpc_def Let_def
      split: sum.split option.split if_splits)

lemma form_DropOwnTables: "keeps DropOwnTables"
  unfolding DropOwnTables_def by (rule form_locked) auto

lemma form_ReleaseForeignAZ: "keeps (ReleaseForeignAZ ko az)"
  unfolding ReleaseForeignAZ_def
  by (rule form_locked) (auto simp: release_foreign_def Let_def map_le_def)

lemma form_vacate_loop: "keeps (vacate_loop cfg foreign vac rts)"
  by (induction rts arbitrary: vac) (auto intro!: form_rules form_locked simp: map_le_def)

lemma form_ReconcileForeign: "keeps (ReconcileForeign cfg ko)"
proof -
  have "keeps (foreign_loop cfg foreign vac azs)" for foreign vac azs
    by (induction azs arbitrary: vac) (auto intro!: form_rules form_vacate_loop split: sum.split)
  then show ?thesis
    unfolding ReconcileForeign_def by (auto intro!: form_rules)
qed

lemma claim_own_tables:
  "anyhow G (\<lambda>r. \<forall>c. r = Inr c \<longrightarrow> set c \<subseteq> set conf \<union> ID ` set rts) (claim_own_loop cfg conf rts)"
proof (induction rts arbitrary: conf)
  case (Cons rt rts)
  have skip: "anyhow G (\<lambda>r. \<forall>c. r = Inr c \<longrightarrow> set c \<subseteq> set conf \<union> ID ` set (rt # rts)) (claim_own_loop cfg conf rts)"
    by (rule anyhow_weaken [OF Cons.IH]) auto
  have take: "anyhow G (\<lambda>r. \<forall>c. r = Inr c \<longrightarrow> set c \<subseteq> set conf \<union> ID ` set (rt # rts))
      (claim_own_loop cfg (conf @ [ID rt]) rts)"
    by (rule anyhow_weaken [OF Cons.IH]) auto
  show ?case
    using skip take by (auto intro!: anyhow_bind [OF form_out] split: option.split)
qed simp

lemma claim_all_tables:
  "anyhow G (\<lambda>r. \<forall>c. r = Inr c \<longrightarrow> set c \<subseteq> set own \<union> ID ` set rts) (claim_all_loop cfg own rts)"
proof (induction rts arbitrary: own)
  case (Cons rt rts)
  have take: "anyhow G (\<lambda>r. \<forall>c. r = Inr c \<longrightarrow> set c \<subseteq> set own \<union> ID ` set (rt # rts))
      (claim_all_loop cfg (own @ [ID rt]) rts)"
    by (rule anyhow_weaken [OF Cons.IH]) auto
  then show ?case by (auto intro!: anyhow_bind [OF form_out] split: option.split)
qed simp

lemma form_owned:
  assumes "D (az_of E) (ID ` set rts)" and "set ids \<subseteq> set [] \<union> ID ` set (rts :: route_table list)"
  shows "keeps (locked (\<lambda>s. ((), s\<lparr>ownedTables := ids\<rparr>)))"
proof -
  have "D (az_of E) (set ids)" by (rule D_mono [OF assms(1)]) (use assms(2) in simp)
  then show ?thesis unfolding locked_def by (intro anyhow_call) (auto intro: owns)
qed

lemma form_claim_discovered:
  assumes "D (az_of E) (ID ` set rts)"
  shows "keeps (claim_discovered cfg rts)"
proof -
  have "keeps (locked (\<lambda>s. ((), if cfg_Mode cfg \<noteq> ''manual'' then s\<lparr>ownedTables := ids\<rparr> else s)))"
    if "set ids \<subseteq> set [] \<union> ID ` set rts" for ids
    using form_owned [OF assms that] by (cases "cfg_Mode cfg = ''manual''") (simp_all add: form_read)
  then show ?thesis
    unfolding claim_discovered_def
    by (auto intro!: form_result [OF claim_own_tables] form_rules form_cache split: sum.split)
qed

lemma form_ClaimOwnRouteTables: "keeps (ClaimOwnRouteTables (rcfg E))"
  unfolding ClaimOwnRouteTables_def az_of_def [symmetric]
  by (rule form_discovery) (auto intro!: form_claim_discovered)

lemma form_ClaimRouteTables: "keeps (ClaimRouteTables (rcfg E))"
  unfolding ClaimRouteTables_def az_of_def [symmetric]
proof (rule form_discovery)
  fix ts :: "route_table list" assume "D (az_of E) (ID ` set ts)"
  note owned = form_owned [OF this]
  show "keeps (case Inr ts of Inl e \<Rightarrow> Ret (Some (Wrap ''discover route tables'' e))
       | Inr tables \<Rightarrow>
           if tables = [] then Ret (Some (Msg (''no route tables found for az='' @ az_of E)))
           else bind (claim_all_loop (rcfg E) [] tables) (\<lambda>c.
             case c of
               Inl e \<Rightarrow> Ret (Some e)
             | Inr owned \<Rightarrow>
                 bind (locked (\<lambda>s. ((), s\<lparr>ownedTables := owned\<rparr>))) (\<lambda>_.
                 bind (cacheFallbackTargets (rcfg E) tables) (\<lambda>_.
                 Ret None))))"
    using owned by (auto intro!: form_result [OF claim_all_tables] form_rules form_cache split: sum.split)
qed simp

lemma form_ReleaseRouteTables: "keeps (ReleaseRouteTables cfg)"
proof -
  have "keeps (release_loop cfg gws vpcs ids)" for gws vpcs ids
    by (induction ids) (auto intro!: form_rules simp: Let_def split: option.split sum.split)
  then show ?thesis
    unfolding ReleaseRouteTables_def by (auto intro!: form_rules form_locked split: option.split)
qed

lemma form_SetupDataPlane: "keeps (SetupDataPlane cfg)"
  unfolding SetupDataPlane_def by (auto intro!: form_rules split: option.split)

section \<open>The goroutines keep it\<close>

lemma form_set_standby: "keeps (set_standby b)"
  unfolding set_standby_def by (rule form_metric) (simp add: own_series_def)

lemma form_set_ready: "keeps (set_ready b)"
  unfolding set_ready_def by (rule form_local) simp

lemma form_isDraining: "keeps (isDraining E)"
  unfolding isDraining_def IsDraining_def by (auto intro: form_local)

lemma form_ensureOwnLease: "keeps (ensureOwnLease E)"
  unfolding ensureOwnLease_def acquireOwnLease_def
  by (auto intro!: form_rules split: option.split)

lemma form_serveOwnAZ: "keeps (serveOwnAZ E)"
  unfolding serveOwnAZ_def
  by (auto intro!: form_rules form_ensureOwnLease form_ClaimOwnRouteTables split: sum.split bool.split)

lemma form_renewOwnLease: "keeps (renewOwnLease E)"
  unfolding renewOwnLease_def OwnClaimPending_def
  by (auto intro!: form_rules form_ensureOwnLease form_ClaimOwnRouteTables split: sum.split bool.split)

lemma takeover_loop_tables:
  "anyhow G (\<lambda>cl. set cl \<subseteq> set claimed \<union> ID ` set rts) (takeover_loop E claimed rts)"
proof (induction rts arbitrary: claimed)
  case (Cons rt rts)
  have skip: "anyhow G (\<lambda>cl. set cl \<subseteq> set claimed \<union> ID ` set (rt # rts)) (takeover_loop E claimed rts)"
    by (rule anyhow_weaken [OF Cons.IH]) auto
  have take: "anyhow G (\<lambda>cl. set cl \<subseteq> set claimed \<union> ID ` set (rt # rts)) (takeover_loop E (claimed @ [ID rt]) rts)"
    by (rule anyhow_weaken [OF Cons.IH]) auto
  show ?case
    using skip take by (auto intro!: anyhow_bind [OF form_out] anyhow_bind [OF form_set_owned] split: option.split)
qed simp

text \<open>Only a takeover of the own AZ would show as one.\<close>

lemma form_takeover_tail:
  assumes "az \<noteq> az_of E" and "D az (ID ` set rts)"
  shows "keeps (takeover_tail E az rts)"
proof -
  have t: "keeps (metric (\<lambda>m. m\<lparr>LastFailover := (LastFailover m)(az \<mapsto> x)\<rparr>))" for x
    by (rule form_metric) (use assms(1) in \<open>simp add: own_series_def\<close>)
  have c: "keeps (count_failover az (az_of E))"
    unfolding count_failover_def by (rule form_metric) (simp add: own_series_def)
  have a: "keeps (AddForeignTables az ids)" if "set ids \<subseteq> set [] \<union> ID ` set rts" for ids
  proof -
    have d: "D az (set ids)" by (rule D_mono [OF assms(2)]) (use that in simp)
    show ?thesis
      unfolding AddForeignTables_def locked_def
      by (rule anyhow_call) (auto intro: covers_more [OF _ _ assms(1) d])
  qed
  show ?thesis
    unfolding takeover_tail_def
    by (rule form_result [OF takeover_loop_tables]) (auto intro!: form_rules t c a)
qed

lemma form_takeover: "az \<noteq> az_of E \<Longrightarrow> keeps (takeover E az)"
  unfolding takeover_def
  by (auto intro!: form_rules form_isDraining form_discovery form_takeover_tail split: option.split)

lemma own_not_expired: "ownAZ \<notin> set (expired_azs items ownAZ now)"
  by (induction items) (auto simp: Let_def)

lemma expired_others:
  "anyhow G (\<lambda>r. \<forall>azs. r = Inr azs \<longrightarrow> ownAZ \<notin> set azs) (out (ListExpiredAZs K m ownAZ))"
  unfolding ListExpiredAZs_def
  by (rule form_out_result) (auto intro!: anyhow_call_bind simp: own_not_expired split: sum.split)

lemma form_sweepStep: "keeps (sweepStep E)"
proof -
  have c: "keeps (coverExpired E az)" if "az \<noteq> az_of E" for az
    unfolding coverExpired_def CoversAZ_def by (auto intro!: form_rules form_takeover that)
  then show ?thesis
    unfolding sweepStep_def
    by (auto intro!: form_rules form_isDraining anyhow_bind [OF expired_others] c split: sum.split)
qed

lemma form_serveStep: "keeps (serveStep E)"
  unfolding serveStep_def
  by (auto intro!: form_rules form_isDraining form_serveOwnAZ form_DropOwnTables form_clear_owned form_set_standby)

lemma form_vacateStep: "keeps (vacateStep E)"
  unfolding vacateStep_def
  by (auto intro!: form_rules form_ReconcileForeign form_clear_owned split: sum.split)

lemma form_updateMetrics: "keeps (updateMetrics E)"
proof -
  have f: "keeps (metric (\<lambda>m. m\<lparr>FallbackAvailable := x\<rparr>))"
    and c: "keeps (metric (\<lambda>m. m\<lparr>ConntrackEntries := x, ConntrackLimit := y, ConntrackUsageRatio := z\<rparr>))"
    and r: "keeps (metric (\<lambda>m. m\<lparr>RulePresent := (RulePresent m)(''MASQUERADE'' \<mapsto> x)\<rparr>))" for x y z
    by (rule form_metric, auto simp: own_series_def)+
  show ?thesis
    unfolding updateMetrics_def conntrackStats_def OwnedTables_def CanFallbackToNAT_def
    by (auto intro!: form_rules form_set_owned f c r split: sum.split)
qed

lemma form_sampleTick: "keeps (sampleTick E s now)"
proof -
  have c: "keeps (metric (\<lambda>m. m\<lparr>CPUUsageRatio := x\<rparr>))"
    and u: "keeps (metric (\<lambda>m. m\<lparr>MemUsedBytes := x, MemTotalBytes := y\<rparr>))" for x y
    by (rule form_metric, simp add: own_series_def)+
  have r: "keeps (set_rates E s0)" for s0
    unfolding set_rates_def by (rule form_metric) (auto simp: own_series_def)
  show ?thesis
    unfolding sampleTick_def set_memory_def Let_def
    by (auto intro!: form_rules c u r split: go_outcome.split sum.split)
qed

lemma form_sampler: "keeps (sampler E ts)"
proof -
  have "keeps (sampleTicks E s ts)" for s
    by (induction ts arbitrary: s) (auto intro!: form_rules form_sampleTick split: go_outcome.split)
  then show ?thesis
    unfolding sampler_def by (auto intro!: form_rules split: go_outcome.split sum.split)
qed

lemma form_discover: "keeps (discover E)"
proof -
  have m: "keeps (metric (\<lambda>m. m\<lparr>PeerStatus := f m, FailoverTotal := g m\<rparr>))" for f g
    by (rule form_metric) (simp add: own_series_def)
  have k: "keeps (mark_connected a n)" for a n
    unfolding mark_connected_def
    by (rule anyhow_call) (auto intro!: measures simp: forget_stale_def own_series_def Let_def split: if_splits)
  show ?thesis
    unfolding discover_def discover_pod_def Let_def
    by (auto intro!: form_rules m k form_local split: sum.split)
qed

lemma form_peerSession: "az \<noteq> az_of E \<Longrightarrow> keeps (peerSession E pf az inst as)"
proof -
  assume az: "az \<noteq> az_of E"
  have m: "keeps (metric (\<lambda>m. m\<lparr>PeerStatus := f m\<rparr>))" for f
    by (rule form_metric) (simp add: own_series_def)
  show ?thesis
    unfolding peerSession_def peerFailure_def peerStepDown_def forget_peer_def
    by (auto intro!: form_rules m form_local form_takeover [OF az] split: option.split connect_result.split)
qed

lemma form_drainTick: "keeps (drainTick E)"
  unfolding drainTick_def drain_check_def onDrain_def IsDraining_def set_draining_def
  by (auto intro!: form_rules form_local split: sum.split)

lemma form_shutdown: "keeps (shutdown E)"
  unfolding shutdown_def ForeignAZs_def stepDownPeer_def
  by (auto intro!: form_rules form_local form_set_ready)

lemma form_leaseTick: "keeps (leaseTick E)"
  unfolding leaseTick_def ForeignAZs_def renewForeign_def
  by (auto intro!: form_rules form_isDraining form_renewOwnLease form_ReleaseForeignAZ form_clear_owned
      split: option.split)

lemma form_reconcileTick: "keeps (reconcileTick E)"
  unfolding reconcileTick_def
  by (auto intro!: form_rules form_SetupDataPlane form_set_ready form_serveStep
      form_vacateStep form_sweepStep form_updateMetrics split: option.split)

lemma form_goroutine: "goroutine E p \<Longrightarrow> keeps p"
proof (induction rule: goroutine.induct)
  case starting
  then show ?case
    unfolding firstService_def
    by (auto intro!: form_rules form_isDraining form_serveOwnAZ form_set_standby)
next
  case (spot_notice p)
  have "keeps onSpotNotice"
    unfolding onSpotNotice_def by (rule form_metric) (simp add: own_series_def)
  with spot_notice show ?case by (blast intro: form_bind)
qed (auto intro!: form_rules form_leaseTick form_reconcileTick form_drainTick form_discover
    form_sampler form_peerSession form_shutdown)

text \<open>Requests, and threads.\<close>

lemma form_reply: "keeps p \<Longrightarrow> keeps (bind p (\<lambda>err. case err of None \<Rightarrow> Ret x | Some e \<Rightarrow> Ret (y e)))"
  by (auto intro!: form_rules split: option.split)

lemma form_agentMux: "keeps (agentMux E txt (call (\<lambda>w. (page w, w))) meth path)"
  unfolding agentMux_def NewMux_def AddClaimHandler_def AddReleaseHandler_def no_route_def readyFn_def
  by (auto intro!: form_reply form_Ret form_local form_ClaimRouteTables form_ReleaseRouteTables)

lemma form_thread: "goroutine E p \<or> http_thread E p \<Longrightarrow> keeps p"
proof -
  have "http_thread E p \<Longrightarrow> keeps p"
    by (induction rule: http_thread.induct) (auto intro!: form_rules form_agentMux)
  then show "goroutine E p \<or> http_thread E p \<Longrightarrow> keeps p" using form_goroutine by blast
qed

end

section \<open>Agents in a cluster\<close>

text \<open>Each agent's threads keep its own relation, and leave the others' memory alone.\<close>

lemma cluster_keeps_form:
  fixes E :: "'i \<Rightarrow> 'e agent_env" and ok :: "'i \<Rightarrow> 'e agentw \<Rightarrow> bool"
  assumes "\<And>i t. anyhow (\<lambda>w w'. ok i w \<longrightarrow> ok i w') (\<lambda>_. True) (P (i, t))"
    and local: "\<And>i w v. ok i (w\<lparr>outside := v\<rparr>) = ok i w"
    and "par_reach (agent_threads E P, c0) s" and "ok i (fst c0 i)"
  shows "ok i (fst (snd s) i)"
proof -
  let ?G = "\<lambda>x y :: ('i, 'e) cluster. \<forall>i. ok i (fst x i) \<longrightarrow> ok i (fst y i)"
  obtain P' c where s: "s = (P', c)" by (cases s) blast
  have "anyhow ?G (\<lambda>_. True) (on_agent j p)" if p: "anyhow (\<lambda>w w'. ok j w \<longrightarrow> ok j w') (\<lambda>_. True) p"
    for j and p :: "('e agentw, unit) prog"
    unfolding anyhow_def
  proof
    fix x :: "('i, 'e) cluster"
    have "safe (\<lambda>_ _. True) (\<lambda>w w'. ok j w \<longrightarrow> ok j w') (\<lambda>a _. True) p (agent_view j x)"
      using p by (simp add: anyhow_def)
    then show "safe (\<lambda>_ _. True) ?G (\<lambda>_ _. True) (on_agent j p) x"
      unfolding on_agent_def
      by (rule safe_zoom) (auto simp: agent_view_put agent_view_def agent_put_def local)
  qed
  then have keep: "anyhow ?G (\<lambda>_. True) (agent_threads E P it)" for it
    using assms(1) by (cases it) (simp add: agent_threads_def)
  have "?G c0 c"
  proof (rule anyhow_reach [where P = "agent_threads E P" and P' = P'])
    show "anyhow ?G (\<lambda>_. True) (agent_threads E P it)" for it by (rule keep)
    show "par_reach (agent_threads E P, c0) (P', c)" using assms(3) by (simp add: s)
  qed auto
  with assms(4) show ?thesis by (simp add: s)
qed

end
