(* ===== verification/Agent_Bookkeeping.thy ===== *)
theory Agent_Bookkeeping
  imports Agent_Form
begin

text \<open>
  The reconciler's bookkeeping stays sound along every interleaving of goroutines and HTTP
  requests: own tables are tables of the own AZ, covered tables are tables of the other AZ
  they are covered for.
\<close>

definition book_ok :: "'e agent_env \<Rightarrow> (string \<Rightarrow> string) \<Rightarrow> rec_state \<Rightarrow> bool" where
  "book_ok E T s \<longleftrightarrow> finite (dom (foreignOwnedTables s)) \<and>
     (\<forall>k az. foreignOwnedTables s k = Some az \<longrightarrow> az \<noteq> az_of E \<and> T k = az) \<and>
     (\<forall>k \<in> set (ownedTables s). T k = az_of E)"

text \<open>Every discovery of the agent finds tables tagged with the AZ it asks for.\<close>

definition finds_tagged :: "'e agent_env \<Rightarrow> (string \<Rightarrow> string) \<Rightarrow> bool" where
  "finds_tagged E T \<longleftrightarrow> (\<forall>az. anyhow (\<lambda>_ _. True) (\<lambda>r. \<forall>ts. r = Inr ts \<longrightarrow> (\<forall>k \<in> ID ` set ts. T k = az))
     (DiscoverRouteTables (EC2Client (rcfg E)) az))"

definition tagged_for :: "'e agent_env \<Rightarrow> (string \<Rightarrow> string) \<Rightarrow> string \<Rightarrow> string set \<Rightarrow> bool" where
  "tagged_for E T az K \<longleftrightarrow> (finds_tagged E T \<longrightarrow> (\<forall>k \<in> K. T k = az))"

definition book_step :: "'e agent_env \<Rightarrow> (string \<Rightarrow> string) \<Rightarrow> 'e agentw \<Rightarrow> 'e agentw \<Rightarrow> bool" where
  "book_step E T w w' \<longleftrightarrow> (finds_tagged E T \<longrightarrow> book_ok E T (rec_st w) \<longrightarrow> book_ok E T (rec_st w'))"

lemma book_forgets:
  assumes "book_ok E T s" and "foreignOwnedTables s' \<subseteq>\<^sub>m foreignOwnedTables s" and "set (ownedTables s') \<subseteq> set (ownedTables s)"
  shows "book_ok E T s'"
proof -
  have sub: "foreignOwnedTables s' k = Some az \<Longrightarrow> foreignOwnedTables s k = Some az" for k az
    using assms(2) by (force simp: map_le_def dom_def)
  then have "dom (foreignOwnedTables s') \<subseteq> dom (foreignOwnedTables s)" by auto
  then have "finite (dom (foreignOwnedTables s'))"
    using assms(1) by (auto simp: book_ok_def intro: finite_subset)
  with assms(1,3) sub show ?thesis unfolding book_ok_def by blast
qed

lemma book_adds:
  assumes "book_ok E T s" and "az \<noteq> az_of E" and "\<forall>k \<in> set ids. T k = az"
  shows "book_ok E T (add_foreign az ids s)"
proof -
  have "dom (foreignOwnedTables (add_foreign az ids s)) \<subseteq> set ids \<union> dom (foreignOwnedTables s)"
    by (auto simp: add_foreign_at split: if_splits)
  moreover have "ownedTables (add_foreign az ids s) = ownedTables s" by (simp add: add_foreign_def)
  ultimately show ?thesis
    using assms by (auto simp: book_ok_def add_foreign_at intro: finite_subset split: if_splits)
qed

lemma tagged_discovery:
  "anyhow (\<lambda>_ _. True) (\<lambda>r. \<forall>ts. r = Inr ts \<longrightarrow> tagged_for E T az (ID ` set ts))
     (DiscoverRouteTables (EC2Client (rcfg E)) az)"
proof (cases "finds_tagged E T")
  case True
  then have "anyhow (\<lambda>_ _. True) (\<lambda>r. \<forall>ts. r = Inr ts \<longrightarrow> (\<forall>k \<in> ID ` set ts. T k = az))
      (DiscoverRouteTables (EC2Client (rcfg E)) az)" by (simp add: finds_tagged_def)
  then show ?thesis by (rule anyhow_weaken) (simp add: tagged_for_def)
next
  case False
  show ?thesis by (rule anyhow_weaken [OF anyhow_any]) (simp add: tagged_for_def False)
qed

interpretation books: agent_laws E "tagged_for E T" "book_step E T"
  for E :: "'e agent_env" and T
proof unfold_locales
  fix az
  show "anyhow (\<lambda>_ _. True) (\<lambda>r. \<forall>ts. r = Inr ts \<longrightarrow> tagged_for E T az (ID ` set ts))
      (DiscoverRouteTables (EC2Client (rcfg E)) az)" by (rule tagged_discovery)
qed (auto simp: book_step_def tagged_for_def book_forgets book_adds, simp add: book_ok_def)

lemma cloud_finds_tagged:
  assumes "cloud_ok E A c I V RV T"
  shows "finds_tagged E T"
  unfolding finds_tagged_def
proof
  fix az
  have "anyhow (\<lambda>_ _. True) (\<lambda>d. \<forall>ts rt. d = Inr ts \<longrightarrow> rt \<in> set ts \<longrightarrow> T (ID rt) = az)
      (DiscoverRouteTables (EC2Client (rcfg E)) az)"
    using discover_anyhow [OF cloudD(5) [OF assms], of az] unfolding cloudD(1) [OF assms] realEC2Client_simps anyhow_def
    by (auto intro: safe_mono)
  then show "anyhow (\<lambda>_ _. True) (\<lambda>r. \<forall>ts. r = Inr ts \<longrightarrow> (\<forall>k \<in> ID ` set ts. T k = az))
      (DiscoverRouteTables (EC2Client (rcfg E)) az)"
    by (rule anyhow_weaken) auto
qed

text \<open>
  C7: At any moment of any interleaving of the cluster's goroutines and HTTP requests, an
  agent's own tables carry the tag of its own AZ, each covered table the tag of the AZ it is
  covered for, which is never the own one, so no table is both; only finitely many are covered.
\<close>

theorem bookkeeping_is_sound:
  fixes E :: "'i \<Rightarrow> 'e agent_env"
  assumes "\<And>i. cloud_ok (E i) (A i) (c i) (I i) V RV T"
    and "\<And>i t. goroutine (E i) (P (i, t)) \<or> http_thread (E i) (P (i, t))"
    and "par_reach (agent_threads E P, c0) s" and "rec_st (fst c0 i) = new_rec_state"
    and "b = rec_st (fst (snd s) i)"
  shows "(\<forall>k \<in> set (ownedTables b). T k = az_of (E i)) \<and>
    (\<forall>k az. foreignOwnedTables b k = Some az \<longrightarrow> T k = az \<and> az \<noteq> az_of (E i)) \<and>
    set (ownedTables b) \<inter> dom (foreignOwnedTables b) = {} \<and> finite (dom (foreignOwnedTables b))"
proof -
  have "book_ok (E i) T (rec_st (fst (snd s) i))"
  proof (rule cluster_keeps_form [where ok = "\<lambda>i w. book_ok (E i) T (rec_st w)", OF _ _ assms(3)])
    show "anyhow (\<lambda>w w'. book_ok (E j) T (rec_st w) \<longrightarrow> book_ok (E j) T (rec_st w')) (\<lambda>_. True) (P (j, t))" for j t
      using books.form_thread [OF assms(2), where T = T] cloud_finds_tagged [OF assms(1)]
      by (simp add: book_step_def [abs_def])
    show "book_ok (E i) T (rec_st (fst c0 i))" by (simp add: assms(4) book_ok_def new_rec_state_def)
  qed simp
  then show ?thesis by (auto simp: book_ok_def assms(5))
qed

theorem bookkeeping_is_sound_witness:
  "\<exists>s. par_reach (agent_threads pair_env pair_threads, pair_start 20000000000) s \<and>
     foreignOwnedTables (rec_st (fst (snd s) 1)) ''rtb-1'' = Some ''az1'' \<and>
     ''rtb-1'' \<notin> set (ownedTables (rec_st (fst (snd s) 1)))"
proof -
  obtain s where s: "par_reach (agent_threads pair_env pair_threads, pair_start 20000000000) s"
    and f: "foreignOwnedTables (rec_st (fst (snd s) 1)) ''rtb-1'' = Some ''az1''"
    using pair_takes_over by blast
  have "rec_st (fst (pair_start 20000000000) 1) = new_rec_state" by (simp add: pair_start_def)
  from bookkeeping_is_sound [OF pair_cloud disjI1 [OF pair_goroutine] s this refl] f
  have "''rtb-1'' \<notin> set (ownedTables (rec_st (fst (snd s) 1)))" by blast
  with s f show ?thesis by blast
qed

end
