(* ===== verification/Ownership.thy ===== *)
theory Ownership
  imports Agent_Scenarios
begin

text \<open>
  The abstract specification of the cluster: a machine whose state is a clock and, for every
  AZ, its owner. The agents of \<open>crew\<close> claim, renew, seize, reclaim and yield AZs, and nothing
  else happens. Every interleaving of the agents' goroutines is a run of this machine: the
  Leases, their versions, the retries and the metrics are details of how it is implemented.
\<close>

section \<open>The machine\<close>

record owner =
  who :: "string option"
  home :: string
  live_until :: "int option"

definition lapsed :: "owner \<Rightarrow> int \<Rightarrow> bool" where
  "lapsed x t \<longleftrightarrow> (case live_until x of None \<Rightarrow> True | Some u \<Rightarrow> u < t)"

type_synonym ownership = "int \<times> (string \<rightharpoonup> owner)"

text \<open>What an agent named \<open>h\<close> at home in \<open>z\<close> makes of an AZ it takes or renews.\<close>

definition owned_by :: "string \<Rightarrow> string \<Rightarrow> owner \<Rightarrow> bool" where
  "owned_by h z x \<longleftrightarrow> who x = Some h \<and> (z \<noteq> '''' \<longrightarrow> home x = z)"

inductive own_step :: "(string \<times> string) set \<Rightarrow> ownership \<Rightarrow> ownership \<Rightarrow> bool" for crew where
  wait: "t \<le> t' \<Longrightarrow> own_step crew (t, f) (t', f)"
| claim: "(h, z) \<in> crew \<Longrightarrow> f az = None \<Longrightarrow> owned_by h z x \<Longrightarrow> t \<le> t' \<Longrightarrow> own_step crew (t, f) (t', f(az \<mapsto> x))"
| renew: "(h, z) \<in> crew \<Longrightarrow> f az = Some y \<Longrightarrow> who y = Some h \<Longrightarrow> owned_by h z x \<Longrightarrow> t \<le> t' \<Longrightarrow>
    own_step crew (t, f) (t', f(az \<mapsto> x))"
| seize: "(h, z) \<in> crew \<Longrightarrow> f az = Some y \<Longrightarrow> lapsed y t \<Longrightarrow> owned_by h z x \<Longrightarrow> t \<le> t' \<Longrightarrow>
    own_step crew (t, f) (t', f(az \<mapsto> x))"
| reclaim: "(h, az) \<in> crew \<Longrightarrow> f az = Some y \<Longrightarrow> home y \<noteq> '''' \<Longrightarrow> home y \<noteq> az \<Longrightarrow> owned_by h az x \<Longrightarrow> t \<le> t' \<Longrightarrow>
    own_step crew (t, f) (t', f(az \<mapsto> x))"
| yield: "(h, z) \<in> crew \<Longrightarrow> f az = Some y \<Longrightarrow> who y = Some h \<Longrightarrow> t \<le> t' \<Longrightarrow> own_step crew (t, f) (t', f(az := None))"

inductive_cases own_stepE: "own_step crew (t, f) (t', f')"

inductive own_reach :: "(string \<times> string) set \<Rightarrow> ownership \<Rightarrow> ownership \<Rightarrow> bool" for crew where
  own_refl: "own_reach crew c c"
| own_more: "own_reach crew c d \<Longrightarrow> own_step crew d e \<Longrightarrow> own_reach crew c e"

section \<open>What the machine promises\<close>

text \<open>Time only passes, and the agents own only what they claimed themselves.\<close>

lemma own_step_who:
  assumes "own_step crew (t, f) (t', f')"
  shows "t \<le> t' \<and> (\<forall>az x. f' az = Some x \<longrightarrow> f az = Some x \<or> (\<exists>h z. (h, z) \<in> crew \<and> owned_by h z x))"
  using assms by (cases rule: own_stepE) (auto split: if_splits)

lemma own_reach_who:
  "own_reach crew c d \<Longrightarrow> fst c \<le> fst d \<and>
   (\<forall>az x. snd d az = Some x \<longrightarrow> snd c az = Some x \<or> (\<exists>h z. (h, z) \<in> crew \<and> owned_by h z x))"
proof (induction rule: own_reach.induct)
  case (own_more c d e)
  with own_step_who [of crew "fst d" "snd d" "fst e" "snd e"] show ?case
    by (metis order_trans prod.collapse)
qed simp

text \<open>An owner that has not lapsed loses its AZ only by its own doing or to an agent at home there.\<close>

lemma live_owner_displaced:
  assumes "own_step crew (t, f) (t', f')" and "f az = Some y" and "\<not> lapsed y t" and "f' az \<noteq> Some y"
  shows "(\<exists>h z. (h, z) \<in> crew \<and> who y = Some h) \<or>
    (\<exists>h x. (h, az) \<in> crew \<and> f' az = Some x \<and> owned_by h az x \<and> home y \<noteq> '''' \<and> home y \<noteq> az)"
  using assms by (cases rule: own_stepE) (auto split: if_splits)

section \<open>The abstraction\<close>

definition owner_of :: "lease \<Rightarrow> owner" where
  "owner_of l = \<lparr>who = holderIdentity l, home = holderHomeAZ l,
     live_until = (case (renewTime l, leaseDurationSeconds l) of
       (Some r, Some d) \<Rightarrow> Some (r + d * 1000000000) | _ \<Rightarrow> None)\<rparr>"

definition ownership_of :: "string \<Rightarrow> kstore \<Rightarrow> ownership" where
  "ownership_of ns S = (clock S, \<lambda>az. map_option owner_of (objs S (ns, leaseName az)))"

lemma owner_of_simps [simp]: "who (owner_of l) = holderIdentity l" "home (owner_of l) = holderHomeAZ l"
  by (simp_all add: owner_of_def)

lemma lapsed_owner_of [simp]: "lapsed (owner_of l) t = IsExpired l t"
  by (auto simp: lapsed_def owner_of_def IsExpired_def split: option.split)

lemma leaseName_inj: "leaseName a = leaseName b \<longleftrightarrow> a = b"
  by (simp add: leaseName_def)

text \<open>A permitted change of a Lease is a step of the machine.\<close>

lemma change_is_own_step:
  assumes "lease_change (takeover_policy h z) h z ns S S'" and "(h, z) \<in> crew" and "clock S \<le> clock S'"
  shows "own_step crew (ownership_of ns S) (ownership_of ns S')"
proof (cases "objs S' = objs S")
  case True
  then show ?thesis using assms(3) by (simp add: ownership_of_def own_step.wait)
next
  case False
  let ?f = "\<lambda>az. map_option owner_of (objs S (ns, leaseName az))"
  from False assms(1) obtain az where
    frame: "\<forall>k. k \<noteq> (ns, leaseName az) \<longrightarrow> objs S' k = objs S k"
    and ok: "change_ok (\<lambda>l. takeover_policy h z az l (clock S)) h z (objs S (ns, leaseName az)) (objs S' (ns, leaseName az))"
    unfolding lease_change_def by blast
  have S': "ownership_of ns S' = (clock S', ?f(az := map_option owner_of (objs S' (ns, leaseName az))))"
    using frame by (auto simp: ownership_of_def leaseName_inj fun_eq_iff)
  show ?thesis
  proof (cases "objs S' (ns, leaseName az)")
    case None
    show ?thesis
    proof (cases "objs S (ns, leaseName az)")
      case None2: None
      with None S' have "ownership_of ns S' = (clock S', ?f)" by (auto simp: fun_eq_iff)
      then show ?thesis using assms(3) by (simp add: ownership_of_def own_step.wait)
    next
      case (Some l)
      with None ok have "holderIdentity l = Some h" by simp
      then have "own_step crew (clock S, ?f) (clock S', ?f(az := None))"
        by (intro own_step.yield [where f = ?f and az = az and y = "owner_of l", OF assms(2)]) (simp_all add: Some assms(3))
      with None S' show ?thesis by (simp add: ownership_of_def)
    qed
  next
    case (Some l')
    have mine: "owned_by h z (owner_of l')"
      using ok Some by (cases "objs S (ns, leaseName az)") (auto simp: owned_by_def)
    have "own_step crew (clock S, ?f) (clock S', ?f(az \<mapsto> owner_of l'))"
    proof (cases "objs S (ns, leaseName az)")
      case None
      then show ?thesis by (intro own_step.claim [where f = ?f and az = az, OF assms(2) _ mine assms(3)]) simp
    next
      case Some2: (Some l)
      have f: "?f az = Some (owner_of l)" by (simp add: Some2)
      from ok Some Some2 have "takeover_policy h z az l (clock S)" by simp
      then consider "holderIdentity l = Some h" | "IsExpired l (clock S)"
        | "z = az" "holderHomeAZ l \<noteq> ''''" "holderHomeAZ l \<noteq> az" by (auto simp: takeover_policy_def)
      then show ?thesis
      proof cases
        case 1
        then show ?thesis by (intro own_step.renew [where f = ?f and az = az and y = "owner_of l", OF assms(2) f _ mine assms(3)]) simp
      next
        case 2
        then show ?thesis by (intro own_step.seize [where f = ?f and az = az and y = "owner_of l", OF assms(2) f _ mine assms(3)]) simp
      next
        case 3
        with mine assms(2) show ?thesis by (intro own_step.reclaim [where f = ?f and az = az and y = "owner_of l", OF _ f _ _ _ assms(3)]) simp_all
      qed
    qed
    with Some S' show ?thesis by (simp add: ownership_of_def)
  qed
qed

text \<open>A change in another namespace is none here.\<close>

definition crew_of :: "('i \<Rightarrow> 'e agent_env) \<Rightarrow> (string \<times> string) set" where
  "crew_of E = range (\<lambda>i. (podName (E i), homeAZ (leaseMgr (E i))))"

section \<open>The refinement\<close>

text \<open>
  C1: Every interleaving of the goroutines of all agents is a run of the ownership
  machine: from the owners at the start, agents only claim AZs without an owner, renew or yield
  their own, seize lapsed ones, and reclaim their home AZ from an owner of another AZ.
\<close>

theorem cluster_refines_ownership:
  fixes E :: "'i \<Rightarrow> 'e agent_env"
  assumes "\<And>i. cloud_ok (E i) (A i) (c i) (I i) V RV T" and "\<And>i t. goroutine (E i) (P (i, t))"
    and "\<And>i. namespace (leaseMgr (E i)) = ns" and "kstore_wf (V (snd x0))"
    and "par_reach (agent_threads E P, x0) s"
  shows "own_reach (crew_of E) (ownership_of ns (V (snd x0))) (ownership_of ns (V (snd (snd s))))"
proof -
  have "kstore_wf (V (snd (snd s))) \<and>
      own_reach (crew_of E) (ownership_of ns (V (snd x0))) (ownership_of ns (V (snd (snd s))))"
  proof (rule cluster_reach [OF assms(1,2,4,5)])
    fix i e e'
    assume wf: "kstore_wf (V e)" and r: "own_reach (crew_of E) (ownership_of ns (V (snd x0))) (ownership_of ns (V e))"
      and g: "agent_guar (E i) V RV T e e'"
    have crew: "(podName (E i), homeAZ (leaseMgr (E i))) \<in> crew_of E" by (simp add: crew_of_def)
    from g wf have "lease_change (takeover_policy (podName (E i)) (homeAZ (leaseMgr (E i)))) (podName (E i))
        (homeAZ (leaseMgr (E i))) ns (V e) (V e')" and "clock (V e) \<le> clock (V e')"
      by (simp_all add: agent_guar_def lease_part_def lease_guar_def pol_of_def assms(3) evolves_def)
    from change_is_own_step [OF this(1) crew this(2)] r
    show "own_reach (crew_of E) (ownership_of ns (V (snd x0))) (ownership_of ns (V e'))"
      by (rule own_reach.own_more [rotated])
  qed (rule own_reach.own_refl)
  then show ?thesis ..
qed

theorem cluster_refines_ownership_witness:
  "\<exists>s. par_reach (agent_threads pair_env pair_threads, pair_start 20000000000) s \<and>
     own_reach (crew_of pair_env) (ownership_of ''kube-system'' (sim_store (snd (pair_start 20000000000))))
       (ownership_of ''kube-system'' (sim_store (snd (snd s)))) \<and>
     sim_routes (snd (snd s)) ''rtb-1'' = Some (ToInstance ''i-b'')"
proof -
  obtain s where r: "par_reach (agent_threads pair_env pair_threads, pair_start 20000000000) s"
    and R: "sim_routes (snd (snd s)) ''rtb-1'' = Some (ToInstance ''i-b'')"
    using pair_takes_over by blast
  have ns: "namespace (leaseMgr (pair_env i)) = ''kube-system''" for i by (simp add: pair_env_def agent_b_def)
  from cluster_refines_ownership [OF pair_cloud pair_goroutine ns pair_wf r] r R show ?thesis by blast
qed

end
