(* ===== verification/Collector.thy ===== *)
theory Collector
  imports Complex_Main Imds
begin

text \<open>
  \<open>internal/collector/\<close>: the dashboard's collector. It scrapes the agents, keeps a history
  and two logs, and derives events by comparing a scrape with the last one of the same AZ. The
  metric families are what the Prometheus text parser returns; the HTTP client, that parser and
  the clock are parameters. Code under the mutex is one atomic action (\<open>atomically\<close>), although it
  reads the clock several times.
\<close>

section \<open>Data\<close>

record metric_value =
  Label :: "(string \<times> string) list"
  Gauge :: "real option"
  Counter :: "real option"

type_synonym families = "string \<rightharpoonup> metric_value list"

record agentState =
  as_peerUp :: bool
  as_rulePresent :: bool
  as_routeTables :: "string list"

record EventEntry =
  ev_TS :: int
  ev_AZ :: string
  Kind :: string
  Detail :: string

record HistoryPoint =
  hp_TS :: int
  TxBps :: real
  RxBps :: real
  hp_Conntrack :: real

record FailoverEvent =
  FromAZ :: string
  ToAZ :: string
  fo_TS :: real

record AgentSnap =
  sn_AZ :: string
  sn_InstanceID :: string
  sn_InstanceType :: string
  Version :: string
  sn_TxBytesPerSec :: real
  sn_RxBytesPerSec :: real
  sn_ConntrackEntries :: real
  sn_ConntrackMax :: real
  sn_ConntrackRatio :: real
  RouteTablesOwned :: "string list"
  sn_FallbackAvailable :: bool
  PeerUp :: bool
  SpotPending :: bool
  sn_RulePresent :: bool
  SrcDstDisabled :: bool
  LastFailoverTS :: real
  sn_MaxBandwidthBps :: real
  sn_CPUUsageRatio :: real
  sn_MemUsedBytes :: real
  sn_MemTotalBytes :: real

record Snapshot =
  sp_Timestamp :: int
  sp_ServerVersion :: string
  Agents :: "AgentSnap list"
  History :: "HistoryPoint list"
  Failovers :: "FailoverEvent list"
  Events :: "EventEntry list"

record collector =
  history :: "HistoryPoint list"
  events :: "EventEntry list"
  failovers :: "FailoverEvent list"
  seenAZs :: "string set"
  agentStates :: "string \<rightharpoonup> agentState"
  failoverCounters :: "string \<rightharpoonup> real"
  coveredAZs :: "string set"

definition new_collector :: collector where
  "new_collector = \<lparr>history = [], events = [], failovers = [], seenAZs = {}, agentStates = Map.empty,
     failoverCounters = Map.empty, coveredAZs = {}\<rparr>"

text \<open>The world of the collector, and what is outside it.\<close>

record 'e colw =
  col :: collector
  col_env :: 'e

record 'e collector_env =
  agent_pods :: "'e \<Rightarrow> pod list result \<times> 'e"
  http :: "'e http_client"
  parse_text :: "string \<Rightarrow> families option \<times> status"
  clock_now :: "'e \<Rightarrow> int \<times> 'e"
  col_MetricsPort :: int
  seen_order :: "string set \<Rightarrow> string list"

definition col_call :: "('e \<Rightarrow> 'r \<times> 'e) \<Rightarrow> (('e, 'x) colw_scheme, 'r) prog" where
  "col_call f = call (\<lambda>w. case f (col_env w) of (r, e) \<Rightarrow> (r, w\<lparr>col_env := e\<rparr>))"

definition modify :: "(collector \<Rightarrow> collector) \<Rightarrow> (('e, 'x) colw_scheme, unit) prog" where
  "modify f = call (\<lambda>w. ((), w\<lparr>col := f (col w)\<rparr>))"

definition fetch :: "(collector \<Rightarrow> 'r) \<Rightarrow> (('e, 'x) colw_scheme, 'r) prog" where
  "fetch f = call (\<lambda>w. (f (col w), w))"

definition atomically :: "('w, 'a) prog \<Rightarrow> ('w, 'a) prog" where
  "atomically p = call (run p)"

lemma run_col [simp]:
  "run (col_call f) w = (case f (col_env w) of (r, e) \<Rightarrow> (r, w\<lparr>col_env := e\<rparr>))"
  "run (modify g) w = ((), w\<lparr>col := g (col w)\<rparr>)"
  "run (fetch h) w = (h (col w), w)"
  "run (atomically p) w = run p w"
  by (simp_all add: col_call_def modify_def fetch_def atomically_def)

section \<open>The logs\<close>

definition append_event :: "EventEntry \<Rightarrow> collector \<Rightarrow> collector" where
  "append_event entry c = c\<lparr>events := push_capped 100 (events c) entry\<rparr>"

definition append_failover :: "FailoverEvent \<Rightarrow> collector \<Rightarrow> collector" where
  "append_failover f c = c\<lparr>failovers := push_capped 100 (failovers c) f\<rparr>"

definition add_point :: "HistoryPoint \<Rightarrow> collector \<Rightarrow> collector" where
  "add_point p c = c\<lparr>history := push_capped 60 (history c) p\<rparr>"

definition appendEvent :: "EventEntry \<Rightarrow> (('e, 'x) colw_scheme, unit) prog" where
  "appendEvent entry = modify (append_event entry)"

text \<open>An event stamped with \<open>time.Now().UnixMilli()\<close>.\<close>

definition log_event :: "'e collector_env \<Rightarrow> string \<Rightarrow> string \<Rightarrow> string \<Rightarrow> (('e, 'x) colw_scheme, unit) prog" where
  "log_event C az kind detail =
     bind (col_call (clock_now C)) (\<lambda>t.
     appendEvent \<lparr>ev_TS = t div 1000000, ev_AZ = az, Kind = kind, Detail = detail\<rparr>)"

definition AddEvent :: "EventEntry \<Rightarrow> (('e, 'x) colw_scheme, unit) prog" where
  "AddEvent entry = appendEvent entry"

definition taking_over :: "string \<Rightarrow> string \<Rightarrow> string" where
  "taking_over to from_az = to @ '' is taking over route table(s) for '' @ from_az"

definition appendFailover :: "'e collector_env \<Rightarrow> FailoverEvent \<Rightarrow> (('e, 'x) colw_scheme, unit) prog" where
  "appendFailover C f =
     bind (modify (append_failover f)) (\<lambda>_.
     log_event C (ToAZ f) ''failover'' (taking_over (ToAZ f) (FromAZ f)))"

section \<open>Changes of the owned tables\<close>

definition diffStringSet :: "string list \<Rightarrow> string list \<Rightarrow> string list \<times> string list" where
  "diffStringSet prev cur =
     (filter (\<lambda>s. s \<notin> set prev) cur, filter (\<lambda>s. s \<notin> set cur) prev)"

definition joinStrings :: "string list \<Rightarrow> string" where
  "joinStrings ss = Join ss '', ''"

definition routeChangeDetail :: "string list \<Rightarrow> string list \<Rightarrow> string" where
  "routeChangeDetail added removed =
     (let parts = (if added \<noteq> [] then [''claimed '' @ joinStrings added] else []) @
        (if removed \<noteq> [] then [''released '' @ joinStrings removed] else []) in
      if parts = [] then '''' else Join parts ''; '')"

section \<open>Reading the metrics\<close>

definition gaugeVal :: "families \<Rightarrow> string \<Rightarrow> real" where
  "gaugeVal F name = (case F name of
     Some (m # ms) \<Rightarrow> (case Gauge m of Some v \<Rightarrow> v | None \<Rightarrow> 0)
   | _ \<Rightarrow> 0)"

definition metrics_of :: "families \<Rightarrow> string \<Rightarrow> metric_value list" where
  "metrics_of F name = (case F name of None \<Rightarrow> [] | Some ms \<Rightarrow> ms)"

text \<open>The value of the last label of a name, or what was there before.\<close>

fun last_label :: "string \<Rightarrow> string \<Rightarrow> (string \<times> string) list \<Rightarrow> string" where
  "last_label name acc [] = acc"
| "last_label name acc ((n, v) # ls) = last_label name (if n = name then v else acc) ls"

fun last_label_in :: "string \<Rightarrow> string \<Rightarrow> metric_value list \<Rightarrow> string" where
  "last_label_in name acc [] = acc"
| "last_label_in name acc (m # ms) = last_label_in name (last_label name acc (Label m)) ms"

definition gauge_on :: "metric_value \<Rightarrow> bool" where
  "gauge_on m = (case Gauge m of Some v \<Rightarrow> v \<ge> 1 | None \<Rightarrow> False)"

definition owned_tables :: "metric_value list \<Rightarrow> string list" where
  "owned_tables ms = concat (map (\<lambda>m. map snd (filter (\<lambda>lp. fst lp = ''rtb_id'') (Label m))) (filter gauge_on ms))"

fun last_failover :: "string \<Rightarrow> real \<Rightarrow> metric_value list \<Rightarrow> real" where
  "last_failover az acc [] = acc"
| "last_failover az acc (m # ms) = last_failover az
     (case Gauge m of Some v \<Rightarrow> if (''az'', az) \<in> set (Label m) then v else acc | None \<Rightarrow> acc) ms"

fun any_peer_up :: "metric_value list \<Rightarrow> bool" where
  "any_peer_up [] = False"
| "any_peer_up (m # ms) = (if gauge_on m then True else any_peer_up ms)"

definition first_labels :: "families \<Rightarrow> string \<Rightarrow> (string \<times> string) list" where
  "first_labels F name = (case F name of Some (m # ms) \<Rightarrow> Label m | _ \<Rightarrow> [])"

definition buildSnap :: "families \<Rightarrow> AgentSnap option" where
  "buildSnap F =
     (let labels = first_labels F ''kube_nat_bytes_tx_total''; az = last_label ''az'' '''' labels;
          info = metrics_of F ''kube_nat_instance_info'' in
      if az = '''' then None
      else Some \<lparr>sn_AZ = az, sn_InstanceID = last_label ''instance_id'' '''' labels,
        sn_InstanceType = last_label_in ''instance_type'' '''' info, Version = last_label_in ''version'' '''' info,
        sn_TxBytesPerSec = gaugeVal F ''kube_nat_tx_bps'', sn_RxBytesPerSec = gaugeVal F ''kube_nat_rx_bps'',
        sn_ConntrackEntries = gaugeVal F ''kube_nat_conntrack_entries'',
        sn_ConntrackMax = gaugeVal F ''kube_nat_conntrack_max'',
        sn_ConntrackRatio = gaugeVal F ''kube_nat_conntrack_usage_ratio'',
        RouteTablesOwned = owned_tables (metrics_of F ''kube_nat_route_table_owned''),
        sn_FallbackAvailable = (gaugeVal F ''kube_nat_fallback_available'' \<ge> 1),
        PeerUp = any_peer_up (metrics_of F ''kube_nat_peer_status''),
        SpotPending = (gaugeVal F ''kube_nat_spot_interruption_pending'' \<ge> 1),
        sn_RulePresent = (gaugeVal F ''kube_nat_rule_present'' \<ge> 1),
        SrcDstDisabled = (gaugeVal F ''kube_nat_src_dst_check_disabled'' \<ge> 1),
        LastFailoverTS = last_failover az 0 (metrics_of F ''kube_nat_last_failover_seconds''),
        sn_MaxBandwidthBps = gaugeVal F ''kube_nat_max_bandwidth_bps'',
        sn_CPUUsageRatio = gaugeVal F ''kube_nat_cpu_usage_ratio'',
        sn_MemUsedBytes = gaugeVal F ''kube_nat_memory_used_bytes'',
        sn_MemTotalBytes = gaugeVal F ''kube_nat_memory_total_bytes''\<rparr>)"

section \<open>Failovers\<close>

definition counter_key :: "string \<Rightarrow> string \<Rightarrow> string" where
  "counter_key from_az to = from_az @ ''/'' @ to"

definition set_counter :: "string \<Rightarrow> real \<Rightarrow> collector \<Rightarrow> collector" where
  "set_counter key v c = c\<lparr>failoverCounters := (failoverCounters c)(key \<mapsto> v)\<rparr>"

definition cover :: "string \<Rightarrow> collector \<Rightarrow> collector" where
  "cover az c = c\<lparr>coveredAZs := insert az (coveredAZs c)\<rparr>"

definition failover_of :: "'e collector_env \<Rightarrow> string \<Rightarrow> metric_value \<Rightarrow> (('e, 'x) colw_scheme, unit) prog" where
  "failover_of C toAZ m =
     (let fromAZ = last_label ''from_az'' '''' (Label m) in
      case Counter m of
        None \<Rightarrow> Ret ()
      | Some val \<Rightarrow>
          if fromAZ = '''' then Ret ()
          else bind (fetch (\<lambda>c. failoverCounters c (counter_key fromAZ toAZ))) (\<lambda>prev.
            case prev of
              None \<Rightarrow> modify (set_counter (counter_key fromAZ toAZ) val)
            | Some p \<Rightarrow>
                if val > p
                then bind (col_call (clock_now C)) (\<lambda>t.
                  bind (appendFailover C \<lparr>FromAZ = fromAZ, ToAZ = toAZ, fo_TS = real_of_int (t div 1000000000)\<rparr>) (\<lambda>_.
                  bind (modify (cover fromAZ)) (\<lambda>_.
                  modify (set_counter (counter_key fromAZ toAZ) val))))
                else Ret ()))"

definition detectFailovers :: "'e collector_env \<Rightarrow> families \<Rightarrow> string \<Rightarrow> (('e, 'x) colw_scheme, unit) prog" where
  "detectFailovers C F toAZ = for_each (failover_of C toAZ) (metrics_of F ''kube_nat_failover_total'')"

section \<open>One agent of a scrape\<close>

definition note_peer :: "'e collector_env \<Rightarrow> agentState \<Rightarrow> AgentSnap \<Rightarrow> (('e, 'x) colw_scheme, unit) prog" where
  "note_peer C prev s =
     (if \<not> as_peerUp prev \<and> PeerUp s
      then log_event C (sn_AZ s) ''peer_up'' (''peer connection restored for '' @ sn_AZ s)
      else if as_peerUp prev \<and> \<not> PeerUp s
      then log_event C (sn_AZ s) ''peer_down'' (''peer connection lost for '' @ sn_AZ s)
      else Ret ())"

definition note_routes :: "'e collector_env \<Rightarrow> agentState \<Rightarrow> AgentSnap \<Rightarrow> (('e, 'x) colw_scheme, unit) prog" where
  "note_routes C prev s =
     (case diffStringSet (as_routeTables prev) (RouteTablesOwned s) of (added, removed) \<Rightarrow>
        if added \<noteq> [] \<or> removed \<noteq> []
        then log_event C (sn_AZ s) ''route_update'' (routeChangeDetail added removed) else Ret ())"

definition regained :: "string \<Rightarrow> string list \<Rightarrow> string" where
  "regained az ids = az @ '' reclaimed its route table(s): '' @ joinStrings ids"

definition note_regained :: "'e collector_env \<Rightarrow> agentState \<Rightarrow> AgentSnap \<Rightarrow> (('e, 'x) colw_scheme, unit) prog" where
  "note_regained C prev s =
     bind (fetch coveredAZs) (\<lambda>covered.
       if sn_AZ s \<in> covered \<and> as_routeTables prev = [] \<and> RouteTablesOwned s \<noteq> []
       then bind (log_event C (sn_AZ s) ''route_regained'' (regained (sn_AZ s) (RouteTablesOwned s))) (\<lambda>_.
         modify (\<lambda>c. c\<lparr>coveredAZs := coveredAZs c - {sn_AZ s}\<rparr>))
       else Ret ())"

definition note_appeared :: "'e collector_env \<Rightarrow> AgentSnap \<Rightarrow> (('e, 'x) colw_scheme, unit) prog" where
  "note_appeared C s =
     bind (fetch seenAZs) (\<lambda>seen.
       if sn_AZ s \<in> seen then Ret ()
       else bind (modify (\<lambda>c. c\<lparr>seenAZs := insert (sn_AZ s) (seenAZs c)\<rparr>)) (\<lambda>_.
         log_event C (sn_AZ s) ''agent_appeared'' (''agent '' @ sn_InstanceID s @ '' appeared in '' @ sn_AZ s)))"

definition note_changes :: "'e collector_env \<Rightarrow> AgentSnap \<Rightarrow> (('e, 'x) colw_scheme, unit) prog" where
  "note_changes C s =
     bind (fetch (\<lambda>c. agentStates c (sn_AZ s))) (\<lambda>prev.
       case prev of
         None \<Rightarrow> Ret ()
       | Some p \<Rightarrow> bind (note_peer C p s) (\<lambda>_. bind (note_routes C p s) (\<lambda>_. note_regained C p s)))"

definition remember :: "AgentSnap \<Rightarrow> collector \<Rightarrow> collector" where
  "remember s c = c\<lparr>agentStates := (agentStates c)(sn_AZ s \<mapsto>
     \<lparr>as_peerUp = PeerUp s, as_rulePresent = sn_RulePresent s, as_routeTables = RouteTablesOwned s\<rparr>)\<rparr>"

text \<open>The section under the mutex for one scraped agent.\<close>

definition record_agent :: "'e collector_env \<Rightarrow> families \<Rightarrow> AgentSnap \<Rightarrow> (('e, 'x) colw_scheme, unit) prog" where
  "record_agent C F s =
     bind (note_appeared C s) (\<lambda>_.
     bind (note_changes C s) (\<lambda>_.
     bind (detectFailovers C F (sn_AZ s)) (\<lambda>_.
     modify (remember s))))"

section \<open>Collect\<close>

definition metrics_url :: "string \<Rightarrow> int \<Rightarrow> string" where
  "metrics_url ip port = ''http://'' @ ip @ '':'' @ Itoa port @ ''/metrics''"

text \<open>
  The parser may return families along with an error; without families and without an error
  the map is empty.
\<close>

definition scrape :: "'e collector_env \<Rightarrow> string \<Rightarrow> (('e, 'x) colw_scheme, families result) prog" where
  "scrape C url =
     (case url_error (http C) url of
        Some e \<Rightarrow> Ret (Inl e)
      | None \<Rightarrow>
          bind (col_call (Do (http C) ''GET'' url [])) (\<lambda>r.
          Ret (case r of
            Inl e \<Rightarrow> Inl e
          | Inr resp \<Rightarrow> (case Body resp of
              Inl e \<Rightarrow> Inl e
            | Inr body \<Rightarrow> (case parse_text C body of
                (Some F, _) \<Rightarrow> Inr F
              | (None, Some e) \<Rightarrow> Inl e
              | (None, None) \<Rightarrow> Inr Map.empty)))))"

text \<open>The loop over the pods, with the snapshots taken so far.\<close>

fun scrape_loop :: "'e collector_env \<Rightarrow> AgentSnap list \<Rightarrow> pod list \<Rightarrow> (('e, 'x) colw_scheme, AgentSnap list) prog" where
  "scrape_loop C agents [] = Ret agents"
| "scrape_loop C agents (p # ps) =
     (if PodIP p = '''' then scrape_loop C agents ps
      else bind (scrape C (metrics_url (PodIP p) (col_MetricsPort C))) (\<lambda>r.
        case r of
          Inl _ \<Rightarrow> scrape_loop C agents ps
        | Inr F \<Rightarrow>
            case buildSnap F of
              None \<Rightarrow> scrape_loop C agents ps
            | Some s \<Rightarrow> bind (atomically (record_agent C F s)) (\<lambda>_. scrape_loop C (agents @ [s]) ps)))"

definition note_lost :: "'e collector_env \<Rightarrow> string set \<Rightarrow> string \<Rightarrow> (('e, 'x) colw_scheme, unit) prog" where
  "note_lost C current az =
     (if az \<in> current then Ret ()
      else bind (modify (\<lambda>c. c\<lparr>seenAZs := seenAZs c - {az}\<rparr>)) (\<lambda>_.
        log_event C az ''agent_lost'' (''agent in '' @ az @ '' became unreachable'')))"

text \<open>The last locked section: the AZs that were lost, the history, copies of the logs.\<close>

definition close_scrape :: "'e collector_env \<Rightarrow> AgentSnap list \<Rightarrow> (('e, 'x) colw_scheme, collector) prog" where
  "close_scrape C agents =
     bind (fetch seenAZs) (\<lambda>seen.
     bind (for_each (note_lost C (sn_AZ ` set agents)) (seen_order C seen)) (\<lambda>_.
     bind (col_call (clock_now C)) (\<lambda>t.
     bind (modify (add_point \<lparr>hp_TS = t div 1000000, TxBps = sum_list (map sn_TxBytesPerSec agents),
       RxBps = sum_list (map sn_RxBytesPerSec agents),
       hp_Conntrack = sum_list (map sn_ConntrackEntries agents)\<rparr>)) (\<lambda>_.
     fetch (\<lambda>c. c)))))"

definition Collect :: "'e collector_env \<Rightarrow> (('e, 'x) colw_scheme, Snapshot result) prog" where
  "Collect C =
     bind (col_call (agent_pods C)) (\<lambda>r.
       case r of
         Inl e \<Rightarrow> Ret (Inl (Wrap ''list agent pods'' e))
       | Inr pods \<Rightarrow>
           bind (scrape_loop C [] pods) (\<lambda>agents.
           bind (atomically (close_scrape C agents)) (\<lambda>c.
           bind (col_call (clock_now C)) (\<lambda>t.
           Ret (Inr \<lparr>sp_Timestamp = t, sp_ServerVersion = '''', Agents = agents, History = history c,
             Failovers = failovers c, Events = events c\<rparr>)))))"

end
