(* ===== verification/Dashboard.thy ===== *)
theory Dashboard
  imports Collector Web_Handlers
begin

text \<open>
  \<open>internal/dashboard/\<close>: the hub of browser connections and the server around the collector.
  A connection is a number; the WebSocket library, the JSON encoder and the HTTP client are
  parameters. The hub's map is a set, iterated in an order that is a parameter too.
\<close>

section \<open>The hub\<close>

record 'e dashw = "'e colw" +
  clients :: "nat set"

record 'e dash_env =
  scraper :: "'e collector_env"
  ServerVersion :: string
  post_client :: "'e http_client"
  Marshal :: "Snapshot \<Rightarrow> string result"
  ws_accept :: "'e \<Rightarrow> nat result \<times> 'e"
  ws_write :: "nat \<Rightarrow> string \<Rightarrow> 'e \<Rightarrow> status \<times> 'e"
  ws_read :: "nat \<Rightarrow> 'e \<Rightarrow> status \<times> 'e"
  ws_close :: "nat \<Rightarrow> 'e \<Rightarrow> unit \<times> 'e"
  client_order :: "nat set \<Rightarrow> nat list"
  err_text :: "goerr \<Rightarrow> string"

definition hub :: "(nat set \<Rightarrow> 'r \<times> nat set) \<Rightarrow> (('e, 'x) dashw_scheme, 'r) prog" where
  "hub f = call (\<lambda>w. case f (clients w) of (r, cs) \<Rightarrow> (r, w\<lparr>clients := cs\<rparr>))"

lemma run_hub [simp]: "run (hub f) w = (case f (clients w) of (r, cs) \<Rightarrow> (r, w\<lparr>clients := cs\<rparr>))"
  by (simp add: hub_def)

definition register :: "nat \<Rightarrow> (('e, 'x) dashw_scheme, unit) prog" where
  "register c = hub (\<lambda>cs. ((), insert c cs))"

definition unregister :: "nat \<Rightarrow> (('e, 'x) dashw_scheme, unit) prog" where
  "unregister c = hub (\<lambda>cs. ((), cs - {c}))"

definition send :: "'e dash_env \<Rightarrow> string \<Rightarrow> nat \<Rightarrow> (('e, 'x) dashw_scheme, unit) prog" where
  "send D payload c =
     bind (col_call (ws_write D c payload)) (\<lambda>err.
       case err of
         None \<Rightarrow> Ret ()
       | Some _ \<Rightarrow> bind (unregister c) (\<lambda>_. col_call (ws_close D c)))"

definition Broadcast :: "'e dash_env \<Rightarrow> string \<Rightarrow> (('e, 'x) dashw_scheme, unit) prog" where
  "Broadcast D payload =
     bind (hub (\<lambda>cs. (client_order D cs, cs))) (for_each (send D payload))"

section \<open>The server\<close>

definition stamped :: "'e dash_env \<Rightarrow> Snapshot \<Rightarrow> Snapshot" where
  "stamped D s = s\<lparr>sp_ServerVersion := ServerVersion D\<rparr>"

text \<open>One tick of the collector loop of \<open>Run\<close>; its interval defaults to five seconds.\<close>

definition dash_tick :: "'e dash_env \<Rightarrow> (('e, 'x) dashw_scheme, unit) prog" where
  "dash_tick D =
     bind (Collect (scraper D)) (\<lambda>r.
       case r of
         Inl _ \<Rightarrow> Ret ()
       | Inr snap \<Rightarrow> (case Marshal D (stamped D snap) of
           Inl _ \<Rightarrow> Ret ()
         | Inr b \<Rightarrow> Broadcast D b))"

definition scrape_interval :: "int \<Rightarrow> int" where
  "scrape_interval secs = (let interval = secs * 1000000000 in if interval = 0 then 5000000000 else interval)"

text \<open>
  A browser connection. Its last loop reads until a read fails; \<open>n\<close> bounds the reads
  considered, and a connection that is still open then stays registered.
\<close>

fun read_loop :: "'e dash_env \<Rightarrow> nat \<Rightarrow> nat \<Rightarrow> (('e, 'x) dashw_scheme, bool) prog" where
  "read_loop D c 0 = Ret False"
| "read_loop D c (Suc n) =
     bind (col_call (ws_read D c)) (\<lambda>err.
       case err of Some _ \<Rightarrow> Ret True | None \<Rightarrow> read_loop D c n)"

definition first_snapshot :: "'e dash_env \<Rightarrow> nat \<Rightarrow> (('e, 'x) dashw_scheme, unit) prog" where
  "first_snapshot D c =
     bind (Collect (scraper D)) (\<lambda>r.
       case r of
         Inl _ \<Rightarrow> Ret ()
       | Inr snap \<Rightarrow> (case Marshal D (stamped D snap) of
           Inl _ \<Rightarrow> Ret ()
         | Inr b \<Rightarrow> bind (col_call (ws_write D c b)) (\<lambda>_. Ret ())))"

definition handleWS :: "'e dash_env \<Rightarrow> nat \<Rightarrow> (('e, 'x) dashw_scheme, unit) prog" where
  "handleWS D n =
     bind (col_call (ws_accept D)) (\<lambda>r.
       case r of
         Inl _ \<Rightarrow> Ret ()
       | Inr c \<Rightarrow>
           bind (register c) (\<lambda>_.
           bind (first_snapshot D c) (\<lambda>_.
           bind (read_loop D c n) (\<lambda>closed.
           if closed then unregister c else Ret ()))))"

section \<open>Actions on an agent\<close>

definition zone_label :: string where
  "zone_label = ''topology.kubernetes.io/zone''"

fun agent_ip :: "string \<Rightarrow> pod list \<Rightarrow> string" where
  "agent_ip az [] = ''''"
| "agent_ip az (p # ps) =
     (if lookup_str (pod_labels p) zone_label = az \<and> PodIP p \<noteq> '''' then PodIP p else agent_ip az ps)"

definition action_url :: "string \<Rightarrow> int \<Rightarrow> string \<Rightarrow> string" where
  "action_url ip port action = ''http://'' @ ip @ '':'' @ Itoa port @ ''/'' @ action"

text \<open>\<open>http.Post(url, "application/json", nil)\<close>.\<close>

definition Post :: "'e http_client \<Rightarrow> string \<Rightarrow> (('e, 'x) colw_scheme, http_response result) prog" where
  "Post H url =
     (case url_error H url of
        Some e \<Rightarrow> Ret (Inl e)
      | None \<Rightarrow> col_call (Do H ''POST'' url [(''Content-Type'', ''application/json'')]))"

definition log_action :: "'e dash_env \<Rightarrow> string \<Rightarrow> string \<Rightarrow> (('e, 'x) dashw_scheme, unit) prog" where
  "log_action D az action =
     bind (col_call (clock_now (scraper D))) (\<lambda>t.
     AddEvent \<lparr>ev_TS = t div 1000000, ev_AZ = az,
       Kind = (if action = ''release'' then ''route_released'' else ''route_claimed''),
       Detail = (if action = ''release'' then ''routes released to NAT gateway for '' @ az
         else ''manual route table claim triggered for '' @ az)\<rparr>)"

definition ask_agent :: "'e dash_env \<Rightarrow> string \<Rightarrow> string \<Rightarrow> string \<Rightarrow> (('e, 'x) dashw_scheme, reply) prog" where
  "ask_agent D az action podIP =
     bind (Post (post_client D) (action_url podIP (col_MetricsPort (scraper D)) action)) (\<lambda>r.
       case r of
         Inl e \<Rightarrow> Ret (http_Error (''agent request failed: '' @ err_text D e) 502)
       | Inr resp \<Rightarrow>
           if StatusCode resp \<noteq> 200
           then Ret (http_Error (''agent returned '' @ Itoa (StatusCode resp)) 502)
           else bind (log_action D az action) (\<lambda>_. Ret reply_ok))"

definition handleAgentClaim :: "'e dash_env \<Rightarrow> string \<Rightarrow> string \<Rightarrow> (('e, 'x) dashw_scheme, reply) prog" where
  "handleAgentClaim D meth path =
     (let parts = Split (TrimPrefix path ''/agents/'') (CHR ''/'') in
      if meth \<noteq> ''POST'' then Ret (http_Error ''method not allowed'' 405)
      else if length parts < 2 \<or> (parts ! 1 \<noteq> ''claim'' \<and> parts ! 1 \<noteq> ''release'') then Ret http_NotFound
      else if parts ! 0 = '''' then Ret (http_Error ''missing az'' 400)
      else bind (col_call (agent_pods (scraper D))) (\<lambda>r.
        case r of
          Inl e \<Rightarrow> Ret (http_Error (''list pods: '' @ err_text D e) 500)
        | Inr pods \<Rightarrow>
            (let az = parts ! 0; action = parts ! 1; podIP = agent_ip az pods in
             if podIP = '''' then Ret (http_Error (''no agent pod found for az '' @ az) 404)
             else ask_agent D az action podIP)))"

text \<open>What \<open>Handler\<close> registers: the mux picks the longest pattern.\<close>

datatype page = StaticFile string | HealthPage | WebSocket | AgentAction

definition Handler :: "string \<Rightarrow> page" where
  "Handler path =
     (if path = ''/healthz'' then HealthPage
      else if path = ''/ws'' then WebSocket
      else if HasPrefix path ''/agents/'' then AgentAction
      else StaticFile path)"

end
