(* ===== verification/Collector_Logs.thy ===== *)
theory Collector_Logs
  imports Dashboard Rely_Guarantee
begin

text \<open>
  The three logs of the collector are windows on everything that was ever added to them. The
  locale \<open>capped_log\<close> says what one addition does and derives what any number of them does;
  it is interpreted for the events, the failovers and the history. No program of the
  dashboard changes a log in another way, under any interleaving.
\<close>

section \<open>Windows\<close>

definition lastn :: "nat \<Rightarrow> 'a list \<Rightarrow> 'a list" where
  "lastn n xs = drop (length xs - n) xs"

lemma length_lastn [simp]: "length (lastn n xs) = min n (length xs)"
  by (simp add: lastn_def)

lemma lastn_short [simp]: "length xs \<le> n \<Longrightarrow> lastn n xs = xs"
  by (simp add: lastn_def)

lemma lastn_lastn_append: "lastn n (lastn n xs @ ys) = lastn n (xs @ ys)"
  by (cases "length xs \<le> n") (auto simp: lastn_def add.commute)

lemma push_capped_lastn: "push_capped n xs x = lastn n (xs @ [x])"
  by (simp add: push_capped_drop lastn_def)

text \<open>Entries were only added at the end, and only the oldest dropped.\<close>

definition grows :: "nat \<Rightarrow> 'a list \<Rightarrow> 'a list \<Rightarrow> bool" where
  "grows n xs ys \<longleftrightarrow> (length xs \<le> n \<longrightarrow> (\<exists>es. ys = lastn n (xs @ es)))"

lemma grows_refl [simp]: "grows n xs xs"
  unfolding grows_def by (auto intro: exI [of _ "[]"])

lemma grows_trans: "grows n xs ys \<Longrightarrow> grows n ys zs \<Longrightarrow> grows n xs zs"
  unfolding grows_def
proof (intro impI)
  assume a: "length xs \<le> n \<longrightarrow> (\<exists>es. ys = lastn n (xs @ es))" "length ys \<le> n \<longrightarrow> (\<exists>es. zs = lastn n (ys @ es))"
    and "length xs \<le> n"
  then obtain es where y: "ys = lastn n (xs @ es)" by blast
  then have "length ys \<le> n" by simp
  with a obtain fs where "zs = lastn n (ys @ fs)" by blast
  then have "zs = lastn n (xs @ es @ fs)" by (simp add: y lastn_lastn_append)
  then show "\<exists>es. zs = lastn n (xs @ es)" by blast
qed

locale capped_log =
  fixes entries :: "'s \<Rightarrow> 'a list" and push :: "'a \<Rightarrow> 's \<Rightarrow> 's" and cap :: nat
  assumes entries_push: "entries (push x s) = push_capped cap (entries s) x"
begin

lemma push_grows: "grows cap (entries s) (entries (push x s))"
  unfolding grows_def entries_push push_capped_lastn by blast

lemma push_all: "length (entries s) \<le> cap \<Longrightarrow> entries (fold push xs s) = lastn cap (entries s @ xs)"
  by (induction xs arbitrary: s) (simp_all add: entries_push push_capped_lastn lastn_lastn_append)

lemma newest_stays: "0 < cap \<Longrightarrow> x \<in> set (entries (push x s))"
  using last_push_capped [of cap "entries s" x] length_push_capped [of cap "entries s" x]
  by (metis entries_push last_in_set length_greater_0_conv min_less_iff_conj zero_less_Suc Suc_eq_plus1)

end

interpretation event_log: capped_log events append_event 100
  by unfold_locales (simp add: append_event_def)

interpretation failover_log: capped_log failovers append_failover 100
  by unfold_locales (simp add: append_failover_def)

interpretation history_log: capped_log history add_point 60
  by unfold_locales (simp add: add_point_def)

section \<open>What the programs do to the logs\<close>

definition logs_grow :: "('e, 'x) colw_scheme \<Rightarrow> ('e, 'x) colw_scheme \<Rightarrow> bool" where
  "logs_grow w w' \<longleftrightarrow> grows 100 (events (col w)) (events (col w')) \<and>
     grows 100 (failovers (col w)) (failovers (col w')) \<and> grows 60 (history (col w)) (history (col w'))"

lemma logs_grow_refl [simp]: "logs_grow w w"
  by (simp add: logs_grow_def)

lemma logs_grow_trans: "logs_grow u v \<Longrightarrow> logs_grow v w \<Longrightarrow> logs_grow u w"
  unfolding logs_grow_def by (blast intro: grows_trans)

abbreviation logging :: "(('e, 'x) colw_scheme, 'a) prog \<Rightarrow> bool" where
  "logging \<equiv> anyhow logs_grow (\<lambda>_. True)"

lemma logging_Ret: "logging (Ret a)"
  by simp

lemma logging_bind: "logging p \<Longrightarrow> (\<And>a. logging (k a)) \<Longrightarrow> logging (bind p k)"
  by (rule anyhow_bind)

lemma logging_for_each: "(\<And>x. logging (b x)) \<Longrightarrow> logging (for_each b xs)"
  by (induction xs) (auto intro: logging_bind)

lemma logging_modify: "(\<And>c. grows 100 (events c) (events (f c)) \<and> grows 100 (failovers c) (failovers (f c)) \<and>
    grows 60 (history c) (history (f c))) \<Longrightarrow> logging (modify f)"
  unfolding modify_def by (rule anyhow_call) (auto simp: logs_grow_def)

lemma logging_quiet: "logging (fetch g)" "logging (col_call f)" "logging (hub h)"
  unfolding fetch_def col_call_def hub_def by (rule anyhow_call, auto simp: logs_grow_def split: prod.splits)+

lemma logging_atomically: "logging p \<Longrightarrow> logging (atomically p)"
  unfolding atomically_def
proof (rule anyhow_call)
  fix w r w' assume p: "logging p" and r: "run p w = (r, w')"
  have "logs_grow w w' \<and> True"
    by (rule anyhow_run [OF p _ _ r, where J = "logs_grow w"]) (auto intro: logs_grow_trans)
  then show "logs_grow w w' \<and> True" .
qed

lemma logging_pushes: "logging (modify (append_event entry))" "logging (modify (append_failover f))"
    "logging (modify (add_point p))"
  by (rule logging_modify, use event_log.push_grows failover_log.push_grows history_log.push_grows in
      \<open>auto simp: append_event_def append_failover_def add_point_def\<close>)+

lemmas logging_rules = logging_Ret logging_bind logging_for_each logging_quiet logging_pushes logging_atomically

lemma logging_log_event: "logging (log_event C az kind detail)"
  unfolding log_event_def appendEvent_def by (intro logging_rules)

lemma logging_failover_of: "logging (failover_of C az m)"
  unfolding failover_of_def appendFailover_def Let_def
  by (auto intro!: logging_rules logging_log_event logging_modify simp: cover_def set_counter_def split: option.split)

lemma logging_record_agent: "logging (record_agent C F s)"
  unfolding record_agent_def note_appeared_def note_changes_def note_peer_def note_routes_def note_regained_def
    detectFailovers_def
  by (auto intro!: logging_rules logging_log_event logging_modify logging_failover_of
      simp: remember_def split: option.split prod.split)

lemma logging_scrape: "logging (scrape C url)"
  unfolding scrape_def by (auto intro!: logging_rules split: option.split)

lemma logging_scrape_loop: "logging (scrape_loop C agents ps)"
  by (induction ps arbitrary: agents)
    (auto intro!: logging_rules logging_scrape logging_record_agent split: sum.split option.split)

lemma logging_close_scrape: "logging (close_scrape C agents)"
  unfolding close_scrape_def note_lost_def
  by (auto intro!: logging_rules logging_log_event logging_modify)

lemma logging_Collect: "logging (Collect C)"
  unfolding Collect_def
  by (auto intro!: logging_rules logging_scrape_loop logging_close_scrape split: sum.split)

section \<open>The dashboard's programs\<close>

lemma logging_Broadcast: "logging (Broadcast D b)"
  unfolding Broadcast_def send_def unregister_def by (auto intro!: logging_rules split: option.split)

lemma logging_dash_tick: "logging (dash_tick D)"
  unfolding dash_tick_def by (auto intro!: logging_rules logging_Collect logging_Broadcast split: sum.split)

lemma logging_read_loop: "logging (read_loop D c n)"
  by (induction n) (auto intro!: logging_rules split: option.split)

lemma logging_handleWS: "logging (handleWS D n)"
  unfolding handleWS_def first_snapshot_def register_def unregister_def
  by (auto intro!: logging_rules logging_Collect logging_read_loop split: sum.split)

lemma logging_handleAgentClaim: "logging (handleAgentClaim D meth path)"
  unfolding handleAgentClaim_def ask_agent_def Post_def log_action_def AddEvent_def appendEvent_def Let_def
  by (auto intro!: logging_rules split: sum.split option.split)

text \<open>A thread of the server: the collector loop, a browser, an action, one after another.\<close>

inductive dash_thread :: "'e dash_env \<Rightarrow> (('e, 'x) dashw_scheme, unit) prog \<Rightarrow> bool" for D :: "'e dash_env" where
  served: "dash_thread D (Ret ())"
| collector_loop: "dash_thread D p \<Longrightarrow> dash_thread D (bind (dash_tick D) (\<lambda>_. p))"
| browser: "dash_thread D p \<Longrightarrow> dash_thread D (bind (handleWS D n) (\<lambda>_. p))"
| action: "dash_thread D p \<Longrightarrow> dash_thread D (bind (handleAgentClaim D meth path) (\<lambda>_. p))"

lemma logging_dash_thread: "dash_thread D p \<Longrightarrow> logging p"
  by (induction rule: dash_thread.induct)
    (auto intro!: logging_rules logging_dash_tick logging_handleWS logging_handleAgentClaim)

end
