(* ===== verification/Collector_Function.thy ===== *)
theory Collector_Function
  imports Collector_Logs
begin

text \<open>
  The collector's functions run alone, as equations on its state: what one event, one counter
  and one agent of a scrape do, and what the loop over the pods leaves.
\<close>

section \<open>Events\<close>

lemma run_log_event [simp]:
  "run (log_event C az kind detail) w =
    (case clock_now C (col_env w) of (t, e) \<Rightarrow> ((), w\<lparr>col_env := e,
       col := append_event \<lparr>ev_TS = t div 1000000, ev_AZ = az, Kind = kind, Detail = detail\<rparr> (col w)\<rparr>))"
  by (simp add: log_event_def appendEvent_def split: prod.split)

lemma append_event_simps [simp]:
  "seenAZs (append_event x c) = seenAZs c" "agentStates (append_event x c) = agentStates c"
  "failovers (append_event x c) = failovers c" "history (append_event x c) = history c"
  "failoverCounters (append_event x c) = failoverCounters c" "coveredAZs (append_event x c) = coveredAZs c"
  by (simp_all add: append_event_def)

section \<open>Failovers\<close>

definition reading :: "string \<Rightarrow> real \<Rightarrow> metric_value" where
  "reading fromAZ v = \<lparr>Label = [(''from_az'', fromAZ)], Gauge = None, Counter = Some v\<rparr>"

lemma run_failover_of:
  assumes "f \<noteq> ''''" and "run (failover_of C to (reading f v)) w = ((), w')"
  shows "case failoverCounters (col w) (counter_key f to) of
      None \<Rightarrow> w' = w\<lparr>col := set_counter (counter_key f to) v (col w)\<rparr>
    | Some p \<Rightarrow> if v > p then (\<exists>t. failovers (col w') =
          push_capped 100 (failovers (col w)) \<lparr>FromAZ = f, ToAZ = to, fo_TS = real_of_int t\<rparr>) \<and>
        failoverCounters (col w') = (failoverCounters (col w))(counter_key f to \<mapsto> v) \<and> f \<in> coveredAZs (col w')
      else w' = w"
  using assms
  by (auto simp: failover_of_def reading_def set_counter_def appendFailover_def append_failover_def cover_def
      split: option.splits prod.splits if_splits)

text \<open>What one counter does to the rest of the state.\<close>

definition same_agents :: "collector \<Rightarrow> collector \<Rightarrow> bool" where
  "same_agents c c' \<longleftrightarrow> seenAZs c' = seenAZs c \<and> agentStates c' = agentStates c \<and> history c' = history c"

lemma same_agents_failover_of: "same_agents (col w) (col (snd (run (failover_of C to m) w)))"
  by (simp add: failover_of_def same_agents_def set_counter_def appendFailover_def append_failover_def cover_def
      Let_def split: option.split prod.split)

lemma same_agents_detect: "same_agents (col w) (col (snd (run (detectFailovers C F to) w)))"
  for w :: "('e, 'x) colw_scheme"
  unfolding detectFailovers_def
proof (rule run_for_each_invariant)
  fix m and w' :: "('e, 'x) colw_scheme" assume "same_agents (col w) (col w')"
  with same_agents_failover_of [of w' C to m] show "same_agents (col w) (col (snd (run (failover_of C to m) w')))"
    by (simp add: same_agents_def)
qed (simp add: same_agents_def)

section \<open>One agent\<close>

definition state_of :: "AgentSnap \<Rightarrow> agentState" where
  "state_of s = \<lparr>as_peerUp = PeerUp s, as_rulePresent = sn_RulePresent s, as_routeTables = RouteTablesOwned s\<rparr>"

lemma appeared_seen: "seenAZs (col (snd (run (note_appeared C s) w))) = insert (sn_AZ s) (seenAZs (col w))"
  by (auto simp: note_appeared_def split: prod.split)

lemma appeared_rest:
  "agentStates (col (snd (run (note_appeared C s) w))) = agentStates (col w)"
  "history (col (snd (run (note_appeared C s) w))) = history (col w)"
  by (simp_all add: note_appeared_def split: prod.split)

lemma same_agents_trans: "same_agents a b \<Longrightarrow> same_agents b c \<Longrightarrow> same_agents a c"
  by (simp add: same_agents_def)

lemma notes_same:
  "same_agents (col w) (col (snd (run (note_peer C p s) w)))"
  "same_agents (col w) (col (snd (run (note_routes C p s) w)))"
  "same_agents (col w) (col (snd (run (note_regained C p s) w)))"
  by (simp_all add: note_peer_def note_routes_def note_regained_def same_agents_def case_prod_beta)

lemma changes_same: "same_agents (col w) (col (snd (run (note_changes C s) w)))"
proof (cases "agentStates (col w) (sn_AZ s)")
  case None
  then show ?thesis by (simp add: note_changes_def same_agents_def)
next
  case (Some p)
  let ?w1 = "snd (run (note_peer C p s) w)"
  let ?w2 = "snd (run (note_routes C p s) ?w1)"
  have "run (note_changes C s) w = run (note_regained C p s) ?w2"
    using Some by (simp add: note_changes_def case_prod_beta)
  then show ?thesis
    using notes_same(1) [where w = w and C = C and p = p and s = s]
      notes_same(2) [where w = ?w1 and C = C and p = p and s = s]
      notes_same(3) [where w = ?w2 and C = C and p = p and s = s]
    by (simp only: same_agents_def)
qed

lemma record_agent_run:
  assumes "run (record_agent C F s) w = ((), w')"
  shows "seenAZs (col w') = insert (sn_AZ s) (seenAZs (col w)) \<and> history (col w') = history (col w) \<and>
    agentStates (col w') = (agentStates (col w))(sn_AZ s \<mapsto> state_of s)"
proof -
  let ?w1 = "snd (run (note_appeared C s) w)"
  let ?w2 = "snd (run (note_changes C s) ?w1)"
  let ?w3 = "snd (run (detectFailovers C F (sn_AZ s)) ?w2)"
  have w': "w' = ?w3\<lparr>col := remember s (col ?w3)\<rparr>"
    using assms by (simp add: record_agent_def case_prod_beta)
  have "same_agents (col ?w1) (col ?w3)"
    using changes_same [where w = ?w1] same_agents_detect [where w = ?w2] by (simp add: same_agents_def)
  then show ?thesis
    by (simp add: w' remember_def state_of_def same_agents_def appeared_seen appeared_rest)
qed

section \<open>The loop over the pods\<close>

lemma scrape_col: "run (scrape C url) w = (r, w') \<Longrightarrow> col w' = col w"
  by (auto simp: scrape_def split: option.splits prod.splits)

text \<open>What is remembered of the agents scraped so far.\<close>

definition remembers :: "AgentSnap list \<Rightarrow> (string \<rightharpoonup> agentState) \<Rightarrow> (string \<rightharpoonup> agentState)" where
  "remembers agents m = fold (\<lambda>s m. m(sn_AZ s \<mapsto> state_of s)) agents m"

lemma scrape_loop_run:
  assumes "run (scrape_loop C agents ps) w = (agents', w')"
  shows "\<exists>new. agents' = agents @ new \<and> seenAZs (col w') = seenAZs (col w) \<union> sn_AZ ` set new \<and>
    history (col w') = history (col w) \<and> agentStates (col w') = remembers new (agentStates (col w))"
  using assms
proof (induction ps arbitrary: agents w)
  case Nil
  then show ?case by (auto simp: remembers_def intro: exI [of _ "[]"])
next
  case (Cons p ps)
  show ?case
  proof (cases "PodIP p = ''''")
    case True
    with Cons show ?thesis by simp
  next
    case False
    obtain r w1 where sc: "run (scrape C (metrics_url (PodIP p) (col_MetricsPort C))) w = (r, w1)" by fastforce
    note same = scrape_col [OF sc]
    show ?thesis
    proof (cases "\<exists>F s. r = Inr F \<and> buildSnap F = Some s")
      case True
      then obtain F s where r: "r = Inr F" "buildSnap F = Some s" by blast
      obtain w2 where rec: "run (record_agent C F s) w1 = ((), w2)" by (cases "run (record_agent C F s) w1") auto
      have "run (scrape_loop C (agents @ [s]) ps) w2 = (agents', w')"
        using Cons.prems False by (simp add: sc r rec)
      from Cons.IH [OF this] obtain new where new: "agents' = (agents @ [s]) @ new"
          "seenAZs (col w') = seenAZs (col w2) \<union> sn_AZ ` set new" "history (col w') = history (col w2)"
          "agentStates (col w') = remembers new (agentStates (col w2))" by blast
      with record_agent_run [OF rec] same show ?thesis
        by (intro exI [of _ "s # new"]) (simp add: remembers_def)
    next
      case False
      then have "run (scrape_loop C agents ps) w1 = (agents', w')"
        using Cons.prems \<open>PodIP p \<noteq> ''''\<close> by (auto simp: sc split: sum.splits option.splits)
      from Cons.IH [OF this] same show ?thesis by simp
    qed
  qed
qed

section \<open>The end of a scrape\<close>

lemma note_lost_run:
  "run (note_lost C cur az) w = ((), w') \<Longrightarrow>
   seenAZs (col w') = (if az \<in> cur then seenAZs (col w) else seenAZs (col w) - {az}) \<and>
   agentStates (col w') = agentStates (col w) \<and> history (col w') = history (col w)"
  by (auto simp: note_lost_def split: prod.splits if_splits)

lemma lost_loop_run:
  "run (for_each (note_lost C cur) azs) w = ((), w') \<Longrightarrow>
   seenAZs (col w') = seenAZs (col w) - (set azs - cur) \<and>
   agentStates (col w') = agentStates (col w) \<and> history (col w') = history (col w)"
proof (induction azs arbitrary: w)
  case (Cons az azs)
  obtain w1 where 1: "run (note_lost C cur az) w = ((), w1)" by (cases "run (note_lost C cur az) w") auto
  with Cons.prems have "run (for_each (note_lost C cur) azs) w1 = ((), w')" by simp
  from Cons.IH [OF this] note_lost_run [OF 1] show ?case by auto
qed simp

definition total_point :: "int \<Rightarrow> AgentSnap list \<Rightarrow> HistoryPoint" where
  "total_point t agents = \<lparr>hp_TS = t, TxBps = sum_list (map sn_TxBytesPerSec agents),
     RxBps = sum_list (map sn_RxBytesPerSec agents), hp_Conntrack = sum_list (map sn_ConntrackEntries agents)\<rparr>"

lemma close_scrape_run:
  assumes "run (close_scrape C agents) w = (c, w')" and "set (seen_order C (seenAZs (col w))) = seenAZs (col w)"
    and "sn_AZ ` set agents \<subseteq> seenAZs (col w)"
  shows "c = col w' \<and> seenAZs c = sn_AZ ` set agents \<and> agentStates c = agentStates (col w) \<and>
    (\<exists>t. history c = push_capped 60 (history (col w)) (total_point t agents))"
proof -
  obtain w1 where 1: "run (for_each (note_lost C (sn_AZ ` set agents)) (seen_order C (seenAZs (col w)))) w = ((), w1)"
    by (cases "run (for_each (note_lost C (sn_AZ ` set agents)) (seen_order C (seenAZs (col w)))) w") auto
  from lost_loop_run [OF 1] assms(2,3)
  have w1: "seenAZs (col w1) = sn_AZ ` set agents" "agentStates (col w1) = agentStates (col w)"
      "history (col w1) = history (col w)" by auto
  show ?thesis
    using assms(1) w1 unfolding total_point_def
    by (auto simp: close_scrape_def 1 add_point_def split: prod.splits)
qed

end
