(* ===== verification/Collector_Properties.thy ===== *)
theory Collector_Properties
  imports Collector_Function "HOL-Library.List_Lexorder" "HOL-Library.Char_ord"
begin

text \<open>
  The properties of the dashboard: its logs under every interleaving, what a scrape of the
  collector leaves behind, when a failover is logged, and what an action on an agent does.
\<close>

section \<open>The logs\<close>


text \<open>A scraper whose only pod serves the metrics of an agent of one AZ.\<close>

definition demo_page :: families where
  "demo_page = [''kube_nat_bytes_tx_total'' \<mapsto>
     [\<lparr>Label = [(''az'', ''az1''), (''instance_id'', ''i-a'')], Gauge = None, Counter = Some 0\<rparr>]]"

definition demo_scraper :: "unit collector_env" where
  "demo_scraper = \<lparr>agent_pods = (\<lambda>e. (Inr [\<lparr>pod_labels = [zone_label \<mapsto> ''az1''], PodIP = ''10.0.0.1'', pod_NodeName = ''n1''\<rparr>], e)),
     http = \<lparr>url_error = (\<lambda>_. None), Do = (\<lambda>m u hs e. (Inr \<lparr>StatusCode = 200, Body = Inr ''''\<rparr>, e))\<rparr>,
     parse_text = (\<lambda>_. (Some demo_page, None)), clock_now = (\<lambda>e. (7000000000, e)), col_MetricsPort = 9100,
     seen_order = sorted_list_of_set\<rparr>"

definition demo_dash :: "unit dash_env" where
  "demo_dash = \<lparr>scraper = demo_scraper, ServerVersion = ''v1'', post_client = http demo_scraper,
     Marshal = (\<lambda>_. Inr ''{}''), ws_accept = (\<lambda>e. (Inr 0, e)), ws_write = (\<lambda>c b e. (None, e)),
     ws_read = (\<lambda>c e. (None, e)), ws_close = (\<lambda>c e. ((), e)), client_order = sorted_list_of_set,
     err_text = (\<lambda>_. '''')\<rparr>"

definition demo_start :: "unit dashw" where
  "demo_start = \<lparr>col = new_collector, col_env = (), clients = {}\<rparr>"

definition demo_threads :: "bool \<Rightarrow> (unit dashw, unit) prog" where
  "demo_threads b = (if b then bind (dash_tick demo_dash) (\<lambda>_. Ret ())
     else bind (handleAgentClaim demo_dash ''POST'' ''/agents/az1/claim'') (\<lambda>_. Ret ()))"

lemma demo_dash_thread: "dash_thread demo_dash (demo_threads b)"
  unfolding demo_threads_def
  by (cases b) (simp_all only: if_True if_False dash_thread.served dash_thread.collector_loop dash_thread.action)


lemmas demo_defs = demo_dash_def demo_scraper_def demo_start_def demo_page_def new_collector_def

lemmas collect_defs = Collect_def scrape_def buildSnap_def first_labels_def gaugeVal_def metrics_of_def
  owned_tables_def record_agent_def note_appeared_def note_changes_def detectFailovers_def close_scrape_def
  note_lost_def remember_def add_point_def append_event_def push_capped_def Let_def

lemma demo_tick_logs:
  "events (col (snd (run (dash_tick demo_dash) demo_start))) = [\<lparr>ev_TS = 7000, ev_AZ = ''az1'',
     Kind = ''agent_appeared'', Detail = ''agent i-a appeared in az1''\<rparr>]"
  by (simp add: dash_tick_def Broadcast_def demo_defs collect_defs)

lemma demo_scrape:
  "map_sum id (\<lambda>sn. map sn_AZ (Agents sn)) (fst (run (Collect demo_scraper) demo_start)) = Inr [''az1'']"
  by (simp add: demo_defs collect_defs)


section \<open>A scrape\<close>

text \<open>
  C35: A scrape that nothing interrupts leaves the collector with exactly the AZs of the
  agents it reports, remembers each AZ's last agent, and adds to the history one point, their
  totals; the snapshot shows these logs. The state of an AZ without an agent is kept.
\<close>

theorem Collect_agrees:
  assumes "lists_keys (seen_order C)" and "finite (seenAZs (col w))" and "run (Collect C) w = (Inr sn, w')"
  shows "seenAZs (col w') = sn_AZ ` set (Agents sn) \<and>
    agentStates (col w') = remembers (Agents sn) (agentStates (col w)) \<and>
    History sn = history (col w') \<and> Events sn = events (col w') \<and> Failovers sn = failovers (col w') \<and>
    (\<exists>t. history (col w') = push_capped 60 (history (col w)) (total_point t (Agents sn)))"
proof -
  obtain pods e1 where pods: "agent_pods C (col_env w) = (Inr pods, e1)"
    using assms(3) by (auto simp: Collect_def split: prod.splits sum.splits)
  obtain agents w1 where loop: "run (scrape_loop C [] pods) (w\<lparr>col_env := e1\<rparr>) = (agents, w1)" by fastforce
  obtain c w2 where close: "run (close_scrape C agents) w1 = (c, w2)" by fastforce
  have sn: "Agents sn = agents" "History sn = history c" "Events sn = events c" "Failovers sn = failovers c"
    and w': "col w' = col w2"
    using assms(3) by (auto simp: Collect_def pods loop close split: prod.splits)
  from scrape_loop_run [OF loop]
  have w1: "seenAZs (col w1) = seenAZs (col w) \<union> sn_AZ ` set agents" "history (col w1) = history (col w)"
      "agentStates (col w1) = remembers agents (agentStates (col w))" by auto
  have "set (seen_order C (seenAZs (col w1))) = seenAZs (col w1)"
    by (rule lists_keysD [OF assms(1)]) (simp add: w1 assms(2))
  from close_scrape_run [OF close this] w1 show ?thesis by (auto simp: sn w')
qed

theorem Collect_agrees_witness:
  "\<exists>sn w'. run (Collect demo_scraper) demo_start = (Inr sn, w') \<and> seenAZs (col w') = {''az1''} \<and> length (History sn) = 1"
proof -
  obtain r w' where r: "run (Collect demo_scraper) demo_start = (r, w')" by fastforce
  with demo_scrape obtain sn where run: "run (Collect demo_scraper) demo_start = (Inr sn, w')"
    and az: "map sn_AZ (Agents sn) = [''az1'']" by (cases r) auto
  have "lists_keys (seen_order demo_scraper)" and "finite (seenAZs (col demo_start))"
    by (simp_all add: demo_scraper_def sorted_list_lists_keys demo_start_def new_collector_def)
  from Collect_agrees [OF this run] have seen: "seenAZs (col w') = sn_AZ ` set (Agents sn)"
    and "\<exists>t. History sn = push_capped 60 (history (col demo_start)) (total_point t (Agents sn))" by auto
  then have "length (History sn) = 1"
    by (auto simp: length_push_capped demo_start_def new_collector_def)
  moreover have "sn_AZ ` set (Agents sn) = {''az1''}" unfolding list.set_map [symmetric] az by (simp only: list.set)
  ultimately show ?thesis using run seen by (intro exI [of _ sn] exI [of _ w'] conjI) simp_all
qed

section \<open>Failovers\<close>

text \<open>The readings of a counter that exceed all before them.\<close>

fun new_maxima :: "real \<Rightarrow> real list \<Rightarrow> real list" where
  "new_maxima p [] = []"
| "new_maxima p (v # vs) = (if v > p then v # new_maxima v vs else new_maxima p vs)"

definition failover_page :: "string \<Rightarrow> real \<Rightarrow> families" where
  "failover_page fromAZ v = [''kube_nat_failover_total'' \<mapsto> [reading fromAZ v]]"

lemma run_detect_page: "run (detectFailovers C (failover_page f v) to) w = run (failover_of C to (reading f v)) w"
  by (simp add: detectFailovers_def failover_page_def metrics_of_def case_prod_beta)

lemma readings_after_first:
  assumes "f \<noteq> ''''"
  shows "\<lbrakk>failoverCounters (col w) (counter_key f to) = Some p; length (failovers (col w)) \<le> 100;
     run (for_each (\<lambda>v. detectFailovers C (failover_page f v) to) vs) w = ((), w')\<rbrakk> \<Longrightarrow>
   \<exists>fos. failovers (col w') = lastn 100 (failovers (col w) @ fos) \<and> length fos = length (new_maxima p vs) \<and>
     (\<forall>x \<in> set fos. FromAZ x = f \<and> ToAZ x = to)"
proof (induction vs arbitrary: w p)
  case Nil
  then show ?case by (intro exI [of _ "[]"]) simp
next
  case (Cons v vs)
  obtain w1 where 1: "run (failover_of C to (reading f v)) w = ((), w1)"
    by (cases "run (failover_of C to (reading f v)) w") auto
  with Cons.prems(3) have rest: "run (for_each (\<lambda>v. detectFailovers C (failover_page f v) to) vs) w1 = ((), w')"
    by (simp add: run_detect_page)
  note step = run_failover_of [OF assms 1, unfolded Cons.prems(1) option.case]
  show ?case
  proof (cases "v > p")
    case False
    with step have "w1 = w" by simp
    with False Cons.IH [OF Cons.prems(1,2)] rest show ?thesis by simp
  next
    case True
    with step obtain t where fo: "failovers (col w1) = lastn 100 (failovers (col w) @ [\<lparr>FromAZ = f, ToAZ = to, fo_TS = real_of_int t\<rparr>])"
      and c: "failoverCounters (col w1) (counter_key f to) = Some v" by (auto simp: push_capped_lastn)
    have "length (failovers (col w1)) \<le> 100" by (simp add: fo)
    from Cons.IH [OF c this rest] obtain fos where
      fos: "failovers (col w') = lastn 100 (failovers (col w1) @ fos)" "length fos = length (new_maxima v vs)"
        "\<forall>x \<in> set fos. FromAZ x = f \<and> ToAZ x = to" by blast
    with True fo show ?thesis
      by (intro exI [of _ "\<lparr>FromAZ = f, ToAZ = to, fo_TS = real_of_int t\<rparr> # fos"]) (simp add: lastn_lastn_append)
  qed
qed

text \<open>
  C36: Of the successive readings of one failover counter the first is a baseline,
  and each later one is logged as one failover exactly when it exceeds all before it, whatever
  it rose by. So when the covering agent restarts and its counter starts again from zero, its
  failovers are not logged until the old count is exceeded.
\<close>

theorem failovers_are_new_maxima:
  assumes "f \<noteq> ''''" and "failoverCounters (col w) (counter_key f to) = None" and "length (failovers (col w)) \<le> 100"
    and "run (for_each (\<lambda>v. detectFailovers C (failover_page f v) to) (v # vs)) w = ((), w')"
  shows "\<exists>fos. failovers (col w') = lastn 100 (failovers (col w) @ fos) \<and> length fos = length (new_maxima v vs) \<and>
    (\<forall>x \<in> set fos. FromAZ x = f \<and> ToAZ x = to)"
proof -
  obtain w1 where 1: "run (failover_of C to (reading f v)) w = ((), w1)"
    by (cases "run (failover_of C to (reading f v)) w") auto
  with assms(4) have rest: "run (for_each (\<lambda>v. detectFailovers C (failover_page f v) to) vs) w1 = ((), w')"
    by (simp add: run_detect_page)
  from run_failover_of [OF assms(1) 1] assms(2)
  have w1: "col w1 = set_counter (counter_key f to) v (col w)" by simp
  from readings_after_first [OF assms(1) _ _ rest] show ?thesis
    using assms(3) by (simp add: w1 set_counter_def)
qed

theorem failovers_are_new_maxima_witness:
  "failovers (col (snd (run (for_each (\<lambda>v. detectFailovers demo_scraper (failover_page ''az2'' v) ''az1'') [2, 0, 1, 2]) demo_start))) = []"
proof -
  let ?p = "for_each (\<lambda>v. detectFailovers demo_scraper (failover_page ''az2'' v) ''az1'') [2, 0, 1, 2]"
  obtain w' where run: "run ?p demo_start = ((), w')" by (cases "run ?p demo_start") auto
  from failovers_are_new_maxima [OF _ _ _ run]
  have "\<exists>fos. failovers (col w') = lastn 100 fos \<and> length fos = 0" by (simp add: demo_start_def new_collector_def)
  with run show ?thesis by simp
qed

section \<open>Actions\<close>

text \<open>The agent with that IP was asked for the action and answered 200.\<close>

definition agent_agreed :: "'e dash_env \<Rightarrow> string \<Rightarrow> string \<Rightarrow> bool" where
  "agent_agreed D ip act \<longleftrightarrow> (\<exists>e resp e'. Do (post_client D) ''POST''
     (action_url ip (col_MetricsPort (scraper D)) act) [(''Content-Type'', ''application/json'')] e = (Inr resp, e') \<and>
     StatusCode resp = 200)"

definition action_event :: "string \<Rightarrow> string \<Rightarrow> EventEntry \<Rightarrow> bool" where
  "action_event az act x \<longleftrightarrow> ev_AZ x = az \<and> Kind x = (if act = ''release'' then ''route_released'' else ''route_claimed'')"

lemma run_Post:
  assumes "run (Post H url) w = (r, w')"
  shows "col w' = col w \<and> dashw.clients w' = dashw.clients w \<and>
    (\<forall>resp. r = Inr resp \<longrightarrow> (\<exists>e e'. Do H ''POST'' url [(''Content-Type'', ''application/json'')] e = (Inr resp, e')))"
  using assms by (auto simp: Post_def split: option.splits prod.splits)

lemma run_log_action:
  assumes "run (log_action D az act) w = ((), w')"
  shows "clients w' = clients w \<and> (\<exists>x. action_event az act x \<and> col w' = append_event x (col w))"
proof -
  obtain t e where "clock_now (scraper D) (col_env w) = (t, e)" by fastforce
  with assms show ?thesis
    unfolding log_action_def AddEvent_def appendEvent_def
    by (auto simp: action_event_def simp del: append_event_simps intro!: exI)
qed

lemma ask_agent_run:
  assumes "run (ask_agent D az act ip) w = (rep, w')"
  shows "clients w' = clients w \<and> (if r_status rep = 200
    then agent_agreed D ip act \<and> (\<exists>x. action_event az act x \<and> col w' = append_event x (col w))
    else col w' = col w)"
proof -
  obtain r w1 where post: "run (Post (post_client D) (action_url ip (col_MetricsPort (scraper D)) act)) w = (r, w1)"
    by fastforce
  show ?thesis
  proof (cases "\<exists>resp. r = Inr resp \<and> StatusCode resp = 200")
    case True
    then obtain resp where r: "r = Inr resp" "StatusCode resp = 200" by blast
    have "rep = reply_ok" and w': "run (log_action D az act) w1 = ((), w')"
      using assms by (simp_all add: ask_agent_def post r split: prod.splits)
    moreover have "agent_agreed D ip act"
      using run_Post [OF post] r unfolding agent_agreed_def by blast
    ultimately show ?thesis
      using run_Post [OF post] run_log_action [OF w'] by (simp add: reply_ok_def)
  next
    case False
    with assms have "r_status rep = 502" and "w' = w1"
      by (auto simp: ask_agent_def post http_Error_def split: sum.splits if_splits)
    with run_Post [OF post] show ?thesis by simp
  qed
qed

text \<open>A request is refused, or it reaches the agent of the AZ.\<close>

lemma handleAgentClaim_run:
  assumes "run (handleAgentClaim D meth path) w = (rep, w')"
  shows "r_status rep \<noteq> 200 \<and> col w' = col w \<and> clients w' = clients w \<or>
    (\<exists>ps e az act. meth = ''POST'' \<and> agent_pods (scraper D) (col_env w) = (Inr ps, e) \<and>
      take 2 (Split (TrimPrefix path ''/agents/'') (CHR ''/'')) = [az, act] \<and> act \<in> {''claim'', ''release''} \<and>
      agent_ip az ps \<noteq> '''' \<and> run (ask_agent D az act (agent_ip az ps)) (w\<lparr>col_env := e\<rparr>) = (rep, w'))"
proof -
  let ?parts = "Split (TrimPrefix path ''/agents/'') (CHR ''/'')"
  show ?thesis
  proof (cases "meth = ''POST'' \<and> 2 \<le> length ?parts \<and> ?parts ! 1 \<in> {''claim'', ''release''} \<and> ?parts ! 0 \<noteq> ''''")
    case False
    with assms show ?thesis
      by (intro disjI1) (auto simp: handleAgentClaim_def Let_def http_Error_def http_NotFound_def split: if_splits)
  next
    case True
    then have parts: "take 2 ?parts = [?parts ! 0, ?parts ! 1]"
      by (cases ?parts; cases "tl ?parts") auto
    obtain r e1 where pods: "agent_pods (scraper D) (col_env w) = (r, e1)" by fastforce
    show ?thesis
    proof (cases "\<exists>ps. r = Inr ps \<and> agent_ip (?parts ! 0) ps \<noteq> ''''")
      case False
      with assms True pods show ?thesis
        by (intro disjI1) (auto simp: handleAgentClaim_def Let_def http_Error_def split: sum.splits)
    next
      case found: True
      then obtain ps where r: "r = Inr ps" "agent_ip (?parts ! 0) ps \<noteq> ''''" by blast
      have "run (ask_agent D (?parts ! 0) (?parts ! 1) (agent_ip (?parts ! 0) ps)) (w\<lparr>col_env := e1\<rparr>) = (rep, w')"
        using assms True pods r by (auto simp: handleAgentClaim_def Let_def)
      moreover have "agent_pods (scraper D) (col_env w) = (Inr ps, e1)" using pods r by simp
      moreover have "?parts ! 1 \<in> {''claim'', ''release''}" "meth = ''POST''" using True by simp_all
      ultimately show ?thesis using parts r(2) by blast
    qed
  qed
qed

text \<open>
  C37: An action request is answered with 200 only when it was a POST of a claim or a
  release, a pod labelled with the AZ was found and its agent answered 200; then exactly one
  event is logged for it, of the action's kind. Otherwise the collector is as it was, and the
  browser connections are in either case. Without a pod that carries the zone label the
  dashboard looks for, no action succeeds.
\<close>

theorem action_logged_iff_done:
  assumes "run (handleAgentClaim D meth path) w = (rep, w')"
  shows "clients w' = clients w \<and> (if r_status rep = 200
    then meth = ''POST'' \<and> (\<exists>pods e e' az act x. agent_pods (scraper D) e = (Inr pods, e') \<and>
      take 2 (Split (TrimPrefix path ''/agents/'') (CHR ''/'')) = [az, act] \<and> act \<in> {''claim'', ''release''} \<and>
      agent_ip az pods \<noteq> '''' \<and> agent_agreed D (agent_ip az pods) act \<and>
      action_event az act x \<and> col w' = append_event x (col w))
    else col w' = col w)"
proof -
  from handleAgentClaim_run [OF assms] consider "r_status rep \<noteq> 200 \<and> col w' = col w \<and> clients w' = clients w"
    | (asked) ps e az act where "meth = ''POST''" "agent_pods (scraper D) (col_env w) = (Inr ps, e)"
      "take 2 (Split (TrimPrefix path ''/agents/'') (CHR ''/'')) = [az, act]" "act \<in> {''claim'', ''release''}"
      "agent_ip az ps \<noteq> ''''" "run (ask_agent D az act (agent_ip az ps)) (w\<lparr>col_env := e\<rparr>) = (rep, w')"
    by blast
  then show ?thesis
  proof cases
    case asked
    note ask = ask_agent_run [OF asked(6)]
    show ?thesis
    proof (cases "r_status rep = 200")
      case True
      with ask obtain x where "agent_agreed D (agent_ip az ps) act" "action_event az act x" "col w' = append_event x (col w)"
        by auto
      with asked(1-5) True ask show ?thesis by simp blast
    qed (use ask in simp)
  qed simp
qed

lemma demo_claim_ok:
  "r_status (fst (run (handleAgentClaim demo_dash ''POST'' ''/agents/az1/claim'') demo_start)) = 200"
  by (simp add: handleAgentClaim_def ask_agent_def Post_def log_action_def AddEvent_def appendEvent_def demo_dash_def
      demo_scraper_def reply_ok_def go_string_simps zone_label_def case_prod_beta Let_def)

theorem action_logged_iff_done_witness:
  "\<exists>rep w' x. run (handleAgentClaim demo_dash ''POST'' ''/agents/az1/claim'') demo_start = (rep, w') \<and>
     r_status rep = 200 \<and> events (col w') = [x] \<and> ev_AZ x = ''az1'' \<and> Kind x = ''route_claimed''"
proof -
  let ?p = "handleAgentClaim demo_dash ''POST'' ''/agents/az1/claim''"
  obtain rep w' where run: "run ?p demo_start = (rep, w')" by fastforce
  have ok: "r_status rep = 200" using demo_claim_ok run by simp
  have parts: "take 2 (Split (TrimPrefix ''/agents/az1/claim'' ''/agents/'') (CHR ''/'')) = [''az1'', ''claim'']"
    by (simp add: go_string_simps)
  from action_logged_iff_done [OF run, unfolded ok if_P [OF refl] parts]
  obtain az act x where "[''az1'', ''claim''] = [az, act]" and x: "action_event az act x"
    and c: "col w' = append_event x (col demo_start)" by (elim conjE exE)
  then have "ev_AZ x = ''az1''" and "Kind x = ''route_claimed''" by (auto simp: action_event_def)
  moreover have "events (col w') = [x]"
    by (simp add: c append_event_def demo_start_def new_collector_def push_capped_def)
  ultimately show ?thesis
    using run ok by (intro exI [of _ rep] exI [of _ w'] exI [of _ x] conjI)
qed

end
