(* ===== verification/Boot_Properties.thy ===== *)
theory Boot_Properties
  imports Boot Agent_Scenarios
begin

text \<open>
  What the start of an agent leaves behind when it fails and when it succeeds, and what the
  HTTP actions do to an agent that serves.
\<close>

section \<open>Silent preparations\<close>

text \<open>The documented behaviour of the libraries the start loads: none touches a Lease or a route.\<close>

definition platform_ok :: "'e platform \<Rightarrow> ('e \<Rightarrow> kstore) \<Rightarrow> ('e \<Rightarrow> routes) \<Rightarrow> bool" where
  "platform_ok P V RV \<longleftrightarrow>
     (\<forall>m u hs. silent_fn V RV (Do (imds P) m u hs)) \<and> (\<forall>region. silent_fn V RV (load_aws P region)) \<and>
     silent_fn V RV (load_iptables P) \<and> silent_fn V RV (in_cluster P) \<and> silent_fn V RV (new_clientset P) \<and>
     (\<forall>addr. silent_fn V RV (bind_port P addr)) \<and>
     (\<forall>region e A e'. load_aws P region e = (Inr A, e') \<longrightarrow>
       (\<forall>eni b. silent_fn V RV (ModifySourceDestCheck A eni b)) \<and> (\<forall>ty. silent_fn V RV (DescribeInstanceTypes A ty))) \<and>
     (\<forall>e I e'. load_iptables P e = (Inr I, e') \<longrightarrow> iptables_silent I V RV)"

definition silent_step :: "('e \<Rightarrow> kstore) \<Rightarrow> ('e \<Rightarrow> routes) \<Rightarrow> ('e, 'x) recw_scheme \<Rightarrow> ('e, 'x) recw_scheme \<Rightarrow> bool" where
  "silent_step V RV w w' \<longleftrightarrow> silent V RV (outside w) (outside w')"

lemma silent_refl [simp]: "silent V RV e e"
  by (simp add: silent_def reads_def quiet_def)

lemma silent_trans: "silent V RV a b \<Longrightarrow> silent V RV b c \<Longrightarrow> silent V RV a c"
  by (auto simp: silent_def reads_def quiet_def)

lemma hush_out:
  assumes "anyhow (silent V RV) Q p"
  shows "anyhow (silent_step V RV) Q (out p)"
  unfolding anyhow_def out_def
proof
  fix w
  have "safe (\<lambda>_ _. True) (silent V RV) (\<lambda>a _. Q a) p (outside w)" using assms by (simp add: anyhow_def)
  then show "safe (\<lambda>_ _. True) (silent_step V RV) (\<lambda>a _. Q a) (zoom outside (\<lambda>v w. w\<lparr>outside := v\<rparr>) p) w"
    by (rule safe_zoom) (auto simp: silent_step_def)
qed

lemma hush_call: "silent_fn V RV f \<Longrightarrow> anyhow (silent_step V RV) (\<lambda>_. True) (out (call f))"
  by (rule hush_out [OF silent_call])

lemma hush_local: "(\<And>w r w'. f w = (r, w') \<Longrightarrow> outside w' = outside w) \<Longrightarrow> anyhow (silent_step V RV) (\<lambda>_. True) (call f)"
  by (rule anyhow_call) (auto simp: silent_step_def)

lemma hush_metric: "anyhow (silent_step V RV) (\<lambda>_. True) (metric f)"
  unfolding metric_def by (rule hush_local) auto

lemma hush_need: "anyhow G (\<lambda>r. \<forall>a. r = Inr a \<longrightarrow> S a) p \<Longrightarrow> (\<And>a. S a \<Longrightarrow> anyhow G Q (k a)) \<Longrightarrow> (\<And>e. Q (Inl e)) \<Longrightarrow>
    anyhow G Q (need msg p k)"
  unfolding need_def by (erule anyhow_bind) (auto split: sum.split)

lemma hush_must: "anyhow G S p \<Longrightarrow> (S None \<Longrightarrow> anyhow G Q k) \<Longrightarrow> (\<And>e. Q (Inl e)) \<Longrightarrow> anyhow G Q (must msg p k)"
  unfolding must_def by (erule anyhow_bind) (auto split: option.split)

lemma hush_bind: "anyhow G (\<lambda>_. True) p \<Longrightarrow> (\<And>a. anyhow G (\<lambda>_. True) (k a)) \<Longrightarrow> anyhow G (\<lambda>_. True) (bind p k)"
  by (rule anyhow_bind)

lemma hush_any: "anyhow G Q p \<Longrightarrow> anyhow G (\<lambda>_. True) p"
  by (erule anyhow_weaken) simp

section \<open>The steps\<close>

lemma hush_request:
  assumes "\<And>m u hs. silent_fn V RV (Do H m u hs)"
  shows "anyhow (silent V RV) (\<lambda>_. True) (getToken H base)" and "anyhow (silent V RV) (\<lambda>_. True) (imds_get H base t p)"
  unfolding getToken_def imds_get_def Let_def
  by (auto intro!: anyhow_bind [OF silent_call [OF assms]] split: option.split)

lemma hush_try: "anyhow G (\<lambda>_. True) p \<Longrightarrow> (\<And>a. anyhow G (\<lambda>_. True) (k a)) \<Longrightarrow> anyhow G (\<lambda>_. True) (try_then p k)"
  unfolding try_then_def by (rule anyhow_bind) (auto split: sum.split)

lemma hush_Fetch:
  assumes "\<And>m u hs. silent_fn V RV (Do H m u hs)"
  shows "anyhow (silent V RV) (\<lambda>_. True) (Fetch H base)"
  unfolding Fetch_def
  by (rule anyhow_bind [OF hush_request(1) [OF assms]])
    (auto intro!: hush_try hush_request(2) [OF assms] split: sum.split)

text \<open>What a loaded client and a loaded manager are good for.\<close>

definition quiet_client :: "('e \<Rightarrow> kstore) \<Rightarrow> ('e \<Rightarrow> routes) \<Rightarrow> 'e ec2_client \<Rightarrow> bool" where
  "quiet_client V RV C \<longleftrightarrow> (\<forall>eni. anyhow (silent V RV) (\<lambda>_. True) (DisableSourceDestCheck C eni)) \<and>
     (\<forall>ty. anyhow (silent V RV) (\<lambda>_. True) (DescribeInstanceMaxBandwidth C ty))"

definition quiet_nat :: "('e \<Rightarrow> kstore) \<Rightarrow> ('e \<Rightarrow> routes) \<Rightarrow> 'e nat_manager \<times> 'e iptables_api \<Rightarrow> bool" where
  "quiet_nat V RV m \<longleftrightarrow> fst m = iptablesManager (snd m) \<and> iptables_silent (snd m) V RV"

lemma hush_NewEC2Client:
  assumes "platform_ok P V RV"
  shows "anyhow (silent V RV) (\<lambda>r. \<forall>C. r = Inr C \<longrightarrow> quiet_client V RV C) (NewEC2Client P region prefix disc)"
  unfolding NewEC2Client_def
proof (rule anyhow_call_bind, rule conjI)
  fix e r e' assume c: "load_aws P region e = (r, e')"
  show "silent V RV e e'" using assms c by (auto simp: platform_ok_def silent_fn_def)
  have "quiet_client V RV (realEC2Client A s)" if "r = Inr A" for A s
  proof -
    have "(\<forall>eni b. silent_fn V RV (ModifySourceDestCheck A eni b)) \<and> (\<forall>ty. silent_fn V RV (DescribeInstanceTypes A ty))"
      using assms c that unfolding platform_ok_def by blast
    then show ?thesis
      by (simp add: quiet_client_def disableSourceDestCheck_def describeInstanceMaxBandwidth_def silent_call
          anyhow_bind [OF silent_call])
  qed
  then show "anyhow (silent V RV) (\<lambda>r. \<forall>C. r = Inr C \<longrightarrow> quiet_client V RV C) (Ret (case r of
      Inl e \<Rightarrow> Inl (Wrap ''load aws config'' e) | Inr A \<Rightarrow> Inr (realEC2Client A \<lparr>tagPrefix = prefix, discoveryValue = disc\<rparr>)))"
    by (auto split: sum.split)
qed

lemma hush_NewNatManager:
  assumes "platform_ok P V RV"
  shows "anyhow (silent V RV) (\<lambda>r. \<forall>m. r = Inr m \<longrightarrow> quiet_nat V RV m) (NewNatManager P)"
  unfolding NewNatManager_def
proof (rule anyhow_call_bind, rule conjI)
  fix e r e' assume c: "load_iptables P e = (r, e')"
  show "silent V RV e e'" using assms c by (auto simp: platform_ok_def silent_fn_def)
  have "iptables_silent I V RV" if "r = Inr I" for I
    using assms c that unfolding platform_ok_def by blast
  then show "anyhow (silent V RV) (\<lambda>r. \<forall>m. r = Inr m \<longrightarrow> quiet_nat V RV m)
      (Ret (case r of Inl e \<Rightarrow> Inl (Wrap ''iptables init'' e) | Inr I \<Rightarrow> Inr (iptablesManager I, I)))"
    by (auto simp: quiet_nat_def split: sum.split)
qed

lemma hush_boot_clients:
  assumes P: "platform_ok P V RV"
  shows "anyhow (silent_step V RV) (\<lambda>r. \<forall>meta C M. r = Inr (meta, C, M) \<longrightarrow>
      quiet_client V RV C \<and> (\<exists>I. quiet_nat V RV (M, I))) (boot_clients P c)"
  unfolding boot_clients_def
proof (rule hush_need [where S = "\<lambda>_. True"])
  have imds: "silent_fn V RV (Do (imds P) m u hs)" for m u hs using P by (simp add: platform_ok_def)
  show "anyhow (silent_step V RV) (\<lambda>r. \<forall>a. r = Inr a \<longrightarrow> True) (out (Fetch (imds P) (imds_url '''')))"
    using hush_out [OF hush_Fetch [OF imds]] by simp
  fix meta
  show "anyhow (silent_step V RV) (\<lambda>r. \<forall>meta C M. r = Inr (meta, C, M) \<longrightarrow>
      quiet_client V RV C \<and> (\<exists>I. quiet_nat V RV (M, I)))
    (need ''aws ec2 client'' (out (NewEC2Client P (md_Region meta) (TagPrefix c) (DiscoveryValue c))) (\<lambda>ec2.
     must ''disable src/dst check'' (out (DisableSourceDestCheck ec2 (md_ENIID meta)))
     (need ''nat manager'' (out (NewNatManager P)) (\<lambda>(natMgr, I).
     must ''conntrack max'' (out (SetConntrackMax natMgr (ConntrackMax c)))
     (must ''port range'' (out (SetPortRange I (IPLocalPortRange c)))
     (Ret (Inr (meta, ec2, natMgr))))))))"
  proof (rule hush_need [OF hush_out [OF hush_NewEC2Client [OF P]]], rule hush_must)
    fix C assume C: "quiet_client V RV C"
    then show "anyhow (silent_step V RV) (\<lambda>_. True) (out (DisableSourceDestCheck C (md_ENIID meta)))"
      by (intro hush_out) (simp add: quiet_client_def)
    show "anyhow (silent_step V RV) (\<lambda>r. \<forall>meta C M. r = Inr (meta, C, M) \<longrightarrow>
        quiet_client V RV C \<and> (\<exists>I. quiet_nat V RV (M, I)))
      (need ''nat manager'' (out (NewNatManager P)) (\<lambda>(natMgr, I).
       must ''conntrack max'' (out (SetConntrackMax natMgr (ConntrackMax c)))
       (must ''port range'' (out (SetPortRange I (IPLocalPortRange c)))
       (Ret (Inr (meta, C, natMgr))))))"
    proof (rule hush_need [OF hush_out [OF hush_NewNatManager [OF P]]])
      fix m assume m: "quiet_nat V RV m"
      have w: "anyhow (silent V RV) (\<lambda>_. True) (SetConntrackMax (fst m) n)"
          "anyhow (silent V RV) (\<lambda>_. True) (SetPortRange (snd m) s)" for n s
        using m by (simp_all add: quiet_nat_def setConntrackMax_def SetPortRange_def write_anyhow)
      show "anyhow (silent_step V RV) (\<lambda>r. \<forall>meta C M. r = Inr (meta, C, M) \<longrightarrow>
          quiet_client V RV C \<and> (\<exists>I. quiet_nat V RV (M, I)))
        (case m of (natMgr, I) \<Rightarrow> must ''conntrack max'' (out (SetConntrackMax natMgr (ConntrackMax c)))
         (must ''port range'' (out (SetPortRange I (IPLocalPortRange c))) (Ret (Inr (meta, C, natMgr)))))"
        unfolding case_prod_beta
        by (rule hush_must [OF hush_out [OF w(1)]], rule hush_must [OF hush_out [OF w(2)]])
          (use C m in \<open>auto intro: exI [of _ "snd m"]\<close>)
    qed simp
  qed simp_all
qed simp

lemma hush_SetupDataPlane:
  assumes "iptables_silent I V RV" and "NATManager cfg = iptablesManager I"
  shows "anyhow (silent_step V RV) (\<lambda>_. True) (SetupDataPlane cfg)"
  unfolding SetupDataPlane_def assms(2) iptablesManager_simps enableIPForward_def
  by (auto intro!: hush_bind hush_out ensureMasquerade_anyhow [OF assms(1)] write_anyhow [OF assms(1)]
      ensureStaleFlowReset_anyhow [OF assms(1)] split: option.split)

lemma hush_boot_metrics:
  assumes "quiet_client V RV C"
  shows "anyhow (silent_step V RV) (\<lambda>_. True) (boot_metrics c meta C)"
  unfolding boot_metrics_def using assms
  by (auto intro!: hush_bind hush_metric hush_out simp: quiet_client_def split: sum.split)

definition listens :: "'e platform \<Rightarrow> config \<Rightarrow> bool" where
  "listens P c \<longleftrightarrow> (\<exists>e e'. bind_port P ('':'' @ Itoa (PeerPort c)) e = (None, e'))"

lemma hush_boot_data_plane:
  assumes P: "platform_ok P V RV" and "iptables_silent I V RV" and "NATManager (rcfg E) = iptablesManager I"
  shows "anyhow (silent_step V RV) (\<lambda>r. \<forall>E'. r = Inr E' \<longrightarrow> listens P c) (boot_data_plane P c E)"
proof -
  have s: "silent_fn V RV (in_cluster P)" "silent_fn V RV (new_clientset P)" "silent_fn V RV (bind_port P addr)" for addr
    using P by (simp_all add: platform_ok_def)
  have l: "anyhow (silent_step V RV) (\<lambda>err. err = None \<longrightarrow> listens P c) (out (call (bind_port P ('':'' @ Itoa (PeerPort c)))))"
    by (intro hush_out anyhow_call) (use s(3) in \<open>auto simp: silent_fn_def listens_def\<close>)
  have listen: "anyhow (silent_step V RV) (\<lambda>r. \<forall>E'. r = Inr E' \<longrightarrow> listens P c)
      (must ''peer server listen'' (out (call (bind_port P ('':'' @ Itoa (PeerPort c))))) (Ret (Inr E)))"
    by (rule hush_must [OF l]) simp_all
  have ready: "anyhow (silent_step V RV) (\<lambda>_. True) (set_ready True)"
    unfolding set_ready_def by (rule hush_local) auto
  show ?thesis
    unfolding boot_data_plane_def
    by (rule hush_must [OF hush_call [OF s(1)]], rule hush_must [OF hush_call [OF s(2)]],
        rule hush_must [OF hush_SetupDataPlane [OF assms(2,3)]], rule anyhow_bind [OF ready])
      (simp_all only: listen sum.simps HOL.simp_thms)
qed

lemma hush_prepare:
  fixes P :: "'e platform"
  assumes P: "platform_ok P V RV"
  shows "anyhow (silent_step V RV) (\<lambda>r. \<forall>E. r = Inr E \<longrightarrow> listens P c) (prepare P c)"
  unfolding prepare_def
proof (rule anyhow_bind [OF hush_boot_clients [OF P]])
  fix r :: "(InstanceMetadata \<times> 'e ec2_client \<times> 'e nat_manager) result"
  assume r: "\<forall>meta C M. r = Inr (meta, C, M) \<longrightarrow> quiet_client V RV C \<and> (\<exists>I. quiet_nat V RV (M, I))"
  show "anyhow (silent_step V RV) (\<lambda>r. \<forall>E. r = Inr E \<longrightarrow> listens P c)
    (case r of Inl e \<Rightarrow> Ret (Inl e) | Inr (meta, C, M) \<Rightarrow>
      bind (boot_metrics c meta C) (\<lambda>_. boot_data_plane P c (agent_env_of P c meta C M)))"
  proof (cases r)
    case (Inr x)
    obtain meta C M where x: "x = (meta, C, M)" by (cases x)
    with r Inr obtain I where C: "quiet_client V RV C" and M: "quiet_nat V RV (M, I)" by blast
    have env: "NATManager (rcfg (agent_env_of P c meta C M)) = iptablesManager I" and I: "iptables_silent I V RV"
      using M by (simp_all add: agent_env_of_def quiet_nat_def)
    show ?thesis
      unfolding Inr x sum.case prod.case
      by (rule anyhow_bind [OF hush_boot_metrics [OF C] hush_boot_data_plane [OF P I env]])
  qed simp
qed

lemma prepare_ready:
  assumes "run (prepare P c) w = (Inr E, w')"
  shows "ready w'"
proof -
  have dp: "ready v'" if "run (boot_data_plane P c E') v = (Inr E, v')" for E' and v v' :: "('a, 'b) agentw_scheme"
    using that unfolding boot_data_plane_def must_def set_ready_def
    by (auto split: option.splits prod.splits)
  from assms show ?thesis
    unfolding prepare_def by (auto split: sum.splits prod.splits intro: dp)
qed

lemma keeps_ready_boot:
  "keeps_ready (boot_drain P E)" "keeps_ready (firstService E)"
  by (auto intro!: keeps_ready_rules keeps_ready_parts keeps_ready_call
      simp: boot_drain_def Prime_def resolveNode_def drain_check_def onDrain_def IsDraining_def set_draining_def
        firstService_def serveOwnAZ_def set_standby_def split: option.split sum.split bool.split list.split)

section \<open>Properties\<close>

text \<open>
  C38: A start that fails has touched no Lease and no default route: every step that
  can fail comes before the first Lease operation. One that succeeds is listening for its peers
  and has the data plane up, so is ready, before the first Lease is asked for; what it does to
  Leases and routes is its drain check and its first service.
\<close>

theorem failed_start_leaves_no_trace:
  assumes "platform_ok P V RV" and "run (boot P c) w = (r, w')"
  shows "case r of Inl _ \<Rightarrow> silent V RV (outside w) (outside w')
    | Inr E \<Rightarrow> listens P c \<and> ready w' \<and> (\<exists>w1. ready w1 \<and> silent V RV (outside w) (outside w1) \<and>
        run (bind (boot_drain P E) (\<lambda>_. firstService E)) w1 = ((), w'))"
proof -
  obtain p w1 where p: "run (prepare P c) w = (p, w1)" by fastforce
  have hush: "silent V RV (outside w) (outside w1) \<and> (\<forall>E. p = Inr E \<longrightarrow> listens P c)"
    by (rule anyhow_run [OF hush_prepare [OF assms(1)] _ _ p, where J = "\<lambda>v. silent V RV (outside w) (outside v)"])
      (auto simp: silent_step_def intro: silent_trans)
  show ?thesis
  proof (cases p)
    case (Inl e)
    with assms(2) have "r = Inl e" and "w' = w1" by (simp_all add: boot_def p)
    with hush show ?thesis by simp
  next
    case (Inr E)
    with p have rd: "ready w1" by (auto intro: prepare_ready)
    have r: "r = Inr E" and rest: "run (bind (boot_drain P E) (\<lambda>_. firstService E)) w1 = ((), w')"
      using assms(2) by (auto simp: boot_def p Inr split: prod.splits)
    have "ready w' = ready w1"
      by (rule keeps_ready_run [OF _ rest]) (intro keeps_ready_bind keeps_ready_boot)
    with r rd rest hush Inr show ?thesis by auto
  qed
qed

definition deaf_platform :: "sim platform" where
  "deaf_platform = \<lparr>imds = \<lparr>url_error = (\<lambda>_. None), Do = (\<lambda>m u hs w. (Inr \<lparr>StatusCode = 200, Body = Inr ''0''\<rparr>, w))\<rparr>,
     load_aws = (\<lambda>region w. (Inr (sim_ec2 two_tables), w)), load_iptables = (\<lambda>w. (Inr sim_iptables, w)),
     in_cluster = (\<lambda>w. (None, w)), new_clientset = (\<lambda>w. (None, w)),
     bind_port = (\<lambda>addr w. (Some (Msg ''address already in use''), w)), kube_leases = sim_leases,
     kube_node = (\<lambda>n w. (Inr \<lparr>Unschedulable = False, Taints = []\<rparr>, w)), kube_pods = (\<lambda>w. (Inr [], w)),
     kube_nodes_of = (\<lambda>p w. (Inr [''node-a''], w)), proc_file = (\<lambda>p w. (Inr ''100'', w)),
     proc_lines = (\<lambda>p w. (Inr [], w)), netlink_stats = (\<lambda>i w. (Inr None, w)),
     tcp_send = (\<lambda>c m w. ((), w)), map_order = sorted_list_of_set, POD_NAME = ''pod-a'', NODE_NAME = ''node-a''\<rparr>"

lemma sim_ec2_quiet:
  "silent_fn V RV (ModifySourceDestCheck (sim_ec2 ts) eni b)" "silent_fn V RV (DescribeInstanceTypes (sim_ec2 ts) ty)"
  by (simp_all add: silent_fn_def sim_ec2_def)

lemma deaf_platform_ok: "platform_ok deaf_platform sim_store sim_routes"
  unfolding platform_ok_def
  by (auto simp: deaf_platform_def sim_ec2_quiet sim_iptables_silent silent_fn_def [of _ _ "\<lambda>w. (_, w)"])

theorem failed_start_leaves_no_trace_witness:
  "\<exists>err w'. run (boot deaf_platform (from_env (\<lambda>_. ''''))) (agentw_start new_rec_state False (mem_a 0)) = (Inl err, w') \<and>
     sim_routes (outside w') = sim_routes sim_start"
proof -
  let ?w = "agentw_start new_rec_state False (mem_a 0)"
  obtain r w' where run: "run (boot deaf_platform (from_env (\<lambda>_. ''''))) ?w = (r, w')" by fastforce
  from failed_start_leaves_no_trace [OF deaf_platform_ok run]
  obtain err where "r = Inl err" and "silent sim_store sim_routes (outside ?w) (outside w')"
    by (cases r) (simp_all add: listens_def deaf_platform_def)
  with run show ?thesis by (simp add: silent_def)
qed

text \<open>
  C39: A release through the HTTP server that is answered with 200 in auto mode does not
  last: the agent keeps its Lease, so at the next tick of the lease loop it renews it, finds
  that it owns no table and claims the tables of its AZ again.
\<close>

theorem release_is_undone:
  assumes "ec2_api_ok A (tagPrefix c) RV T" and "EC2Client (rcfg E) = realEC2Client A c"
    and "cfg_InstanceID (rcfg E) \<noteq> ''''" and "cfg_Mode (rcfg E) \<noteq> ''manual''"
    and "run (agentMux E txt page ''POST'' ''/release'') w = (rep, w1)" and "r_status rep = 200"
    and "run (Renew (leases E) (leaseMgr E) (az_of E) (podName E)) (outside w1) = ((True, rerr), e2)"
    and "run (discoverRouteTables A c (az_of E)) e2 = (Inr ts, e3)" and "ts \<noteq> []"
    and "run (renewOwnLease E) w1 = (err, w2)"
  shows "ownedTables (rec_st w1) = [] \<and> to_gateways (set (ownedTables (rec_st w))) (RV (outside w)) (RV (outside w1)) \<and>
    (err = None \<longrightarrow> ownedTables (rec_st w2) = map ID ts \<and>
      (\<forall>k \<in> ID ` set ts. RV (outside w2) k = Some (ToInstance (cfg_InstanceID (rcfg E)))))"
proof -
  obtain rel where rel: "run (ReleaseRouteTables (rcfg E)) w = (rel, w1)" and "rel = None"
    using assms(5,6) by (cases "run (ReleaseRouteTables (rcfg E)) w")
      (auto simp: agentMux_def NewMux_def AddClaimHandler_def AddReleaseHandler_def http_Error_def split: option.splits)
  with ec2_real.ReleaseRouteTables_run [OF assms(1,2) rel]
  have released: "ownedTables (rec_st w1) = []"
      "to_gateways (set (ownedTables (rec_st w))) (RV (outside w)) (RV (outside w1))" by simp_all
  obtain cerr w3 where claim: "run (ClaimOwnRouteTables (rcfg E)) (w1\<lparr>outside := e2\<rparr>) = (cerr, w3)" by fastforce
  have "w2 = w3" and "err = None \<longleftrightarrow> cerr = None"
    using assms(4,7,10) claim released(1)
    by (auto simp: renewOwnLease_def ensureOwnLease_def OwnClaimPending_def own_claim_pending_def)
  moreover have "cerr = None \<longrightarrow> ownedTables (rec_st w3) = map ID ts \<and>
      (\<forall>k \<in> set (ownedTables (rec_st w3)). RV (outside w3) k = Some (ToInstance (cfg_InstanceID (rcfg E))))"
    using ec2_real.ClaimOwnRouteTables_run [OF assms(1-3) _ claim] assms(4,8,9) by (auto simp: az_of_def)
  ultimately show ?thesis using released by auto
qed

lemma sim_discover_az2:
  assumes "sim_routes w ''rtb-2'' = Some (ToNatGateway ''nat-2'')"
  shows "run (discoverRouteTables (sim_ec2 two_tables) sim_settings ''az2'') w =
   (Inr [\<lparr>ID = ''rtb-2'', rt_AZ = ''az2'', VpcID = ''vpc-1'', NatGatewayID = ''nat-2'', InstanceID = ''''\<rparr>], w)"
  by (simp add: discoverRouteTables_def sim_ec2_def sim_settings_def managed_filter_def two_tables_def
      sim_tag_def sim_described_def route_table_entry_def assms str_of_def)

lemma sim_claim:
  "sim_routes w k \<noteq> None \<Longrightarrow> run (claimRouteTable (sim_ec2 ts) k i) w =
   (None, w\<lparr>sim_routes := (sim_routes w)(k \<mapsto> ToInstance i)\<rparr>)"
  by (auto simp: claimRouteTable_def sim_ec2_def isEC2ErrorCode_def wrap_err_def)

lemma agent_b_claims_own:
  assumes "sim_routes (outside w) ''rtb-2'' = Some (ToNatGateway ''nat-2'')"
  shows "fst (run (ClaimOwnRouteTables (rcfg agent_b)) w) = None"
  by (simp add: ClaimOwnRouteTables_def claim_discovered_def agent_b_def sim_env_def sim_discover_az2 [OF assms]
      sim_claim assms case_prod_beta)

theorem release_is_undone_witness:
  "\<exists>rep w1 w2. run (agentMux agent_b (\<lambda>_. '''') (Ret reply_ok) ''POST'' ''/release'')
       (agentw_start owning_state False (mem_a 0)) = (rep, w1) \<and> r_status rep = 200 \<and>
     sim_routes (outside w1) ''rtb-2'' = Some (ToNatGateway ''nat-2'') \<and>
     run (renewOwnLease agent_b) w1 = (None, w2) \<and> sim_routes (outside w2) ''rtb-2'' = Some (ToInstance ''i-b'')"
proof -
  let ?w = "agentw_start owning_state False (mem_a 0)"
  let ?p = "agentMux agent_b (\<lambda>_. '''') (Ret reply_ok) ''POST'' ''/release''"
  obtain rep w1 where run: "run ?p ?w = (rep, w1)" by fastforce
  have ok: "r_status rep = 200" and out: "sim_routes (outside w1) ''rtb-2'' = Some (ToNatGateway ''nat-2'')"
    and mem: "sim_mem (outside w1) = mem_a 0"
    using run by (auto simp: agentMux_def NewMux_def AddClaimHandler_def AddReleaseHandler_def reply_ok_def
        ReleaseRouteTables_def owning_state_def Let_def agent_b_def releaseRouteTable_def sim_ec2_def
        sim_start_def isEC2ErrorCode_def wrap_err_def)
  have wf: "kstore_wf (sim_store (outside w1))" by (simp add: sim_store_def mem mem_a_wf)
  have "\<exists>e2. run (Renew sim_leases (mgr_in ''az2'') ''az2'' ''pod-b'') (outside w1) = ((True, None), e2) \<and>
      leaves (mgr_in ''az2'') ''pod-b'' ''az2'' (sim_store (outside w1)) (sim_store e2)"
    by (rule Renew_grants [OF sim_leases_up wf]) (simp add: sim_store_def mem mem_a_objs leaseName_def)
  then obtain e2 where ren: "run (Renew (leases agent_b) (leaseMgr agent_b) (az_of agent_b) (podName agent_b)) (outside w1) = ((True, None), e2)"
    by (auto simp: agent_b_def)
  have "sim_routes e2 = sim_routes (outside w1)"
    by (rule lease_run_routes [OF Renew_keeps_routes ren]) (simp add: agent_b_def sim_leases_keep)
  with out have r2: "sim_routes e2 ''rtb-2'' = Some (ToNatGateway ''nat-2'')" by simp
  obtain err w2 where lt: "run (renewOwnLease agent_b) w1 = (err, w2)" by fastforce
  have cl: "EC2Client (rcfg agent_b) = realEC2Client (sim_ec2 two_tables) sim_settings"
    and i: "cfg_InstanceID (rcfg agent_b) \<noteq> ''''" and m: "cfg_Mode (rcfg agent_b) \<noteq> ''manual''"
    by (simp_all add: agent_b_def)
  have d: "run (discoverRouteTables (sim_ec2 two_tables) sim_settings (az_of agent_b)) e2 =
      (Inr [\<lparr>ID = ''rtb-2'', rt_AZ = ''az2'', VpcID = ''vpc-1'', NatGatewayID = ''nat-2'', InstanceID = ''''\<rparr>], e2)"
    using sim_discover_az2 [OF r2] by (simp add: agent_b_def)
  note undone = release_is_undone [OF sim_two_ok cl i m run ok ren d _ lt]
  then have "ownedTables (rec_st w1) = []" by simp
  then have "err = None"
    using lt ren agent_b_claims_own [of "w1\<lparr>outside := e2\<rparr>"] r2 m
    by (auto simp: renewOwnLease_def ensureOwnLease_def OwnClaimPending_def own_claim_pending_def split: prod.splits)
  with undone have "sim_routes (outside w2) ''rtb-2'' = Some (ToInstance ''i-b'')"
    by (simp add: agent_b_def)
  with run ok out lt \<open>err = None\<close> show ?thesis by blast
qed

end
