(* ===== verification/Metrics_Registry.thy ===== *)
theory Metrics_Registry
  imports Agent
begin

text \<open>
  \<open>internal/metrics/metrics.go\<close>: the collectors of the agent's registry, with their names and
  labels as \<open>NewRegistry\<close> declares them (the help texts are left out), and the series that the
  agent's metric values form in each of them.
\<close>

datatype registry_field =
  m_BytesTX
  | m_BytesRX
  | m_PacketsTX
  | m_PacketsRX
  | m_ConntrackEntries
  | m_ConntrackMax
  | m_ConntrackUsageRatio
  | m_RulePresent
  | m_SrcDstCheckDisabled
  | m_RouteTableOwned
  | m_FallbackAvailable
  | m_Standby
  | m_PeerStatus
  | m_FailoverTotal
  | m_LastFailover
  | m_SpotInterruptionPending
  | m_MaxBandwidthBps
  | m_TxBytesPerSec
  | m_RxBytesPerSec
  | m_InstanceInfo
  | m_CPUUsageRatio
  | m_MemUsedBytes
  | m_MemTotalBytes

datatype collector_opts =
    NewCounterVec string "string list"
  | NewGaugeVec string "string list"
  | NewGauge string

definition ifaceLabels :: "string list" where
  "ifaceLabels = [''az'', ''instance_id'', ''iface'']"

fun NewRegistry :: "registry_field \<Rightarrow> collector_opts" where
  "NewRegistry m_BytesTX = NewCounterVec ''kube_nat_bytes_tx_total'' ifaceLabels"
| "NewRegistry m_BytesRX = NewCounterVec ''kube_nat_bytes_rx_total'' ifaceLabels"
| "NewRegistry m_PacketsTX = NewCounterVec ''kube_nat_packets_tx_total'' ifaceLabels"
| "NewRegistry m_PacketsRX = NewCounterVec ''kube_nat_packets_rx_total'' ifaceLabels"
| "NewRegistry m_ConntrackEntries = NewGauge ''kube_nat_conntrack_entries''"
| "NewRegistry m_ConntrackMax = NewGauge ''kube_nat_conntrack_max''"
| "NewRegistry m_ConntrackUsageRatio = NewGauge ''kube_nat_conntrack_usage_ratio''"
| "NewRegistry m_RulePresent = NewGaugeVec ''kube_nat_rule_present'' [''rule'']"
| "NewRegistry m_SrcDstCheckDisabled = NewGauge ''kube_nat_src_dst_check_disabled''"
| "NewRegistry m_RouteTableOwned = NewGaugeVec ''kube_nat_route_table_owned'' [''rtb_id'']"
| "NewRegistry m_FallbackAvailable = NewGauge ''kube_nat_fallback_available''"
| "NewRegistry m_Standby = NewGauge ''kube_nat_standby''"
| "NewRegistry m_PeerStatus = NewGaugeVec ''kube_nat_peer_status'' [''az'', ''instance_id'']"
| "NewRegistry m_FailoverTotal = NewCounterVec ''kube_nat_failover_total'' [''from_az'', ''to_az'']"
| "NewRegistry m_LastFailover = NewGaugeVec ''kube_nat_last_failover_seconds'' [''az'']"
| "NewRegistry m_SpotInterruptionPending = NewGauge ''kube_nat_spot_interruption_pending''"
| "NewRegistry m_MaxBandwidthBps = NewGauge ''kube_nat_max_bandwidth_bps''"
| "NewRegistry m_TxBytesPerSec = NewGaugeVec ''kube_nat_tx_bps'' [''az'', ''instance_id'']"
| "NewRegistry m_RxBytesPerSec = NewGaugeVec ''kube_nat_rx_bps'' [''az'', ''instance_id'']"
| "NewRegistry m_InstanceInfo = NewGaugeVec ''kube_nat_instance_info'' [''instance_type'', ''version'']"
| "NewRegistry m_CPUUsageRatio = NewGauge ''kube_nat_cpu_usage_ratio''"
| "NewRegistry m_MemUsedBytes = NewGauge ''kube_nat_memory_used_bytes''"
| "NewRegistry m_MemTotalBytes = NewGauge ''kube_nat_memory_total_bytes''"

text \<open>The arguments of \<open>MustRegister\<close>.\<close>

definition registered :: "registry_field list" where
  "registered =
     [m_BytesTX, m_BytesRX, m_PacketsTX, m_PacketsRX,
      m_ConntrackEntries, m_ConntrackMax, m_ConntrackUsageRatio, m_RulePresent,
      m_SrcDstCheckDisabled, m_RouteTableOwned, m_FallbackAvailable, m_Standby,
      m_PeerStatus, m_FailoverTotal, m_LastFailover, m_SpotInterruptionPending,
      m_MaxBandwidthBps, m_TxBytesPerSec, m_RxBytesPerSec, m_InstanceInfo,
      m_CPUUsageRatio, m_MemUsedBytes, m_MemTotalBytes]"

primrec opts_name :: "collector_opts \<Rightarrow> string" where
  "opts_name (NewCounterVec n ls) = n"
| "opts_name (NewGaugeVec n ls) = n"
| "opts_name (NewGauge n) = n"

primrec opts_labels :: "collector_opts \<Rightarrow> string list" where
  "opts_labels (NewCounterVec n ls) = ls"
| "opts_labels (NewGaugeVec n ls) = ls"
| "opts_labels (NewGauge n) = []"

primrec is_counter :: "collector_opts \<Rightarrow> bool" where
  "is_counter (NewCounterVec n ls) = True"
| "is_counter (NewGaugeVec n ls) = False"
| "is_counter (NewGauge n) = False"

section \<open>What \<open>MustRegister\<close> asks of its arguments\<close>

text \<open>
  The client library documents that \<open>MustRegister\<close> panics on a name or label outside its
  alphabet, on a label twice in one collector and on two collectors of one name;
  \<open>registrable\<close> is the condition under which it does not.
\<close>

definition name_start :: string where
  "name_start = ''abcdefghijklmnopqrstuvwxyzABCDEFGHIJKLMNOPQRSTUVWXYZ_''"

definition valid_label :: "string \<Rightarrow> bool" where
  "valid_label s \<longleftrightarrow> s \<noteq> '''' \<and> hd s \<in> set name_start \<and> set s \<subseteq> set (name_start @ ''0123456789'') \<and>
     take 2 s \<noteq> ''__''"

definition valid_name :: "string \<Rightarrow> bool" where
  "valid_name s \<longleftrightarrow> s \<noteq> '''' \<and> hd s \<in> set (CHR '':'' # name_start) \<and>
     set s \<subseteq> set (CHR '':'' # name_start @ ''0123456789'')"

definition valid_opts :: "collector_opts \<Rightarrow> bool" where
  "valid_opts d \<longleftrightarrow> valid_name (opts_name d) \<and> list_all valid_label (opts_labels d) \<and> distinct (opts_labels d)"

definition registrable :: "collector_opts list \<Rightarrow> bool" where
  "registrable ds \<longleftrightarrow> list_all valid_opts ds \<and> distinct (map opts_name ds)"

section \<open>The series of the agent's metrics\<close>

text \<open>A series per tuple of label values; \<open>WithLabelValues\<close> panics on the wrong number of them.\<close>

definition plain :: "real \<Rightarrow> string list \<rightharpoonup> real" where
  "plain x = [[] \<mapsto> x]"

definition labelled1 :: "(string \<rightharpoonup> real) \<Rightarrow> string list \<rightharpoonup> real" where
  "labelled1 g = (\<lambda>v. case v of [a] \<Rightarrow> g a | _ \<Rightarrow> None)"

definition labelled2 :: "(string \<times> string \<rightharpoonup> real) \<Rightarrow> string list \<rightharpoonup> real" where
  "labelled2 g = (\<lambda>v. case v of [a, b] \<Rightarrow> g (a, b) | _ \<Rightarrow> None)"

definition labelled3 :: "(string \<times> string \<times> string \<rightharpoonup> real) \<Rightarrow> string list \<rightharpoonup> real" where
  "labelled3 g = (\<lambda>v. case v of [a, b, c] \<Rightarrow> g (a, b, c) | _ \<Rightarrow> None)"

fun series :: "metrics \<Rightarrow> registry_field \<Rightarrow> string list \<rightharpoonup> real" where
  "series m m_BytesTX = labelled3 (TrafficSeries m TrafficBytesTX)"
| "series m m_BytesRX = labelled3 (TrafficSeries m TrafficBytesRX)"
| "series m m_PacketsTX = labelled3 (TrafficSeries m TrafficPacketsTX)"
| "series m m_PacketsRX = labelled3 (TrafficSeries m TrafficPacketsRX)"
| "series m m_ConntrackEntries = plain (ConntrackEntries m)"
| "series m m_ConntrackMax = plain (ConntrackLimit m)"
| "series m m_ConntrackUsageRatio = plain (ConntrackUsageRatio m)"
| "series m m_RulePresent = labelled1 (RulePresent m)"
| "series m m_SrcDstCheckDisabled = plain (SrcDstCheckDisabled m)"
| "series m m_RouteTableOwned = labelled1 (RouteTableOwned m)"
| "series m m_FallbackAvailable = plain (FallbackAvailable m)"
| "series m m_Standby = plain (Standby m)"
| "series m m_PeerStatus = labelled2 (PeerStatus m)"
| "series m m_FailoverTotal = labelled2 (FailoverTotal m)"
| "series m m_LastFailover = labelled1 (LastFailover m)"
| "series m m_SpotInterruptionPending = plain (SpotInterruptionPending m)"
| "series m m_MaxBandwidthBps = plain (MaxBandwidthGauge m)"
| "series m m_TxBytesPerSec = labelled2 (TxBytesPerSec m)"
| "series m m_RxBytesPerSec = labelled2 (RxBytesPerSec m)"
| "series m m_InstanceInfo = labelled2 (InstanceInfo m)"
| "series m m_CPUUsageRatio = plain (CPUUsageRatio m)"
| "series m m_MemUsedBytes = plain (MemUsedBytes m)"
| "series m m_MemTotalBytes = plain (MemTotalBytes m)"

lemma registered_names: "distinct (map (\<lambda>f. opts_name (NewRegistry f)) registered)"
  by (simp add: registered_def)

lemma registered_all: "f \<in> set registered"
  by (cases f) (simp_all add: registered_def)

text \<open>The registration enumerates the fields.\<close>

instantiation registry_field :: enum
begin

definition enum_registry_field :: "registry_field list" where
  "enum_registry_field = registered"

definition enum_all_registry_field :: "(registry_field \<Rightarrow> bool) \<Rightarrow> bool" where
  "enum_all_registry_field P = list_all P registered"

definition enum_ex_registry_field :: "(registry_field \<Rightarrow> bool) \<Rightarrow> bool" where
  "enum_ex_registry_field P = list_ex P registered"

instance
  by standard (use registered_names in \<open>auto simp: enum_registry_field_def enum_all_registry_field_def
      enum_ex_registry_field_def list_all_iff list_ex_iff registered_all distinct_map\<close>)

end

lemma name_inj: "opts_name (NewRegistry f) = opts_name (NewRegistry g) \<longleftrightarrow> f = g"
  using registered_names registered_all [of f] registered_all [of g] by (auto simp: distinct_map dest: inj_onD)

lemma registry_valid: "valid_opts (NewRegistry f)"
  by (cases f) (simp_all add: valid_opts_def valid_name_def valid_label_def name_start_def ifaceLabels_def)

lemma series_arity: "series m f v = Some x \<Longrightarrow> length v = length (opts_labels (NewRegistry f))"
  by (cases f) (auto simp: plain_def labelled1_def labelled2_def labelled3_def ifaceLabels_def
      split: list.splits if_splits)

text \<open>\<open>strings.HasSuffix\<close>.\<close>

definition HasSuffix :: "string \<Rightarrow> string \<Rightarrow> bool" where
  "HasSuffix s p \<longleftrightarrow> drop (length s - length p) s = p"

section \<open>Property\<close>


end
