(* ===== verification/Metrics_Scrape.thy ===== *)
theory Metrics_Scrape
  imports Metrics_Registry Collector
begin

text \<open>
  From the agent's metrics to the dashboard's snapshot. Gathering the registry, writing it as
  text and parsing that text belong to the Prometheus libraries; what they do together is the
  relation \<open>exposes\<close>.
\<close>

section \<open>The exposition\<close>

definition sample_shows :: "collector_opts \<Rightarrow> (string list \<rightharpoonup> real) \<Rightarrow> string list \<Rightarrow> metric_value \<Rightarrow> bool" where
  "sample_shows d s v mv \<longleftrightarrow> set (Label mv) = set (zip (opts_labels d) v) \<and>
     Gauge mv = (if is_counter d then None else s v) \<and> Counter mv = (if is_counter d then s v else None)"

text \<open>One sample per series, in any order, with its labels in any order.\<close>

definition family_shows :: "collector_opts \<Rightarrow> (string list \<rightharpoonup> real) \<Rightarrow> metric_value list \<Rightarrow> bool" where
  "family_shows d s ms \<longleftrightarrow> (\<exists>vs. distinct vs \<and> set vs = dom s \<and> list_all2 (sample_shows d s) vs ms)"

definition exposes :: "metrics \<Rightarrow> families \<Rightarrow> bool" where
  "exposes m F \<longleftrightarrow> (\<forall>f. family_shows (NewRegistry f) (series m f) (metrics_of F (opts_name (NewRegistry f))))"

lemma exposesD: "exposes m F \<Longrightarrow> family_shows (NewRegistry f) (series m f) (metrics_of F (opts_name (NewRegistry f)))"
  by (simp add: exposes_def)

text \<open>Such an exposition exists whenever the agent has finitely many series.\<close>

definition sample_of :: "collector_opts \<Rightarrow> (string list \<rightharpoonup> real) \<Rightarrow> string list \<Rightarrow> metric_value" where
  "sample_of d s v = \<lparr>Label = zip (opts_labels d) v, Gauge = (if is_counter d then None else s v),
     Counter = (if is_counter d then s v else None)\<rparr>"

lemma exposition_exists:
  assumes "\<And>f. finite (dom (series m f))"
  shows "\<exists>F. exposes m F"
proof -
  obtain vs where vs: "\<And>f. set (vs f) = dom (series m f) \<and> distinct (vs f)"
    using finite_distinct_list [OF assms] by metis
  define F where "F = map_of (map (\<lambda>f. (opts_name (NewRegistry f), map (sample_of (NewRegistry f) (series m f)) (vs f))) registered)"
  have "F (opts_name (NewRegistry f)) = Some (map (sample_of (NewRegistry f) (series m f)) (vs f))" for f
    unfolding F_def
    by (rule map_of_is_SomeI) (use registered_names registered_all [of f]
      in \<open>auto simp: comp_def\<close>)
  moreover have "family_shows (NewRegistry f) (series m f) (map (sample_of (NewRegistry f) (series m f)) (vs f))" for f
    unfolding family_shows_def
    using vs [of f] by (intro exI [of _ "vs f"]) (simp add: list_all2_conv_all_nth sample_shows_def sample_of_def)
  ultimately show ?thesis unfolding exposes_def metrics_of_def by (intro exI [of _ F]) simp
qed

section \<open>Reading one family\<close>

lemma family_member:
  assumes "family_shows d s ms"
  shows "mv \<in> set ms \<Longrightarrow> \<exists>v. v \<in> dom s \<and> sample_shows d s v mv"
    and "v \<in> dom s \<Longrightarrow> \<exists>mv \<in> set ms. sample_shows d s v mv"
proof -
  obtain vs where vs: "set vs = dom s" "length vs = length ms" "\<And>i. i < length ms \<Longrightarrow> sample_shows d s (vs ! i) (ms ! i)"
    using assms by (auto simp: family_shows_def list_all2_conv_all_nth)
  show "\<exists>v. v \<in> dom s \<and> sample_shows d s v mv" if "mv \<in> set ms"
  proof -
    from that obtain i where "i < length ms" "mv = ms ! i" by (auto simp: in_set_conv_nth)
    with vs nth_mem [of i vs] show ?thesis by auto
  qed
  show "\<exists>mv \<in> set ms. sample_shows d s v mv" if "v \<in> dom s"
  proof -
    from that vs(1) obtain i where "i < length vs" "v = vs ! i" by (metis in_set_conv_nth)
    with vs have "sample_shows d s v (ms ! i)" "ms ! i \<in> set ms" by auto
    then show ?thesis by blast
  qed
qed

lemma family_single:
  assumes "family_shows d s ms" and "dom s = {v}"
  obtains mv where "ms = [mv]" and "sample_shows d s v mv"
proof -
  from assms obtain vs where "distinct vs" "set vs = {v}" "list_all2 (sample_shows d s) vs ms"
    by (auto simp: family_shows_def)
  moreover from this have "vs = [v]"
    by (cases vs) (auto simp: subset_singleton_iff)
  ultimately show ?thesis using that by (auto simp: list_all2_Cons1)
qed

lemma family_empty: "family_shows d s ms \<Longrightarrow> s = Map.empty \<Longrightarrow> ms = []"
  by (auto simp: family_shows_def)

lemma gaugeVal_metrics_of: "gaugeVal F n = (case metrics_of F n of mv # _ \<Rightarrow> (case Gauge mv of Some x \<Rightarrow> x | None \<Rightarrow> 0) | [] \<Rightarrow> 0)"
  by (simp add: gaugeVal_def metrics_of_def split: option.split list.split)

lemma first_labels_metrics_of: "first_labels F n = (case metrics_of F n of mv # _ \<Rightarrow> Label mv | [] \<Rightarrow> [])"
  by (simp add: first_labels_def metrics_of_def split: option.split list.split)

text \<open>The first sample of a gauge with at most one series is its value.\<close>

lemma gaugeVal_single:
  assumes "exposes m F" and "\<not> is_counter (NewRegistry f)" and "dom (series m f) \<subseteq> {v}"
  shows "gaugeVal F (opts_name (NewRegistry f)) = (case series m f v of Some x \<Rightarrow> x | None \<Rightarrow> 0)"
proof (cases "series m f v")
  case None
  with assms(3) have "series m f = Map.empty" by (auto simp: subset_singleton_iff)
  from family_empty [OF exposesD [OF assms(1)] this] None show ?thesis by (simp add: gaugeVal_metrics_of)
next
  case (Some x)
  with assms(3) have "dom (series m f) = {v}" by auto
  from family_single [OF exposesD [OF assms(1)] this] obtain mv
    where "metrics_of F (opts_name (NewRegistry f)) = [mv]" "sample_shows (NewRegistry f) (series m f) v mv" .
  with assms(2) Some show ?thesis by (simp add: gaugeVal_metrics_of sample_shows_def)
qed

lemma last_label_unique:
  assumes "(n, v) \<in> set ls \<or> acc = v" and "\<And>x. (n, x) \<in> set ls \<Longrightarrow> x = v"
  shows "last_label n acc ls = v"
  using assms
proof (induction ls arbitrary: acc)
  case (Cons p ls)
  then show ?case by (cases p) auto
qed simp

section \<open>The families the collector reads label by label\<close>

lemma labelled_simps [simp]: "labelled1 g [a] = g a" "labelled2 h [a, b] = h (a, b)"
  by (simp_all add: labelled1_def labelled2_def)

lemma labelled1_dom: "v \<in> dom (labelled1 g) \<Longrightarrow> \<exists>a x. v = [a] \<and> g a = Some x"
  by (auto simp: labelled1_def split: list.splits)

lemma labelled2_dom: "v \<in> dom (labelled2 g) \<Longrightarrow> \<exists>a b x. v = [a, b] \<and> g (a, b) = Some x"
  by (cases v; cases "tl v"; cases "tl (tl v)"; cases "tl (tl (tl v))") (auto simp: labelled2_def)

lemma labelled3_dom: "v \<in> dom (labelled3 g) \<Longrightarrow> \<exists>a b c x. v = [a, b, c] \<and> g (a, b, c) = Some x"
  by (cases v; cases "tl v"; cases "tl (tl v)"; cases "tl (tl (tl v))") (auto simp: labelled3_def)

lemma labelled_single:
  "dom g \<subseteq> {a} \<Longrightarrow> dom (labelled1 g) \<subseteq> {[a]}"
  "dom h \<subseteq> {(a, b)} \<Longrightarrow> dom (labelled2 h) \<subseteq> {[a, b]}"
  "dom k = {(a, b, c)} \<Longrightarrow> dom (labelled3 k) = {[a, b, c]}"
proof -
  show "dom (labelled1 g) \<subseteq> {[a]}" if "dom g \<subseteq> {a}" using that by (auto dest!: labelled1_dom)
  show "dom (labelled2 h) \<subseteq> {[a, b]}" if "dom h \<subseteq> {(a, b)}" using that by (auto dest!: labelled2_dom)
  show "dom (labelled3 k) = {[a, b, c]}" if "dom k = {(a, b, c)}"
  proof
    have "p = (a, b, c)" if "k p = Some x" for p x using \<open>dom k = {(a, b, c)}\<close> that by blast
    then show "dom (labelled3 k) \<subseteq> {[a, b, c]}" by (fastforce dest!: labelled3_dom)
    have "k (a, b, c) \<noteq> None" using that by blast
    then show "{[a, b, c]} \<subseteq> dom (labelled3 k)" by (auto simp: labelled3_def)
  qed
qed

lemma gauge_on_shows: "sample_shows (NewGaugeVec n ls) s v mv \<Longrightarrow> gauge_on mv \<longleftrightarrow> (\<exists>x \<ge> 1. s v = Some x)"
  by (auto simp: sample_shows_def gauge_on_def split: option.split)

lemma rtb_label:
  "sample_shows (NewGaugeVec n [''rtb_id'']) s [k] mv \<Longrightarrow>
   x \<in> snd ` {lp \<in> set (Label mv). fst lp = ''rtb_id''} \<longleftrightarrow> x = k"
proof -
  assume "sample_shows (NewGaugeVec n [''rtb_id'']) s [k] mv"
  then have "set (Label mv) = {(''rtb_id'', k)}" by (simp add: sample_shows_def)
  then have "{lp \<in> set (Label mv). fst lp = ''rtb_id''} = {(''rtb_id'', k)}" by auto
  then show ?thesis by simp
qed

lemma owned_tables_iff:
  "x \<in> set (owned_tables ms) \<longleftrightarrow>
   (\<exists>mv \<in> set ms. gauge_on mv \<and> x \<in> snd ` {lp \<in> set (Label mv). fst lp = ''rtb_id''})"
  by (auto simp: owned_tables_def)

lemma owned_tables_shows:
  assumes "family_shows (NewGaugeVec n [''rtb_id'']) (labelled1 g) ms"
  shows "k \<in> set (owned_tables ms) \<longleftrightarrow> (\<exists>x \<ge> 1. g k = Some x)"
proof
  assume "k \<in> set (owned_tables ms)"
  then obtain mv where mv: "mv \<in> set ms" "gauge_on mv" and k: "k \<in> snd ` {lp \<in> set (Label mv). fst lp = ''rtb_id''}"
    unfolding owned_tables_iff by blast
  from family_member(1) [OF assms mv(1)] labelled1_dom obtain a
    where sh: "sample_shows (NewGaugeVec n [''rtb_id'']) (labelled1 g) [a] mv" by blast
  with mv k rtb_label gauge_on_shows [OF sh] show "\<exists>x \<ge> 1. g k = Some x" by auto
next
  assume on: "\<exists>x \<ge> 1. g k = Some x"
  then have "[k] \<in> dom (labelled1 g)" by auto
  from family_member(2) [OF assms this] obtain mv where mv: "mv \<in> set ms"
    and sh: "sample_shows (NewGaugeVec n [''rtb_id'']) (labelled1 g) [k] mv" by blast
  with gauge_on_shows [OF sh] rtb_label [OF sh, of k] on show "k \<in> set (owned_tables ms)"
    unfolding owned_tables_iff by auto
qed

lemma any_peer_up_iff: "any_peer_up ms \<longleftrightarrow> (\<exists>mv \<in> set ms. gauge_on mv)"
  by (induction ms) auto

lemma peer_up_shows:
  assumes "family_shows (NewGaugeVec n ls) (labelled2 g) ms"
  shows "any_peer_up ms \<longleftrightarrow> (\<exists>k. \<exists>x \<ge> 1. g k = Some x)"
proof
  assume "any_peer_up ms"
  then obtain mv where mv: "mv \<in> set ms" "gauge_on mv" by (auto simp: any_peer_up_iff)
  from family_member(1) [OF assms mv(1)] obtain v
    where "v \<in> dom (labelled2 g)" and sh: "sample_shows (NewGaugeVec n ls) (labelled2 g) v mv" by blast
  with labelled2_dom obtain a b where "v = [a, b]" by blast
  with gauge_on_shows [OF sh] mv(2) show "\<exists>k. \<exists>x \<ge> 1. g k = Some x" by auto
next
  assume "\<exists>k. \<exists>x \<ge> 1. g k = Some x"
  then obtain a b x where on: "x \<ge> 1" "g (a, b) = Some x" by auto
  then have "[a, b] \<in> dom (labelled2 g)" by auto
  from family_member(2) [OF assms this] obtain mv where "mv \<in> set ms"
    and sh: "sample_shows (NewGaugeVec n ls) (labelled2 g) [a, b] mv" by blast
  with gauge_on_shows [OF sh] on show "any_peer_up ms" by (auto simp: any_peer_up_iff)
qed

lemma last_failover_none:
  assumes "\<And>mv. mv \<in> set ms \<Longrightarrow> (''az'', az) \<notin> set (Label mv)"
  shows "last_failover az acc ms = acc"
  using assms by (induction ms arbitrary: acc) (auto split: option.split)

lemma last_failover_shows:
  assumes "family_shows (NewGaugeVec n [''az'']) (labelled1 g) ms" and "g az = None"
  shows "last_failover az acc ms = acc"
proof (rule last_failover_none)
  fix mv assume "mv \<in> set ms"
  from family_member(1) [OF assms(1) this] labelled1_dom obtain a x
    where "g a = Some x" "sample_shows (NewGaugeVec n [''az'']) (labelled1 g) [a] mv" by blast
  with assms(2) show "(''az'', az) \<notin> set (Label mv)" by (auto simp: sample_shows_def)
qed

end
