(* ===== verification/Metrics_Properties.thy ===== *)
theory Metrics_Properties
  imports Metrics_Scrape Agent_Form
begin

text \<open>
  What a scrape shows of an agent, at any moment of any interleaving of the cluster's
  goroutines and requests.
\<close>

section \<open>The form of an agent's series\<close>

definition series_step :: "'e agent_env \<Rightarrow> 'e agentw \<Rightarrow> 'e agentw \<Rightarrow> bool" where
  "series_step E w w' \<longleftrightarrow> (own_series E (reg w) \<longrightarrow> own_series E (reg w'))"

interpretation series: agent_laws E "\<lambda>_ _. True" "series_step E"
  for E :: "'e agent_env"
  by unfold_locales (simp_all add: series_step_def anyhow_any)

lemma cluster_keeps_series:
  assumes "\<And>i t. goroutine (E i) (P (i, t)) \<or> http_thread (E i) (P (i, t))"
    and "par_reach (agent_threads E P, c0) s" and "own_series (E i) (reg (fst c0 i))"
  shows "own_series (E i) (reg (fst (snd s) i))"
  by (rule cluster_keeps_form [where ok = "\<lambda>i w. own_series (E i) (reg w)", OF _ _ assms(2,3)])
    (use series.form_thread [OF assms(1)] in \<open>simp_all add: series_step_def [abs_def]\<close>)

text \<open>The start of an agent gives its series their form.\<close>

lemma boot_metrics_series:
  assumes "run (boot_metrics c meta ec2) w = (r, w')"
    and "TrafficSeries (reg w) = (\<lambda>_. Map.empty)" and "RulePresent (reg w) = Map.empty"
    and "TxBytesPerSec (reg w) = Map.empty" and "RxBytesPerSec (reg w) = Map.empty" and "LastFailover (reg w) = Map.empty"
  shows "own_series (agent_env_of P c meta ec2 natMgr) (reg w')"
  using assms
  by (auto simp: boot_metrics_def metric_def own_series_def agent_env_of_def az_of_def split: prod.splits sum.splits if_splits)

section \<open>The snapshot\<close>

lemma gaugeVal_plain:
  assumes "exposes m F" and "\<not> is_counter (NewRegistry f)" and "series m f = plain x"
  shows "gaugeVal F (opts_name (NewRegistry f)) = x"
  using gaugeVal_single [OF assms(1,2), of "[]"] assms(3) by (simp add: plain_def)

lemma gauges_show:
  assumes "exposes m F"
  shows "gaugeVal F ''kube_nat_conntrack_entries'' = ConntrackEntries m"
    and "gaugeVal F ''kube_nat_conntrack_max'' = ConntrackLimit m"
    and "gaugeVal F ''kube_nat_conntrack_usage_ratio'' = ConntrackUsageRatio m"
    and "gaugeVal F ''kube_nat_src_dst_check_disabled'' = SrcDstCheckDisabled m"
    and "gaugeVal F ''kube_nat_fallback_available'' = FallbackAvailable m"
    and "gaugeVal F ''kube_nat_spot_interruption_pending'' = SpotInterruptionPending m"
    and "gaugeVal F ''kube_nat_max_bandwidth_bps'' = MaxBandwidthGauge m"
    and "gaugeVal F ''kube_nat_cpu_usage_ratio'' = CPUUsageRatio m"
    and "gaugeVal F ''kube_nat_memory_used_bytes'' = MemUsedBytes m"
    and "gaugeVal F ''kube_nat_memory_total_bytes'' = MemTotalBytes m"
  using gaugeVal_plain [OF assms, of m_ConntrackEntries] gaugeVal_plain [OF assms, of m_ConntrackMax]
    gaugeVal_plain [OF assms, of m_ConntrackUsageRatio] gaugeVal_plain [OF assms, of m_SrcDstCheckDisabled]
    gaugeVal_plain [OF assms, of m_FallbackAvailable] gaugeVal_plain [OF assms, of m_SpotInterruptionPending]
    gaugeVal_plain [OF assms, of m_MaxBandwidthBps] gaugeVal_plain [OF assms, of m_CPUUsageRatio]
    gaugeVal_plain [OF assms, of m_MemUsedBytes] gaugeVal_plain [OF assms, of m_MemTotalBytes]
  by simp_all

definition or_zero :: "real option \<Rightarrow> real" where
  "or_zero v = (case v of Some x \<Rightarrow> x | None \<Rightarrow> 0)"

lemma series_show:
  assumes "exposes m F" and "own_series E m"
  shows "gaugeVal F ''kube_nat_rule_present'' = or_zero (RulePresent m ''MASQUERADE'')"
    and "gaugeVal F ''kube_nat_tx_bps'' = or_zero (TxBytesPerSec m (az_of E, cfg_InstanceID (rcfg E)))"
    and "gaugeVal F ''kube_nat_rx_bps'' = or_zero (RxBytesPerSec m (az_of E, cfg_InstanceID (rcfg E)))"
proof -
  have o: "dom (RulePresent m) \<subseteq> {''MASQUERADE''}"
    "dom (TxBytesPerSec m) \<subseteq> {(az_of E, cfg_InstanceID (rcfg E))}"
    "dom (RxBytesPerSec m) \<subseteq> {(az_of E, cfg_InstanceID (rcfg E))}"
    using assms(2) by (simp_all add: own_series_def)
  show "gaugeVal F ''kube_nat_rule_present'' = or_zero (RulePresent m ''MASQUERADE'')"
    using gaugeVal_single [OF assms(1), of m_RulePresent] labelled_single(1) [OF o(1)] by (simp add: or_zero_def)
  show "gaugeVal F ''kube_nat_tx_bps'' = or_zero (TxBytesPerSec m (az_of E, cfg_InstanceID (rcfg E)))"
    using gaugeVal_single [OF assms(1), of m_TxBytesPerSec] labelled_single(2) [OF o(2)] by (simp add: or_zero_def)
  show "gaugeVal F ''kube_nat_rx_bps'' = or_zero (RxBytesPerSec m (az_of E, cfg_InstanceID (rcfg E)))"
    using gaugeVal_single [OF assms(1), of m_RxBytesPerSec] labelled_single(2) [OF o(3)] by (simp add: or_zero_def)
qed

lemma identity_shows:
  assumes "exposes m F" and "own_series E m"
  shows "last_label ''az'' '''' (first_labels F ''kube_nat_bytes_tx_total'') = az_of E"
    and "last_label ''instance_id'' '''' (first_labels F ''kube_nat_bytes_tx_total'') = cfg_InstanceID (rcfg E)"
proof -
  have "dom (series m m_BytesTX) = {[az_of E, cfg_InstanceID (rcfg E), cfg_Iface (rcfg E)]}"
    using assms(2) by (simp add: own_series_def labelled_single(3))
  from family_single [OF exposesD [OF assms(1)] this] obtain mv
    where "metrics_of F (opts_name (NewRegistry m_BytesTX)) = [mv]"
      and "sample_shows (NewRegistry m_BytesTX) (series m m_BytesTX) [az_of E, cfg_InstanceID (rcfg E), cfg_Iface (rcfg E)] mv" .
  then have f: "first_labels F ''kube_nat_bytes_tx_total'' = Label mv"
    and l: "set (Label mv) = {(''az'', az_of E), (''instance_id'', cfg_InstanceID (rcfg E)), (''iface'', cfg_Iface (rcfg E))}"
    by (simp_all add: first_labels_metrics_of sample_shows_def ifaceLabels_def)
  show "last_label ''az'' '''' (first_labels F ''kube_nat_bytes_tx_total'') = az_of E"
    unfolding f by (rule last_label_unique) (simp_all add: l)
  show "last_label ''instance_id'' '''' (first_labels F ''kube_nat_bytes_tx_total'') = cfg_InstanceID (rcfg E)"
    unfolding f by (rule last_label_unique) (simp_all add: l)
qed

text \<open>
  C6: At any moment of any interleaving of the cluster's goroutines and HTTP requests,
  what a scrape of an agent's metrics gives the dashboard is the agent's state as its registry holds it: its AZ and
  instance, exactly the tables its gauges mark as owned, whether a peer is up, and the value of
  each plain gauge. The time of the last failover is always zero, because the collector reads
  the series of the agent's own AZ while the agent records the AZ it took over; the byte and
  packet counters stay at zero, because no goroutine adds to them.
\<close>

theorem scrape_shows_agent:
  assumes "\<And>i t. goroutine (E i) (P (i, t)) \<or> http_thread (E i) (P (i, t))" and "own_series (E i) (reg (fst c0 i))"
    and "par_reach (agent_threads E P, c0) s" and "az_of (E i) \<noteq> ''''"
    and "m = reg (fst (snd s) i)" and "exposes m F"
  shows "\<exists>sn. buildSnap F = Some sn \<and> sn_AZ sn = az_of (E i) \<and> sn_InstanceID sn = cfg_InstanceID (rcfg (E i)) \<and>
    set (RouteTablesOwned sn) = {k. \<exists>x \<ge> 1. RouteTableOwned m k = Some x} \<and>
    PeerUp sn = (\<exists>k. \<exists>x \<ge> 1. PeerStatus m k = Some x) \<and>
    sn_RulePresent sn = (or_zero (RulePresent m ''MASQUERADE'') \<ge> 1) \<and>
    sn_FallbackAvailable sn = (FallbackAvailable m \<ge> 1) \<and> SpotPending sn = (SpotInterruptionPending m \<ge> 1) \<and>
    SrcDstDisabled sn = (SrcDstCheckDisabled m \<ge> 1) \<and>
    sn_TxBytesPerSec sn = or_zero (TxBytesPerSec m (az_of (E i), cfg_InstanceID (rcfg (E i)))) \<and>
    sn_RxBytesPerSec sn = or_zero (RxBytesPerSec m (az_of (E i), cfg_InstanceID (rcfg (E i)))) \<and>
    sn_ConntrackEntries sn = ConntrackEntries m \<and> sn_ConntrackMax sn = ConntrackLimit m \<and>
    sn_ConntrackRatio sn = ConntrackUsageRatio m \<and> sn_MaxBandwidthBps sn = MaxBandwidthGauge m \<and>
    sn_CPUUsageRatio sn = CPUUsageRatio m \<and> sn_MemUsedBytes sn = MemUsedBytes m \<and>
    sn_MemTotalBytes sn = MemTotalBytes m \<and> LastFailoverTS sn = 0 \<and>
    (\<forall>k. TrafficSeries m k = [(az_of (E i), cfg_InstanceID (rcfg (E i)), cfg_Iface (rcfg (E i))) \<mapsto> 0])"
proof -
  have own: "own_series (E i) m" using cluster_keeps_series [OF assms(1,3,2)] by (simp add: assms(5))
  then have "LastFailover m (az_of (E i)) = None"
    and zero: "\<forall>k. TrafficSeries m k = [(az_of (E i), cfg_InstanceID (rcfg (E i)), cfg_Iface (rcfg (E i))) \<mapsto> 0]"
    by (simp_all add: own_series_def)
  then have "last_failover (az_of (E i)) 0 (metrics_of F ''kube_nat_last_failover_seconds'') = 0"
    using exposesD [OF assms(6), of m_LastFailover] by (simp add: last_failover_shows)
  moreover have "set (owned_tables (metrics_of F ''kube_nat_route_table_owned'')) = {k. \<exists>x \<ge> 1. RouteTableOwned m k = Some x}"
    using owned_tables_shows exposesD [OF assms(6), of m_RouteTableOwned] by auto
  moreover have "any_peer_up (metrics_of F ''kube_nat_peer_status'') = (\<exists>k. \<exists>x \<ge> 1. PeerStatus m k = Some x)"
    using peer_up_shows exposesD [OF assms(6), of m_PeerStatus] by simp
  ultimately show ?thesis
    using assms(4) zero by (simp add: buildSnap_def Let_def identity_shows [OF assms(6) own]
        gauges_show [OF assms(6)] series_show [OF assms(6) own])
qed


section \<open>An example\<close>

text \<open>An agent whose start has set its metrics, and the notice of a spot interruption.\<close>

definition booted :: "string \<Rightarrow> string \<Rightarrow> metrics" where
  "booted az inst = no_metrics\<lparr>TrafficSeries := (\<lambda>_. [(az, inst, ''eth0'') \<mapsto> 0]), RouteTableOwned := [''rtb-1'' \<mapsto> 1]\<rparr>"

definition spot_start :: "(nat, sim) cluster" where
  "spot_start = ((\<lambda>i. (agentw_start new_rec_state False (mem_a 0))\<lparr>
     reg := booted (az_of (pair_env i)) (cfg_InstanceID (rcfg (pair_env i)))\<rparr>), sim_start\<lparr>sim_mem := mem_a 0\<rparr>)"

definition spot_threads :: "nat \<times> bool \<Rightarrow> (sim agentw, unit) prog" where
  "spot_threads = (\<lambda>_. bind onSpotNotice (\<lambda>_. Ret ()))"

lemma spot_own: "own_series (pair_env i) (reg (fst spot_start i))"
  by (simp add: spot_start_def booted_def own_series_def no_metrics_def pair_env_def agent_b_def sim_env_def az_of_def)

lemma spot_reach:
  "\<exists>s. par_reach (agent_threads pair_env spot_threads, spot_start) s \<and>
     reg (fst (snd s) 0) = (booted ''az1'' ''i-a'')\<lparr>SpotInterruptionPending := 1\<rparr>"
proof -
  have "run (agent_threads pair_env spot_threads (0, True)) (agent_put 0 (agent_view 0 spot_start) spot_start) =
      ((), agent_put 0 ((agent_view 0 spot_start)\<lparr>reg := (reg (agent_view 0 spot_start))\<lparr>SpotInterruptionPending := 1\<rparr>\<rparr>) spot_start)"
    by (simp add: agent_threads_def spot_threads_def run_on_agent onSpotNotice_def metric_def)
  from par_run [where P = "agent_threads pair_env spot_threads", OF this refl] obtain P'
    where "par_reach (agent_threads pair_env spot_threads, agent_put 0 (agent_view 0 spot_start) spot_start)
      (P', agent_put 0 ((agent_view 0 spot_start)\<lparr>reg := (reg (agent_view 0 spot_start))\<lparr>SpotInterruptionPending := 1\<rparr>\<rparr>) spot_start)"
    by blast
  moreover have "agent_put 0 (agent_view 0 spot_start) spot_start = spot_start"
    by (simp add: agent_put_def agent_view_def spot_start_def fun_eq_iff)
  ultimately show ?thesis
    by (intro exI conjI) (auto simp: agent_put_def agent_view_def spot_start_def pair_env_def sim_env_def az_of_def)
qed

lemma booted_finite: "finite (dom (series ((booted az inst)\<lparr>SpotInterruptionPending := x\<rparr>) f))"
proof -
  have t: "finite (dom (labelled3 [(az, inst, ''eth0'') \<mapsto> 0]))"
    using labelled_single(3) [of "[(az, inst, ''eth0'') \<mapsto> 0]"] by simp
  have r: "finite (dom (labelled1 [''rtb-1'' \<mapsto> 1]))"
    by (rule finite_subset [OF labelled_single(1)]) simp_all
  have e: "labelled1 Map.empty = Map.empty" "labelled2 Map.empty = Map.empty"
    by (auto simp: labelled1_def labelled2_def fun_eq_iff split: list.split)
  show ?thesis
    by (cases f) (simp_all add: booted_def no_metrics_def plain_def t r e)
qed

lemma booted_simps:
  "RouteTableOwned ((booted az inst)\<lparr>SpotInterruptionPending := x\<rparr>) = [''rtb-1'' \<mapsto> 1]"
  "SpotInterruptionPending ((booted az inst)\<lparr>SpotInterruptionPending := x\<rparr>) = x"
  by (simp_all add: booted_def no_metrics_def)

lemma single_on: "{k. \<exists>x \<ge> 1. [a \<mapsto> 1 :: real] k = Some x} = {a}"
  by auto

theorem scrape_shows_agent_witness:
  "\<exists>s F sn. par_reach (agent_threads pair_env spot_threads, spot_start) s \<and> exposes (reg (fst (snd s) 0)) F \<and>
     buildSnap F = Some sn \<and> sn_AZ sn = ''az1'' \<and> SpotPending sn \<and> set (RouteTablesOwned sn) = {''rtb-1''}"
proof -
  obtain s where s: "par_reach (agent_threads pair_env spot_threads, spot_start) s"
    and m: "reg (fst (snd s) 0) = (booted ''az1'' ''i-a'')\<lparr>SpotInterruptionPending := 1\<rparr>"
    using spot_reach by blast
  obtain F where F: "exposes (reg (fst (snd s) 0)) F"
    using exposition_exists [OF booted_finite] unfolding m by blast
  have go: "goroutine (pair_env i) (spot_threads (i, t)) \<or> http_thread (pair_env i) (spot_threads (i, t))" for i t
    unfolding spot_threads_def by (intro disjI1 goroutine.spot_notice goroutine.idle)
  have az: "az_of (pair_env 0) = ''az1''" by (simp add: pair_env_def)
  then have ne: "az_of (pair_env 0) \<noteq> ''''" by simp
  obtain sn where "buildSnap F = Some sn" "sn_AZ sn = az_of (pair_env 0)"
    "SpotPending sn = (SpotInterruptionPending (reg (fst (snd s) 0)) \<ge> 1)"
    "set (RouteTablesOwned sn) = {k. \<exists>x \<ge> 1. RouteTableOwned (reg (fst (snd s) 0)) k = Some x}"
    using scrape_shows_agent [where E = pair_env and P = spot_threads and i = 0, OF go spot_own s ne refl F]
    by (elim exE conjE) (rule that)
  moreover from this have "sn_AZ sn = ''az1''" "SpotPending sn" by (simp_all only: az m booted_simps order_refl)
  moreover have "{k. \<exists>x \<ge> 1. RouteTableOwned (reg (fst (snd s) 0)) k = Some x} = {''rtb-1''}"
    unfolding m booted_simps by (rule single_on)
  ultimately show ?thesis using s F by (intro exI conjI) simp_all
qed

end
