(* ===== verification/Command_Line.thy ===== *)
theory Command_Line
  imports Boot Dashboard
begin

text \<open>
  \<open>cmd/kube-nat/main.go\<close>: the two sub-commands, up to the calls of \<open>agent.Run\<close> and
  \<open>Server.Run\<close>, the constructor of the dashboard's server, and the tickers the loops of both
  programs start with. \<open>time.NewTicker\<close> panics on an interval that is not positive.
\<close>

section \<open>Sub-commands\<close>

definition agentCmd :: "'e platform \<Rightarrow> environ \<Rightarrow> (('e, 'x) agentw_scheme, 'e agent_env result) prog" where
  "agentCmd P env = (case Load env of Inl e \<Rightarrow> Ret (Inl e) | Inr c \<Rightarrow> boot P c)"

record dash_config =
  dc_Namespace :: string
  dc_MetricsPort :: int
  dc_ScrapeInterval :: int
  dc_ServerVersion :: string

text \<open>\<open>int(d.Seconds())\<close>: whole seconds, cut off towards zero.\<close>

definition int_Seconds :: "int \<Rightarrow> int" where
  "int_Seconds d = sgn d * (\<bar>d\<bar> div second)"

definition dashboard_config :: "config \<Rightarrow> dash_config" where
  "dashboard_config c = \<lparr>dc_Namespace = Namespace c, dc_MetricsPort = MetricsPort c,
     dc_ScrapeInterval = int_Seconds (ScrapeInterval c), dc_ServerVersion = Config.ServerVersion c\<rparr>"

text \<open>What \<open>srv.Run\<close> is called with: the server's configuration and the address.\<close>

definition dashboardCmd :: "'e platform \<Rightarrow> environ \<Rightarrow> ('e, (dash_config \<times> string) result) prog" where
  "dashboardCmd P env =
     (case Load env of
        Inl e \<Rightarrow> Ret (Inl e)
      | Inr cfg \<Rightarrow>
          bind (call (in_cluster P)) (\<lambda>err.
            case err of
              Some e \<Rightarrow> Ret (Inl (Wrap ''k8s in-cluster config'' e))
            | None \<Rightarrow>
                bind (call (new_clientset P)) (\<lambda>err.
                  case err of
                    Some e \<Rightarrow> Ret (Inl (Wrap ''k8s client'' e))
                  | None \<Rightarrow> Ret (Inr (dashboard_config cfg, '':'' @ Itoa (DashboardPort cfg))))))"

section \<open>The dashboard's server\<close>

text \<open>What the server finds around it: the pods of a namespace and the libraries.\<close>

record 'e dash_platform =
  pods_in :: "string \<Rightarrow> 'e \<Rightarrow> pod list result \<times> 'e"
  scrape_client :: "'e http_client"
  default_client :: "'e http_client"
  text_parser :: "string \<Rightarrow> families option \<times> status"
  wall_clock :: "'e \<Rightarrow> int \<times> 'e"
  az_order :: "string set \<Rightarrow> string list"
  json :: "Snapshot \<Rightarrow> string result"
  websocket_accept :: "'e \<Rightarrow> nat result \<times> 'e"
  websocket_write :: "nat \<Rightarrow> string \<Rightarrow> 'e \<Rightarrow> status \<times> 'e"
  websocket_read :: "nat \<Rightarrow> 'e \<Rightarrow> status \<times> 'e"
  websocket_close :: "nat \<Rightarrow> 'e \<Rightarrow> unit \<times> 'e"
  conn_order :: "nat set \<Rightarrow> nat list"
  error_text :: "goerr \<Rightarrow> string"

definition NewServer :: "'e dash_platform \<Rightarrow> dash_config \<Rightarrow> 'e dash_env" where
  "NewServer P c =
     \<lparr>scraper = \<lparr>agent_pods = pods_in P (dc_Namespace c), http = scrape_client P, parse_text = text_parser P,
        clock_now = wall_clock P, col_MetricsPort = dc_MetricsPort c, seen_order = az_order P\<rparr>,
      ServerVersion = dc_ServerVersion c, post_client = default_client P, Marshal = json P,
      ws_accept = websocket_accept P, ws_write = websocket_write P, ws_read = websocket_read P,
      ws_close = websocket_close P, client_order = conn_order P, err_text = error_text P\<rparr>"

definition new_dashboard :: "'e \<Rightarrow> 'e dashw" where
  "new_dashboard e = \<lparr>col = new_collector, col_env = e, clients = {}\<rparr>"

section \<open>Tickers\<close>

definition NewTicker :: "int \<Rightarrow> int go_outcome" where
  "NewTicker d = (if d \<le> 0 then Panic else Done d)"

text \<open>The collector loop of \<open>Server.Run\<close>: its ticker, then the ticks.\<close>

fun dash_ticks :: "'e dash_env \<Rightarrow> nat \<Rightarrow> (('e, 'x) dashw_scheme, unit) prog" where
  "dash_ticks D 0 = Ret ()"
| "dash_ticks D (Suc n) = bind (dash_tick D) (\<lambda>_. dash_ticks D n)"

definition collector_loop ::
  "'e dash_platform \<Rightarrow> dash_config \<Rightarrow> nat \<Rightarrow> (('e, 'x) dashw_scheme, unit go_outcome) prog" where
  "collector_loop P c n =
     (case NewTicker (scrape_interval (dc_ScrapeInterval c)) of
        Panic \<Rightarrow> Ret Panic
      | Done d \<Rightarrow> bind (dash_ticks (NewServer P c) n) (\<lambda>_. Ret (Done ())))"

text \<open>A heartbeat session from its ticker on, as the client configured from \<open>cfg\<close> runs it.\<close>

definition heartbeatSession :: "config \<Rightarrow> hb_event list \<Rightarrow> heartbeatResult option go_outcome" where
  "heartbeatSession cfg es =
     (case NewTicker (ProbeInterval cfg) of
        Panic \<Rightarrow> Panic
      | Done d \<Rightarrow> Done (runHeartbeat (ProbeFailures cfg) es))"

section \<open>Property\<close>

lemma ticker_ok: "0 < d \<Longrightarrow> NewTicker d = Done d"
  by (simp add: NewTicker_def)

lemma int_Seconds_neg: "int_Seconds d < 0 \<longleftrightarrow> d \<le> - second"
  by (auto simp: int_Seconds_def sgn_if second_def)

lemma int_Seconds_zero: "int_Seconds d = 0 \<longleftrightarrow> \<bar>d\<bar> < second"
  by (auto simp: int_Seconds_def sgn_if second_def)

lemma agent_tickers_ok:
  "valid_config c \<Longrightarrow> list_all (\<lambda>d. NewTicker d = Done d)
     [monitor_interval (DrainPollInterval c), LeaseRenewInterval c, ReconcileInterval c]"
  using LeaseRenewInterval_pos [of c] by (simp add: valid_config_def ticker_ok monitor_interval_def second_def)

lemma scrape_interval_pos: "0 < scrape_interval s \<longleftrightarrow> 0 \<le> s"
  by (auto simp: scrape_interval_def)

text \<open>
  C10: Of the intervals in a configuration that \<open>Load\<close> accepts, those of the drain monitor,
  the lease loop, the reconcile loop and the peer watcher never make \<open>NewTicker\<close> panic. The two that \<open>Load\<close> does not check can: a probe interval that
  is not positive ends the process with the first connection to a peer, a scrape interval of
  minus one second or less ends the dashboard. A scrape interval of less than a second counts
  as the default of five.
\<close>

theorem accepted_intervals:
  assumes "Load env = Inr c"
  shows "list_all (\<lambda>d. NewTicker d = Done d)
      [monitor_interval (DrainPollInterval c), LeaseRenewInterval c, ReconcileInterval c] \<and>
    (heartbeatSession c es = Panic \<longleftrightarrow> ProbeInterval c \<le> 0) \<and>
    (fst (run (collector_loop P (dashboard_config c) n) w) = Panic \<longleftrightarrow> ScrapeInterval c \<le> - second) \<and>
    (\<bar>ScrapeInterval c\<bar> < second \<longrightarrow> scrape_interval (dc_ScrapeInterval (dashboard_config c)) = 5 * second)"
proof -
  have "list_all (\<lambda>d. NewTicker d = Done d)
      [monitor_interval (DrainPollInterval c), LeaseRenewInterval c, ReconcileInterval c]"
    by (rule agent_tickers_ok [OF Load_valid [OF assms, THEN conjunct1]])
  moreover have "heartbeatSession c es = Panic \<longleftrightarrow> ProbeInterval c \<le> 0"
    by (simp add: heartbeatSession_def NewTicker_def)
  moreover have "fst (run (collector_loop P (dashboard_config c) n) w) = Panic \<longleftrightarrow> int_Seconds (ScrapeInterval c) < 0"
    using scrape_interval_pos [of "int_Seconds (ScrapeInterval c)"]
    by (auto simp: collector_loop_def NewTicker_def dashboard_config_def split: prod.split)
  moreover have "\<bar>ScrapeInterval c\<bar> < second \<Longrightarrow> scrape_interval (dc_ScrapeInterval (dashboard_config c)) = 5 * second"
    using int_Seconds_zero [of "ScrapeInterval c"] by (simp add: dashboard_config_def scrape_interval_def second_def)
  ultimately show ?thesis by (simp add: int_Seconds_neg)
qed

definition zero_probe :: environ where
  "zero_probe = (\<lambda>k. if k = ''KUBE_NAT_PROBE_INTERVAL'' then ''0s'' else '''')"

theorem accepted_intervals_witness:
  "\<exists>c. Load zero_probe = Inr c \<and> NewTicker (LeaseRenewInterval c) = Done (LeaseRenewInterval c) \<and>
     heartbeatSession c [] = Panic"
proof -
  have "itoa 0 = ''0''" by code_simp
  then have "ParseDuration ''0s'' = Inr 0" using ParseDuration_seconds [of 0] by (simp del: ParseDuration.simps)
  then obtain c where c: "Load zero_probe = Inr c" and p: "ProbeInterval c = 0"
    by (simp add: Load_def from_env_def Let_def getEnv_def getIntEnv_def getDurationEnv_def getBoolEnv_def
        zero_probe_def time_units)
  from accepted_intervals [OF c, of "[]"] p c show ?thesis by auto
qed

end
