(* ===== verification/Spec2Isabelle.thy ===== *)
theory Spec2Isabelle
  imports Lease_Properties Peer_Properties Config Imds Sysinfo Agent_Properties Agent_Peers Agent_Liveness
    Agent_Sweep Agent_Bookkeeping Ownership Collector_Properties Boot_Properties Metrics_Properties Command_Line
begin

text \<open>
  A model of kube-nat, a NAT for Kubernetes clusters on AWS, with its properties.

  \<^bold>\<open>The program.\<close> One agent runs on the NAT node of each availability zone (AZ). It masquerades
  the node's traffic, points the default routes of its AZ's route tables at its instance, and
  holds a Kubernetes Lease for the AZ. Agents watch each other over TCP and through the Leases;
  when an AZ's agent is gone, another one takes its Lease and its route tables over. The agent
  exports metrics and takes requests over HTTP; a dashboard scrapes all agents, derives events
  from what changed, and shows a snapshot to the browsers. The parts share no memory: agents
  meet in the Leases and the routes, the dashboard sees them through their metrics.

  \<^bold>\<open>The effect layer.\<close> \<open>Effects\<close> has the type \<open>prog\<close> of programs: trees of atomic actions on a
  world. A call of another system (the API server, the AWS SDK, go-iptables, a file, a socket,
  the clock) is one action, and so is a section under a mutex. \<open>run\<close> executes a program alone,
  \<open>par_step\<close> and \<open>par_reach\<close> interleave any number of threads. \<open>Rely_Guarantee\<close> has the triples
  (\<open>triple\<close>, locale \<open>rg\<close>) and the predicate \<open>anyhow\<close> with which facts about interleavings are
  proved once per operation. \<open>Go_Base\<close> has what the sources use of Go's standard library:
  errors, strings, decimal numbers.

  \<^bold>\<open>Theories and sources.\<close>
  \<^item> \<open>Lease\<close>: \<open>internal/lease/lease.go\<close>, method by method (\<open>Renew\<close>, \<open>Acquire\<close>, \<open>Release\<close>,
    \<open>ListExpiredAZs\<close>), over the API server \<open>lease_api\<close>; its contract \<open>lease_api_ok\<close> is
    compare-and-set on the resource version, seen through a store \<open>kstore\<close>. \<open>Lease_Safety\<close> and
    \<open>Lease_Cluster\<close>: what each call may change under interference. \<open>Lease_Function\<close>: every branch
    when the server answers. \<open>Lease_Server\<close>: a server in memory that satisfies the contract.
    \<open>Lease_Properties\<close>.
  \<^item> \<open>Config\<close>: \<open>internal/config/config.go\<close>. \<open>Command_Line\<close>: \<open>cmd/kube-nat/main.go\<close>, the dashboard's
    constructor and the tickers of both programs.
  \<^item> \<open>Imds\<close>: \<open>internal/aws/metadata.go\<close> and \<open>internal/spot/watcher.go\<close>. \<open>Ec2\<close>: \<open>internal/aws/ec2.go\<close>,
    with the interface of the EC2 client as a record of programs; \<open>Ec2_Routes\<close>: the contract of
    the SDK's calls and what the client's operations do to the routes.
  \<^item> \<open>Nat_Manager\<close>: \<open>internal/nat/\<close>, over the interface \<open>iptablesAPI\<close>, with a kernel in memory.
  \<^item> \<open>Reconciler\<close>: \<open>internal/reconciler/reconciler.go\<close>: the bookkeeping \<open>rec_state\<close> and every
    operation on it. \<open>Reconciler_Function\<close>, \<open>Reconciler_Release\<close>, \<open>Reconciler_Properties\<close>.
  \<^item> \<open>Sysinfo\<close>: \<open>internal/iface/\<close> and the arithmetic of the agent's sampler.
  \<^item> \<open>Peer_Protocol\<close>, \<open>Peer_Session\<close>, \<open>Peer_Properties\<close>: \<open>internal/peer/\<close>: frames, server and client.
  \<^item> \<open>Drain\<close>: \<open>internal/agent/drain.go\<close>. \<open>Agent\<close>: the goroutines of \<open>Run\<close> in
    \<open>internal/agent/agent.go\<close>, one program per tick: \<open>leaseTick\<close>, \<open>reconcileTick\<close> (set-up, serving,
    vacating, sweep, metrics), \<open>sampler\<close>, \<open>drainTick\<close>, \<open>discover\<close>, \<open>peerSession\<close>, \<open>onSpotNotice\<close>,
    \<open>shutdown\<close>. The world of an agent, \<open>agentw\<close>, extends the drain monitor's, which extends the
    reconciler's; \<open>agent_env\<close> is what \<open>Run\<close> fixes at start. \<open>Boot\<close>: the start of \<open>Run\<close> and its HTTP
    server. \<open>Web_Handlers\<close>: \<open>internal/metrics/server.go\<close>.
  \<^item> \<open>Metrics_Registry\<close>: \<open>internal/metrics/metrics.go\<close>, and the series an agent's metrics form.
  \<^item> \<open>Collector\<close>: \<open>internal/collector/\<close>. \<open>Dashboard\<close>: \<open>internal/dashboard/\<close>.

  \<^bold>\<open>The cluster.\<close> \<open>cluster\<close> is any number of agents, each with its own memory, on one outside
  world; \<open>goroutine\<close> and \<open>http_thread\<close> say which threads an agent has: any finite sequence of
  its ticks, sessions and requests. \<open>cloud_ok\<close> collects what the code relies on outside the
  repository; \<open>Sim_World\<close> is a world that has it, in which the witnesses run.

  \<^bold>\<open>What the groups of lemmas show.\<close>
  \<^item> Safety of Leases and routes. Every thread of an agent keeps the guarantee \<open>agent_guar\<close>:
    Leases change only by the takeover policy, a route is turned only to the own instance and
    only for an AZ whose Lease the agent has held (\<open>Agent_Safety\<close>, \<open>Agent_Threads\<close>,
    \<open>Agent_Guarantee\<close>, \<open>Agent_Cluster\<close>, \<open>Agent_Properties\<close>). With requests to \<open>/claim\<close> and \<open>/release\<close>
    the weaker \<open>op_guar\<close> holds (\<open>Agent_Operators\<close>). The lift from a thread to the cluster is the
    locale \<open>cluster_laws\<close>, interpreted for both.
  \<^item> Refinement. \<open>Ownership\<close> has the abstract machine of owners; every interleaving of the
    agents is a run of it. \<open>Collector_Logs\<close> refines the capped logs of the collector by
    unbounded ones.
  \<^item> Memory of an agent. The locale \<open>agent_laws\<close> (\<open>Agent_Form\<close>) names the ways in which threads
    change metrics and bookkeeping; \<open>Agent_Bookkeeping\<close> and \<open>Metrics_Properties\<close> interpret it for
    the soundness of the bookkeeping and for the form of the series, which the collector's
    snapshot is read from (\<open>Metrics_Scrape\<close>).
  \<^item> Liveness. A takeover and a sweep do all they should when the other systems answer
    (\<open>Agent_Liveness\<close>, \<open>Agent_Sweep\<close>).
  \<^item> Functional behaviour, error branches included: \<open>Lease_Function\<close>, \<open>Reconciler_Function\<close>,
    \<open>Reconciler_Release\<close>, \<open>Agent_Function\<close>, \<open>Agent_Peers\<close>, \<open>Boot_Properties\<close>, \<open>Collector_Function\<close>,
    \<open>Collector_Properties\<close>.

  \<^bold>\<open>Bounds.\<close> \<open>renew_loop\<close> counts down the three attempts of the code. Loops that end with the
  program (tickers, accept loops, dial loops) run over a finite list of what they meet, or of
  the ticker's times; since every statement quantifies over the list, each finite prefix of a
  run is covered. \<open>read_loop\<close> and \<open>dash_ticks\<close> take the number of turns. No other fuel is used.
  Times and durations are nanoseconds as integers; byte and tick counters are 64-bit words and
  wrap; floats are reals, so rounding and NaN are outside the model.

  \<^bold>\<open>Not modelled.\<close> Log lines and help texts; the embedded files of the web UI (\<open>web/embed.go\<close>)
  and their serving; the parsing of the command line; the signal handler and contexts other
  than as the choice to stop a loop; deadlines of sockets and HTTP clients (a call may fail at
  any time instead); JSON and the Prometheus text format (parameters, with \<open>exposes\<close> as what
  writing and parsing do together); the Go scheduler below the level of atomic actions. A
  section of the collector under its mutex is one action although it reads the clock several
  times.
\<close>

section \<open>Configuration and Leases together\<close>

lemma renew_interval_quarter: "4 * second \<le> LeaseDuration c \<Longrightarrow> LeaseRenewInterval c \<le> LeaseDuration c div 4"
  by (auto simp: LeaseRenewInterval_def Let_def second_def)



end
